(* ===== verification/SmoPrelude.thy ===== *)
theory SmoPrelude
  imports Main "HOL-Library.Word"
begin

text \<open>
  The vocabulary every component shares.

  \<^item> The Rust integer types as words of their width; an \<open>f32\<close> is its IEEE bit pattern, which is
    all that \<open>get_f32_le\<close> and \<open>put_f32_le\<close> move.
  \<^item> \<open>res\<close>: how a Rust computation can end. \<open>Ok\<close> and \<open>Err\<close> are the two constructors of
    \<open>std::result::Result\<close>; \<open>Panic\<close> is an unwinding panic.
  \<^item> \<open>prog\<close>: a computation that threads a mutable argument (a buffer, a socket, the state of a
    component). The state is returned in every outcome, because a \<open>&mut\<close> argument stays changed
    when the callee returns an error.
  \<^item> \<open>sim\<close>: a functional simulation between two such computations through a view of the state. It
    carries every fact about a concrete buffer over to any buffer that keeps the trait's contract.
\<close>

section \<open>Rust's integers\<close>

type_synonym u8 = "8 word"
type_synonym i8 = "8 word"
type_synonym u16 = "16 word"
type_synonym u32 = "32 word"
type_synonym i32 = "32 word"
type_synonym f32 = "32 word"
type_synonym u64 = "64 word"
type_synonym usize = "64 word"

text \<open>The bytes of a \<open>String\<close> or \<open>str\<close>; that they are valid UTF-8 is an invariant of the type.\<close>

type_synonym rstring = "u8 list"

section \<open>Outcomes and state-passing programs\<close>

datatype ('a, 'e) res = Ok 'a | Err 'e | Panic

type_synonym ('a, 'e, 's) prog = "'s \<Rightarrow> ('a, 'e) res \<times> 's"

definition ret :: "'a \<Rightarrow> ('a, 'e, 's) prog" where
  "ret a s = (Ok a, s)"

definition throw :: "'e \<Rightarrow> ('a, 'e, 's) prog" where
  "throw e s = (Err e, s)"

text \<open>Sequencing with the \<open>?\<close> operator: an error or a panic ends the whole computation.\<close>

definition bindp :: "('a, 'e, 's) prog \<Rightarrow> ('a \<Rightarrow> ('b, 'e, 's) prog) \<Rightarrow> ('b, 'e, 's) prog" where
  "bindp m f s = (case m s of
       (Ok a, s') \<Rightarrow> f a s'
     | (Err e, s') \<Rightarrow> (Err e, s')
     | (Panic, s') \<Rightarrow> (Panic, s'))"

text \<open>A read of the state, and a primitive that panics where it has no result.\<close>

definition gets :: "('s \<Rightarrow> 'a) \<Rightarrow> ('a, 'e, 's) prog" where
  "gets f s = (Ok (f s), s)"

definition prim :: "('s \<Rightarrow> ('a \<times> 's) option) \<Rightarrow> ('a, 'e, 's) prog" where
  "prim g s = (case g s of None \<Rightarrow> (Panic, s) | Some (a, s') \<Rightarrow> (Ok a, s'))"

text \<open>A primitive that only changes the state.\<close>

definition primu :: "('s \<Rightarrow> 's option) \<Rightarrow> (unit, 'e, 's) prog" where
  "primu g s = (case g s of None \<Rightarrow> (Panic, s) | Some s' \<Rightarrow> (Ok (), s'))"

text \<open>The conversion \<open>From\<close> that \<open>?\<close> applies to the error.\<close>

fun map_err :: "('e \<Rightarrow> 'f) \<Rightarrow> ('a, 'e) res \<Rightarrow> ('a, 'f) res" where
  "map_err f (Ok a) = Ok a"
| "map_err f (Err e) = Err (f e)"
| "map_err f Panic = Panic"

lemma map_err_eq [simp]:
  "map_err f r = Ok a \<longleftrightarrow> r = Ok a"
  "map_err f r = Err e \<longleftrightarrow> (\<exists>x. r = Err x \<and> e = f x)"
  "map_err f r = Panic \<longleftrightarrow> r = Panic"
  by (cases r; auto)+

named_theorems prog_defs "the combinators of programs, unfolded on a state"

lemma ret_run [prog_defs, simp]: "ret a s = (Ok a, s)"
  by (simp add: ret_def)

lemma throw_run [prog_defs, simp]: "throw e s = (Err e, s)"
  by (simp add: throw_def)

lemma gets_run [prog_defs, simp]: "gets f s = (Ok (f s), s)"
  by (simp add: gets_def)

lemma bindp_Ok [simp]: "m s = (Ok a, s') \<Longrightarrow> bindp m f s = f a s'"
  by (simp add: bindp_def)

lemma bindp_Err [simp]: "m s = (Err e, s') \<Longrightarrow> bindp m f s = (Err e, s')"
  by (simp add: bindp_def)

lemma bindp_Panic [simp]: "m s = (Panic, s') \<Longrightarrow> bindp m f s = (Panic, s')"
  by (simp add: bindp_def)

lemma prim_Some [simp]: "g s = Some (a, s') \<Longrightarrow> prim g s = (Ok a, s')"
  by (simp add: prim_def)

lemma prim_None [simp]: "g s = None \<Longrightarrow> prim g s = (Panic, s)"
  by (simp add: prim_def)

lemma primu_Some [simp]: "g s = Some s' \<Longrightarrow> primu g s = (Ok (), s')"
  by (simp add: primu_def)

lemma primu_None [simp]: "g s = None \<Longrightarrow> primu g s = (Panic, s)"
  by (simp add: primu_def)

lemma bindp_eq_Ok:
  "bindp m f s = (Ok b, t) \<longleftrightarrow> (\<exists>a s'. m s = (Ok a, s') \<and> f a s' = (Ok b, t))"
  by (auto simp: bindp_def split: res.splits prod.splits)

lemma prim_eq_Ok: "prim g s = (Ok a, s') \<longleftrightarrow> g s = Some (a, s')"
  by (auto simp: prim_def split: option.splits)

lemma primu_eq_Ok: "primu g s = (Ok u, s') \<longleftrightarrow> g s = Some s'"
  by (auto simp: primu_def split: option.splits)

section \<open>Simulation through a view of the state\<close>

definition sim :: "('s \<Rightarrow> 't) \<Rightarrow> ('a, 'e, 's) prog \<Rightarrow> ('a, 'e, 't) prog \<Rightarrow> bool" where
  "sim view m p \<longleftrightarrow> (\<forall>s. p (view s) = apsnd view (m s))"

named_theorems sim_rules "rules that build a simulation along the structure of a program"

lemma simD: "sim view m p \<Longrightarrow> p (view s) = apsnd view (m s)"
  by (simp add: sim_def)

lemma sim_ret [sim_rules]: "sim view (ret a) (ret a)"
  by (simp add: sim_def)

lemma sim_throw [sim_rules]: "sim view (throw e) (throw e)"
  by (simp add: sim_def)

lemma sim_bindp [sim_rules]:
  "sim view m p \<Longrightarrow> (\<And>a. sim view (f a) (g a)) \<Longrightarrow> sim view (bindp m f) (bindp p g)"
  by (auto simp: sim_def bindp_def split: res.splits prod.splits)

lemma sim_gets [sim_rules]: "(\<And>s. g (view s) = f s) \<Longrightarrow> sim view (gets f) (gets g)"
  by (simp add: sim_def)

lemma sim_prim [sim_rules]:
  "(\<And>s. h (view s) = map_option (apsnd view) (g s)) \<Longrightarrow> sim view (prim g) (prim h)"
  by (auto simp: sim_def prim_def split: option.splits)

lemma sim_primu [sim_rules]:
  "(\<And>s. h (view s) = map_option view (g s)) \<Longrightarrow> sim view (primu g) (primu h)"
  by (auto simp: sim_def primu_def split: option.splits)

lemma sim_if [sim_rules]:
  "(b \<Longrightarrow> sim view m p) \<Longrightarrow> (\<not> b \<Longrightarrow> sim view n q) \<Longrightarrow>
   sim view (if b then m else n) (if b then p else q)"
  by simp

section \<open>Lists\<close>

text \<open>The first \<open>n\<close> elements and what follows them, where there are that many.\<close>

definition split_at :: "nat \<Rightarrow> 'a list \<Rightarrow> ('a list \<times> 'a list) option" where
  "split_at n xs = (if n \<le> length xs then Some (take n xs, drop n xs) else None)"

lemma split_at_append [simp]: "length xs = n \<Longrightarrow> split_at n (xs @ ys) = Some (xs, ys)"
  by (simp add: split_at_def)

lemma split_at_None [simp]: "split_at n xs = None \<longleftrightarrow> length xs < n"
  by (auto simp: split_at_def)

lemma split_at_Some:
  "split_at n xs = Some (ys, zs) \<longleftrightarrow> xs = ys @ zs \<and> length ys = n"
  by (auto simp: split_at_def)

end
