(* ===== verification/WireBytes.thy ===== *)
theory WireBytes
  imports SmoPrelude
begin

text \<open>
  Bytes on the wire: little- and big-endian words, UTF-8 validity as \<open>std::str::from_utf8\<close>
  decides it, \<open>str::trim_matches\<close> for the NUL character, and NUL padding. Strings are their UTF-8
  bytes. The lemmas are the round trips and closure facts the packet codec rests on.
\<close>

unbundle bit_operations_syntax

section \<open>Words as bytes\<close>

text \<open>\<open>le_bytes n w\<close> is the \<open>n\<close>-byte little-endian form of \<open>w\<close>, \<open>le_word\<close> reads one back.\<close>

fun le_bytes :: "nat \<Rightarrow> 'a::len word \<Rightarrow> u8 list" where
  "le_bytes 0 w = []"
| "le_bytes (Suc n) w = ucast w # le_bytes n (drop_bit 8 w)"

fun le_word :: "u8 list \<Rightarrow> 'a::len word" where
  "le_word [] = 0"
| "le_word (b # bs) = ucast b OR push_bit 8 (le_word bs)"

text \<open>Network order, as \<open>put_u16\<close> and \<open>get_u16\<close> without the suffix have it.\<close>

definition be_bytes :: "nat \<Rightarrow> 'a::len word \<Rightarrow> u8 list" where
  "be_bytes n w = rev (le_bytes n w)"

definition be_word :: "u8 list \<Rightarrow> 'a::len word" where
  "be_word bs = le_word (rev bs)"

lemma length_le_bytes [simp]: "length (le_bytes n w) = n"
  by (induction n arbitrary: w) auto

lemma length_be_bytes [simp]: "length (be_bytes n w) = n"
  by (simp add: be_bytes_def)

lemma bit_le_word_le_bytes:
  fixes w :: "'a::len word"
  shows "bit (le_word (le_bytes n w) :: 'a word) i \<longleftrightarrow> i < 8 * n \<and> bit w i"
proof (induction n arbitrary: w i)
  case 0
  then show ?case by simp
next
  case (Suc n)
  have "bit (le_word (le_bytes (Suc n) w) :: 'a word) i \<longleftrightarrow>
      (i < 8 \<and> bit w i) \<or> (8 \<le> i \<and> i < LENGTH('a) \<and> i - 8 < 8 * n \<and> bit w i)"
    by (auto simp: bit_simps Suc.IH dest: bit_imp_le_length)
  then show ?case by (auto dest: bit_imp_le_length)
qed

lemma le_word_le_bytes [simp]:
  fixes w :: "'a::len word"
  assumes "LENGTH('a) \<le> 8 * n"
  shows "le_word (le_bytes n w) = w"
proof (rule bit_word_eqI)
  fix i assume "i < LENGTH('a)"
  with assms have "i < 8 * n" by simp
  then show "bit (le_word (le_bytes n w) :: 'a word) i = bit w i"
    by (simp add: bit_le_word_le_bytes)
qed

lemma be_word_be_bytes [simp]:
  fixes w :: "'a::len word"
  assumes "LENGTH('a) \<le> 8 * n"
  shows "be_word (be_bytes n w) = w"
  using assms by (simp add: be_word_def be_bytes_def)

lemma le_bytes_le_word:
  assumes "8 * length bs \<le> LENGTH('a::len)"
  shows "le_bytes (length bs) (le_word bs :: 'a word) = bs"
  using assms
proof (induction bs)
  case Nil
  then show ?case by simp
next
  case (Cons b bs)
  let ?w = "le_word bs :: 'a word"
  have low: "ucast (ucast b OR push_bit 8 ?w :: 'a word) = b"
    using Cons.prems by (intro bit_word_eqI) (auto simp: bit_simps)
  have high: "drop_bit 8 (ucast b OR push_bit 8 ?w :: 'a word) = take_bit (LENGTH('a) - 8) ?w"
    by (intro bit_word_eqI) (auto simp: bit_simps dest: bit_imp_le_length)
  have small: "bit ?w i \<Longrightarrow> i < 8 * length bs" for i
  proof (induction bs arbitrary: i)
    case Nil
    then show ?case by simp
  next
    case (Cons c cs)
    from Cons.prems consider "bit c i" | "8 \<le> i" "bit (le_word cs :: 'a word) (i - 8)"
      by (auto simp: bit_simps)
    then show ?case
    proof cases
      case 1
      then have "i < 8" by (auto dest: bit_imp_le_length)
      then show ?thesis by simp
    next
      case 2
      with Cons.IH[of "i - 8"] show ?thesis by simp
    qed
  qed
  have "take_bit (LENGTH('a) - 8) ?w = ?w"
    using Cons.prems by (intro bit_word_eqI) (auto simp: bit_simps dest: small)
  with low high Cons show ?case by simp
qed

section \<open>UTF-8\<close>

text \<open>A string literal of the source, as its bytes.\<close>

definition str_lit :: "string \<Rightarrow> rstring" where
  "str_lit cs = map of_char cs"

text \<open>
  \<open>std::str::from_utf8\<close> accepts exactly the sequences of the Unicode standard's table 3-7: no
  overlong forms, no surrogates, nothing above U+10FFFF.
\<close>

definition cont_byte :: "u8 \<Rightarrow> bool" where
  "cont_byte b \<longleftrightarrow> 0x80 \<le> b \<and> b \<le> 0xBF"

definition second_of_three :: "u8 \<Rightarrow> u8 \<Rightarrow> bool" where
  "second_of_three a b \<longleftrightarrow>
     (if a = 0xE0 then 0xA0 \<le> b \<and> b \<le> 0xBF
      else if a = 0xED then 0x80 \<le> b \<and> b \<le> 0x9F
      else cont_byte b)"

definition second_of_four :: "u8 \<Rightarrow> u8 \<Rightarrow> bool" where
  "second_of_four a b \<longleftrightarrow>
     (if a = 0xF0 then 0x90 \<le> b \<and> b \<le> 0xBF
      else if a = 0xF4 then 0x80 \<le> b \<and> b \<le> 0x8F
      else cont_byte b)"

text \<open>The length a first byte announces (the table \<open>UTF8_CHAR_WIDTH\<close> of the standard library).\<close>

definition utf8_width :: "u8 \<Rightarrow> nat" where
  "utf8_width a =
     (if a < 0x80 then 1
      else if 0xC2 \<le> a \<and> a \<le> 0xDF then 2
      else if 0xE0 \<le> a \<and> a \<le> 0xEF then 3
      else if 0xF0 \<le> a \<and> a \<le> 0xF4 then 4
      else 0)"

text \<open>What is left after the first character, where there is a well-formed one.\<close>

definition utf8_next :: "u8 list \<Rightarrow> u8 list option" where
  "utf8_next s = (case s of [] \<Rightarrow> None | a # bs \<Rightarrow>
     (if utf8_width a = 1 then Some bs
      else if utf8_width a = 2 then
        (case bs of b # r \<Rightarrow> if cont_byte b then Some r else None | _ \<Rightarrow> None)
      else if utf8_width a = 3 then
        (case bs of b # c # r \<Rightarrow> if second_of_three a b \<and> cont_byte c then Some r else None
                  | _ \<Rightarrow> None)
      else if utf8_width a = 4 then
        (case bs of b # c # d # r \<Rightarrow>
           if second_of_four a b \<and> cont_byte c \<and> cont_byte d then Some r else None
                  | _ \<Rightarrow> None)
      else None))"

lemma utf8_next_shorter: "utf8_next s = Some r \<Longrightarrow> length r < length s"
  by (auto simp: utf8_next_def split: list.splits if_splits)

function utf8_valid :: "u8 list \<Rightarrow> bool" where
  "utf8_valid [] = True"
| "utf8_valid (a # bs) = (case utf8_next (a # bs) of None \<Rightarrow> False | Some r \<Rightarrow> utf8_valid r)"
  by pat_completeness auto
termination
  by (relation "measure length") (auto dest: utf8_next_shorter)

lemma utf8_width_ascii [simp]: "a < 0x80 \<Longrightarrow> utf8_width a = 1"
  by (simp add: utf8_width_def)

lemma utf8_width_nul [simp]: "utf8_width 0 = 1"
  by (simp add: utf8_width_def)

lemma nul_not_cont [simp]: "\<not> cont_byte 0"
  by (simp add: cont_byte_def)

lemma nul_not_second [simp]: "\<not> second_of_three a 0" "\<not> second_of_four a 0"
  by (simp_all add: second_of_three_def second_of_four_def)

lemma utf8_next_cases:
  obtains "s = []" | a where "s = [a]" | a b where "s = [a, b]" | a b c where "s = [a, b, c]"
  | a b c d r where "s = a # b # c # d # r"
  by (metis list.exhaust)

lemma utf8_next_append: "utf8_next xs = Some r \<Longrightarrow> utf8_next (xs @ ys) = Some (r @ ys)"
  by (rule utf8_next_cases[of xs]) (simp_all add: utf8_next_def split: if_splits)

lemma utf8_next_ascii [simp]: "a < 0x80 \<Longrightarrow> utf8_next (a # bs) = Some bs"
  by (simp add: utf8_next_def)

lemma utf8_next_nul [simp]: "utf8_next (0 # bs) = Some bs"
  by (simp add: utf8_next_def)

lemma utf8_valid_append: "utf8_valid xs \<Longrightarrow> utf8_valid (xs @ ys) = utf8_valid ys"
proof (induction xs rule: utf8_valid.induct)
  case (2 a bs)
  then obtain r where r: "utf8_next (a # bs) = Some r" and "utf8_valid r"
    by (auto split: option.splits)
  with 2 have "utf8_valid (r @ ys) = utf8_valid ys" by blast
  with utf8_next_append[OF r, of ys] show ?case by simp
qed simp

lemma utf8_valid_ascii: "(\<And>b. b \<in> set s \<Longrightarrow> b < 0x80) \<Longrightarrow> utf8_valid s"
  by (induction s) auto

text \<open>A NUL byte is a character of its own, so it never falls inside another one.\<close>

lemma utf8_next_before_nul:
  assumes "utf8_next ((a # bs) @ 0 # ys) = Some r"
  obtains r' where "utf8_next (a # bs) = Some r'" and "r = r' @ 0 # ys"
proof -
  have "\<exists>r'. utf8_next (a # bs) = Some r' \<and> r = r' @ 0 # ys"
    using assms
    by (cases bs rule: utf8_next_cases) (auto simp: utf8_next_def split: if_splits list.splits)
  with that show thesis by blast
qed

lemma utf8_valid_nul: "utf8_valid (xs @ 0 # ys) \<longleftrightarrow> utf8_valid xs \<and> utf8_valid ys"
proof (induction xs rule: utf8_valid.induct)
  case (2 a bs)
  show ?case
  proof (cases "utf8_next ((a # bs) @ 0 # ys)")
    case None
    then have "utf8_next (a # bs) = None"
      using utf8_next_append[of "a # bs" _ "0 # ys"] by (metis not_None_eq)
    with None show ?thesis by simp
  next
    case (Some r)
    then obtain r' where r': "utf8_next (a # bs) = Some r'" and r: "r = r' @ 0 # ys"
      by (rule utf8_next_before_nul)
    from Some r r' "2.IH"[OF r'] show ?thesis by simp
  qed
qed simp

lemma utf8_valid_nuls [simp]: "utf8_valid (replicate n 0)"
  by (induction n) auto

lemma utf8_valid_pad [simp]: "utf8_valid (xs @ replicate n 0) = utf8_valid xs"
proof (cases n)
  case (Suc m)
  then show ?thesis by (simp add: utf8_valid_nul)
qed simp

section \<open>Trimming NULs\<close>

text \<open>\<open>str::trim_matches(char::from(0))\<close>: NULs off both ends, none from the middle.\<close>

definition trim_nul :: "rstring \<Rightarrow> rstring" where
  "trim_nul s = rev (dropWhile (\<lambda>b. b = 0) (rev (dropWhile (\<lambda>b. b = 0) s)))"

definition trimmed :: "rstring \<Rightarrow> bool" where
  "trimmed s \<longleftrightarrow> s = [] \<or> (hd s \<noteq> 0 \<and> last s \<noteq> 0)"

lemma dropWhile_nul_split: "\<exists>k. s = replicate k (0::u8) @ dropWhile (\<lambda>b. b = 0) s"
proof (induction s)
  case Nil
  then show ?case by simp
next
  case (Cons a s)
  then obtain k where k: "s = replicate k (0::u8) @ dropWhile (\<lambda>b. b = 0) s" by blast
  show ?case
  proof (cases "a = 0")
    case True
    with k have "a # s = replicate (Suc k) 0 @ dropWhile (\<lambda>b. b = 0) (a # s)" by simp
    then show ?thesis by blast
  next
    case False
    then have "a # s = replicate 0 0 @ dropWhile (\<lambda>b. b = 0) (a # s)" by simp
    then show ?thesis by blast
  qed
qed

lemma trim_nul_split: "\<exists>j k. s = replicate j 0 @ trim_nul s @ replicate k 0"
proof -
  let ?d = "dropWhile (\<lambda>b. b = 0) s"
  from dropWhile_nul_split obtain j where j: "s = replicate j 0 @ ?d" by blast
  from dropWhile_nul_split obtain k
    where k: "rev ?d = replicate k 0 @ dropWhile (\<lambda>b. b = 0) (rev ?d)" by blast
  have "?d = rev (replicate k 0 @ dropWhile (\<lambda>b. b = 0) (rev ?d))"
    using k by (metis rev_rev_ident)
  then have "?d = trim_nul s @ replicate k 0"
    by (simp add: trim_nul_def)
  with j have "s = replicate j 0 @ trim_nul s @ replicate k 0" by simp
  then show ?thesis by blast
qed

lemma utf8_valid_nuls_append [simp]: "utf8_valid (replicate k 0 @ xs) = utf8_valid xs"
  by (simp add: utf8_valid_append)

lemma utf8_valid_trim_nul: "utf8_valid s \<Longrightarrow> utf8_valid (trim_nul s)"
  by (metis trim_nul_split utf8_valid_nuls_append utf8_valid_pad)

lemma length_trim_nul: "length (trim_nul s) \<le> length s"
  using trim_nul_split[of s] by (metis length_append le_add1 le_add2 le_trans)

lemma hd_dropWhile_nul: "dropWhile (\<lambda>b. b = 0) s \<noteq> [] \<Longrightarrow> hd (dropWhile (\<lambda>b. b = 0) s) \<noteq> (0::u8)"
  by (rule hd_dropWhile)

lemma trimmed_trim_nul [simp]: "trimmed (trim_nul s)"
proof (cases "trim_nul s = []")
  case True
  then show ?thesis by (simp add: trimmed_def)
next
  case False
  let ?d = "dropWhile (\<lambda>b. b = 0) s"
  let ?e = "dropWhile (\<lambda>b. b = 0) (rev ?d)"
  have t: "trim_nul s = rev ?e" by (simp add: trim_nul_def)
  with False have e: "?e \<noteq> []" by simp
  then have "?d \<noteq> []" by (metis dropWhile.simps(1) rev.simps(1))
  moreover from dropWhile_nul_split[of "rev ?d"] obtain k where "rev ?d = replicate k 0 @ ?e" by blast
  then have "last (rev ?d) = last ?e" using e by (metis last_appendR)
  ultimately have "last ?e = hd ?d" by (simp add: last_rev)
  with \<open>?d \<noteq> []\<close> have "last ?e \<noteq> 0" by (simp add: hd_dropWhile_nul)
  moreover from e have "hd ?e \<noteq> 0" by (rule hd_dropWhile_nul)
  ultimately show ?thesis using e t by (simp add: trimmed_def hd_rev last_rev)
qed

lemma dropWhile_nul_replicate [simp]:
  "dropWhile (\<lambda>b. b = 0) (replicate k (0::u8) @ xs) = dropWhile (\<lambda>b. b = 0) xs"
  by (induction k) auto

lemma trim_nul_trimmed:
  assumes "trimmed s"
  shows "trim_nul (s @ replicate k 0) = s"
proof (cases "s = []")
  case True
  then show ?thesis using dropWhile_nul_replicate[of k "[]"] by (simp add: trim_nul_def)
next
  case False
  with assms have hd: "hd s \<noteq> 0" and last: "last s \<noteq> 0" by (auto simp: trimmed_def)
  from False hd have "dropWhile (\<lambda>b. b = 0) (s @ replicate k 0) = s @ replicate k 0"
    by (cases s) auto
  moreover from False last have "dropWhile (\<lambda>b. b = 0) (rev s) = rev s"
    by (cases s rule: rev_cases) auto
  ultimately show ?thesis by (simp add: trim_nul_def)
qed

lemma trim_nul_id [simp]: "trimmed s \<Longrightarrow> trim_nul s = s"
  using trim_nul_trimmed[of s 0] by simp

end
