(* ===== verification/BufTraits.thy ===== *)
theory BufTraits
  imports WireBytes
begin

text \<open>
  The traits \<open>Buf\<close> and \<open>BufMut\<close> of the third-party crate \<open>bytes\<close>, over which the codec is
  generic (\<open>impl<R: Buf> Decodable<R>\<close>, \<open>impl<W: BufMut> Encodable<W>\<close>). An implementation is a
  dictionary of its operations, a record passed to every definition that uses the trait; an
  operation that panics has no result. The documented contract is a locale over an abstraction to
  the bytes not yet read (or already written). The laws are discharged for a list of bytes, for
  \<open>Cursor<&[u8]>\<close> and for \<open>BytesMut\<close>, the buffers the program uses.
\<close>

section \<open>Reading: the trait Buf\<close>

record 'r buf =
  remaining :: "'r \<Rightarrow> nat"
  advance :: "nat \<Rightarrow> 'r \<Rightarrow> 'r option"
  copy_to_slice :: "nat \<Rightarrow> 'r \<Rightarrow> (u8 list \<times> 'r) option"
  copy_to_bytes :: "nat \<Rightarrow> 'r \<Rightarrow> (u8 list \<times> 'r) option"
  get_u8 :: "'r \<Rightarrow> (u8 \<times> 'r) option"
  get_i8 :: "'r \<Rightarrow> (i8 \<times> 'r) option"
  get_u16_le :: "'r \<Rightarrow> (u16 \<times> 'r) option"
  get_u32_le :: "'r \<Rightarrow> (u32 \<times> 'r) option"
  get_i32_le :: "'r \<Rightarrow> (i32 \<times> 'r) option"
  get_f32_le :: "'r \<Rightarrow> (f32 \<times> 'r) option"

text \<open>A little-endian word off the front of the bytes that are left.\<close>

definition read_le :: "nat \<Rightarrow> u8 list \<Rightarrow> ('a::len word \<times> u8 list) option" where
  "read_le n bs = map_option (apfst le_word) (split_at n bs)"

lemma read_le_append [simp]:
  "length xs = n \<Longrightarrow> read_le n (xs @ ys) = Some (le_word xs, ys)"
  by (simp add: read_le_def)

lemma read_le_None [simp]: "read_le n bs = None \<longleftrightarrow> length bs < n"
  by (simp add: read_le_def)

lemma read_le_Some:
  "read_le n bs = Some (w, rest) \<longleftrightarrow> (\<exists>xs. bs = xs @ rest \<and> length xs = n \<and> w = le_word xs)"
  by (auto simp: read_le_def split_at_Some)

lemma read_le_le_bytes [simp]:
  "LENGTH('a) \<le> 8 * n \<Longrightarrow> read_le n (le_bytes n (w::'a::len word) @ ys) = Some (w, ys)"
  by simp

locale buf_impl =
  fixes B :: "'r buf" and view :: "'r \<Rightarrow> u8 list"
  assumes remaining_law: "remaining B r = length (view r)"
    and advance_law: "map_option view (advance B n r) =
          (if n \<le> length (view r) then Some (drop n (view r)) else None)"
    and slice_law: "map_option (apsnd view) (copy_to_slice B n r) = split_at n (view r)"
    and bytes_law: "map_option (apsnd view) (copy_to_bytes B n r) = split_at n (view r)"
    and u8_law: "map_option (apsnd view) (get_u8 B r) = read_le 1 (view r)"
    and i8_law: "map_option (apsnd view) (get_i8 B r) = read_le 1 (view r)"
    and u16_law: "map_option (apsnd view) (get_u16_le B r) = read_le 2 (view r)"
    and u32_law: "map_option (apsnd view) (get_u32_le B r) = read_le 4 (view r)"
    and i32_law: "map_option (apsnd view) (get_i32_le B r) = read_le 4 (view r)"
    and f32_law: "map_option (apsnd view) (get_f32_le B r) = read_le 4 (view r)"

text \<open>The plainest implementation: the bytes themselves (\<open>&[u8]\<close> and \<open>Bytes\<close> are of this kind).\<close>

definition list_buf :: "u8 list buf" where
  "list_buf = \<lparr>
     remaining = length,
     advance = (\<lambda>n bs. if n \<le> length bs then Some (drop n bs) else None),
     copy_to_slice = split_at,
     copy_to_bytes = split_at,
     get_u8 = read_le 1,
     get_i8 = read_le 1,
     get_u16_le = read_le 2,
     get_u32_le = read_le 4,
     get_i32_le = read_le 4,
     get_f32_le = read_le 4 \<rparr>"

lemma list_buf_ops [simp]:
  "remaining list_buf = length"
  "advance list_buf n bs = (if n \<le> length bs then Some (drop n bs) else None)"
  "copy_to_slice list_buf = split_at"
  "copy_to_bytes list_buf = split_at"
  "get_u8 list_buf = read_le 1"
  "get_i8 list_buf = read_le 1"
  "get_u16_le list_buf = read_le 2"
  "get_u32_le list_buf = read_le 4"
  "get_i32_le list_buf = read_le 4"
  "get_f32_le list_buf = read_le 4"
  by (simp_all add: list_buf_def)

lemma apsnd_ident: "map_option (apsnd (\<lambda>x. x)) v = v"
  by (cases v) auto

interpretation list_reader: buf_impl list_buf "\<lambda>bs. bs"
  by unfold_locales (simp_all add: apsnd_ident)

text \<open>Every operation of a lawful buffer simulates the list operation of the same name.\<close>

context buf_impl
begin

lemma sim_remaining [sim_rules]: "sim view (gets (remaining B)) (gets (remaining list_buf))"
  by (rule sim_gets) (simp add: remaining_law)

lemma sim_advance [sim_rules]: "sim view (primu (advance B n)) (primu (advance list_buf n))"
  by (rule sim_primu) (simp add: advance_law)

lemma sim_slice [sim_rules]: "sim view (prim (copy_to_slice B n)) (prim (copy_to_slice list_buf n))"
  by (rule sim_prim) (simp add: slice_law)

lemma sim_bytes [sim_rules]: "sim view (prim (copy_to_bytes B n)) (prim (copy_to_bytes list_buf n))"
  by (rule sim_prim) (simp add: bytes_law)

lemma sim_u8 [sim_rules]: "sim view (prim (get_u8 B)) (prim (get_u8 list_buf))"
  by (rule sim_prim) (simp add: u8_law)

lemma sim_i8 [sim_rules]: "sim view (prim (get_i8 B)) (prim (get_i8 list_buf))"
  by (rule sim_prim) (simp add: i8_law)

lemma sim_u16 [sim_rules]: "sim view (prim (get_u16_le B)) (prim (get_u16_le list_buf))"
  by (rule sim_prim) (simp add: u16_law)

lemma sim_u32 [sim_rules]: "sim view (prim (get_u32_le B)) (prim (get_u32_le list_buf))"
  by (rule sim_prim) (simp add: u32_law)

lemma sim_i32 [sim_rules]: "sim view (prim (get_i32_le B)) (prim (get_i32_le list_buf))"
  by (rule sim_prim) (simp add: i32_law)

lemma sim_f32 [sim_rules]: "sim view (prim (get_f32_le B)) (prim (get_f32_le list_buf))"
  by (rule sim_prim) (simp add: f32_law)

lemmas reader_sims =
  sim_remaining sim_advance sim_slice sim_bytes sim_u8 sim_i8 sim_u16 sim_u32 sim_i32 sim_f32

end

section \<open>Cursors over borrowed bytes\<close>

text \<open>
  \<open>std::io::Cursor<&[u8]>\<close>: the bytes and a position. \<open>position\<close> and \<open>set_position\<close> are the field
  and its update. The crate implements \<open>Buf\<close> for it by moving the position, which the code relies
  on when it reads the length of a packet off the position.
\<close>

record cursor =
  cur_bytes :: "u8 list"
  cur_pos :: nat

definition cursor_new :: "u8 list \<Rightarrow> cursor" where
  "cursor_new bs = \<lparr>cur_bytes = bs, cur_pos = 0\<rparr>"

definition cursor_view :: "cursor \<Rightarrow> u8 list" where
  "cursor_view c = drop (cur_pos c) (cur_bytes c)"

lemma cursor_view_new [simp]: "cursor_view (cursor_new bs) = bs"
  by (simp add: cursor_view_def cursor_new_def)

locale cursor_impl = buf_impl C cursor_view
  for C :: "cursor buf" +
  assumes advance_moves: "advance C n c = Some c' \<Longrightarrow> c' = c\<lparr>cur_pos := cur_pos c + n\<rparr>"
    and u16_moves: "get_u16_le C c = Some (w, c') \<Longrightarrow> c' = c\<lparr>cur_pos := cur_pos c + 2\<rparr>"

definition cursor_read :: "(u8 list \<Rightarrow> 'a) \<Rightarrow> nat \<Rightarrow> cursor \<Rightarrow> ('a \<times> cursor) option" where
  "cursor_read f n c =
     (if n \<le> length (cur_bytes c) - cur_pos c
      then Some (f (take n (cursor_view c)), c\<lparr>cur_pos := cur_pos c + n\<rparr>) else None)"

definition cursor_buf :: "cursor buf" where
  "cursor_buf = \<lparr>
     remaining = (\<lambda>c. length (cur_bytes c) - cur_pos c),
     advance = (\<lambda>n c. map_option snd (cursor_read (\<lambda>_. ()) n c)),
     copy_to_slice = cursor_read (\<lambda>bs. bs),
     copy_to_bytes = cursor_read (\<lambda>bs. bs),
     get_u8 = cursor_read le_word 1,
     get_i8 = cursor_read le_word 1,
     get_u16_le = cursor_read le_word 2,
     get_u32_le = cursor_read le_word 4,
     get_i32_le = cursor_read le_word 4,
     get_f32_le = cursor_read le_word 4 \<rparr>"

lemma cursor_read_view:
  "map_option (apsnd cursor_view) (cursor_read f n c) = map_option (apfst f) (split_at n (cursor_view c))"
  by (simp add: cursor_read_def cursor_view_def split_at_def ac_simps)

interpretation cursor_reader: cursor_impl cursor_buf
proof unfold_locales
  fix n and r :: cursor
  show "map_option cursor_view (advance cursor_buf n r) =
      (if n \<le> length (cursor_view r) then Some (drop n (cursor_view r)) else None)"
    by (simp add: cursor_buf_def cursor_read_def cursor_view_def ac_simps)
qed (auto simp: cursor_buf_def cursor_read_view read_le_def cursor_view_def cursor_read_def split_at_def
       add.commute split: if_splits)

section \<open>Writing: the trait BufMut\<close>

record 'w bufmut =
  remaining_mut :: "'w \<Rightarrow> nat"
  put_slice :: "u8 list \<Rightarrow> 'w \<Rightarrow> 'w option"
  put_u8 :: "u8 \<Rightarrow> 'w \<Rightarrow> 'w option"
  put_i8 :: "i8 \<Rightarrow> 'w \<Rightarrow> 'w option"
  put_u16_le :: "u16 \<Rightarrow> 'w \<Rightarrow> 'w option"
  put_u32_le :: "u32 \<Rightarrow> 'w \<Rightarrow> 'w option"
  put_i32_le :: "i32 \<Rightarrow> 'w \<Rightarrow> 'w option"
  put_f32_le :: "f32 \<Rightarrow> 'w \<Rightarrow> 'w option"

text \<open>
  A writer is seen as the bytes written so far and the room left. An operation appends its bytes
  or, where the room is too small, panics.
\<close>

type_synonym page = "u8 list \<times> nat"

definition page_put :: "u8 list \<Rightarrow> page \<Rightarrow> page option" where
  "page_put bs pg = (if length bs \<le> snd pg then Some (fst pg @ bs, snd pg - length bs) else None)"

definition page_bufmut :: "page bufmut" where
  "page_bufmut = \<lparr>
     remaining_mut = snd,
     put_slice = page_put,
     put_u8 = (\<lambda>b. page_put (le_bytes 1 b)),
     put_i8 = (\<lambda>b. page_put (le_bytes 1 b)),
     put_u16_le = (\<lambda>w. page_put (le_bytes 2 w)),
     put_u32_le = (\<lambda>w. page_put (le_bytes 4 w)),
     put_i32_le = (\<lambda>w. page_put (le_bytes 4 w)),
     put_f32_le = (\<lambda>w. page_put (le_bytes 4 w)) \<rparr>"

lemma page_bufmut_ops [simp]:
  "remaining_mut page_bufmut = snd"
  "put_slice page_bufmut = page_put"
  "put_u8 page_bufmut b = page_put (le_bytes 1 b)"
  "put_i8 page_bufmut b = page_put (le_bytes 1 b)"
  "put_u16_le page_bufmut w = page_put (le_bytes 2 w)"
  "put_u32_le page_bufmut v = page_put (le_bytes 4 v)"
  "put_i32_le page_bufmut v = page_put (le_bytes 4 v)"
  "put_f32_le page_bufmut v = page_put (le_bytes 4 v)"
  by (simp_all add: page_bufmut_def)

definition page_of :: "'w bufmut \<Rightarrow> ('w \<Rightarrow> u8 list) \<Rightarrow> 'w \<Rightarrow> page" where
  "page_of W mview w = (mview w, remaining_mut W w)"

locale bufmut_impl =
  fixes W :: "'w bufmut" and mview :: "'w \<Rightarrow> u8 list"
  assumes put_slice_law: "map_option (page_of W mview) (put_slice W bs w) =
            page_put bs (page_of W mview w)"
    and put_u8_law: "map_option (page_of W mview) (put_u8 W b w) =
            page_put (le_bytes 1 b) (page_of W mview w)"
    and put_i8_law: "map_option (page_of W mview) (put_i8 W b w) =
            page_put (le_bytes 1 b) (page_of W mview w)"
    and put_u16_law: "map_option (page_of W mview) (put_u16_le W x w) =
            page_put (le_bytes 2 x) (page_of W mview w)"
    and put_u32_law: "map_option (page_of W mview) (put_u32_le W y w) =
            page_put (le_bytes 4 y) (page_of W mview w)"
    and put_i32_law: "map_option (page_of W mview) (put_i32_le W y w) =
            page_put (le_bytes 4 y) (page_of W mview w)"
    and put_f32_law: "map_option (page_of W mview) (put_f32_le W y w) =
            page_put (le_bytes 4 y) (page_of W mview w)"

context bufmut_impl
begin

lemma sim_put_slice: "sim (page_of W mview) (primu (put_slice W bs)) (primu (put_slice page_bufmut bs))"
  by (rule sim_primu) (simp add: put_slice_law)

lemma sim_put_u8: "sim (page_of W mview) (primu (put_u8 W b)) (primu (put_u8 page_bufmut b))"
  by (rule sim_primu) (simp add: put_u8_law)

lemma sim_put_i8: "sim (page_of W mview) (primu (put_i8 W b)) (primu (put_i8 page_bufmut b))"
  by (rule sim_primu) (simp add: put_i8_law)

lemma sim_put_u16: "sim (page_of W mview) (primu (put_u16_le W x)) (primu (put_u16_le page_bufmut x))"
  by (rule sim_primu) (simp add: put_u16_law)

lemma sim_put_u32: "sim (page_of W mview) (primu (put_u32_le W y)) (primu (put_u32_le page_bufmut y))"
  by (rule sim_primu) (simp add: put_u32_law)

lemma sim_put_i32: "sim (page_of W mview) (primu (put_i32_le W y)) (primu (put_i32_le page_bufmut y))"
  by (rule sim_primu) (simp add: put_i32_law)

lemma sim_put_f32: "sim (page_of W mview) (primu (put_f32_le W y)) (primu (put_f32_le page_bufmut y))"
  by (rule sim_primu) (simp add: put_f32_law)

lemmas writer_sims =
  sim_put_slice sim_put_u8 sim_put_i8 sim_put_u16 sim_put_u32 sim_put_i32 sim_put_f32

end

section \<open>Growable buffers: BytesMut\<close>

text \<open>
  A \<open>BytesMut\<close> is read from the front and written at the back; it grows up to \<open>usize::MAX\<close> bytes.
  The crate's part of a connection is the \<open>Buf\<close> of cursors and both traits of \<open>BytesMut\<close>.
\<close>

record 'b bytes_crate =
  bc_cursor :: "cursor buf"
  bc_get :: "'b buf"
  bc_put :: "'b bufmut"
  bc_slice :: "'b \<Rightarrow> u8 list"
  bc_with_capacity :: "nat \<Rightarrow> 'b"

definition usize_max :: nat where
  "usize_max = 2 ^ 64 - 1"

locale bytes_impl =
  cur: cursor_impl "bc_cursor K" +
  get: buf_impl "bc_get K" "bc_slice K" +
  put: bufmut_impl "bc_put K" "bc_slice K"
  for K :: "'b bytes_crate" +
  assumes with_capacity_law: "bc_slice K (bc_with_capacity K n) = []"
    and room_law: "remaining_mut (bc_put K) b = usize_max - length (bc_slice K b)"

text \<open>\<open>BytesMut\<close> as its contents.\<close>

definition bytes_mut_put :: "u8 list \<Rightarrow> u8 list \<Rightarrow> u8 list option" where
  "bytes_mut_put bs b = (if length bs \<le> usize_max - length b then Some (b @ bs) else None)"

definition bytes_mut :: "u8 list bufmut" where
  "bytes_mut = \<lparr>
     remaining_mut = (\<lambda>b. usize_max - length b),
     put_slice = bytes_mut_put,
     put_u8 = (\<lambda>b. bytes_mut_put (le_bytes 1 b)),
     put_i8 = (\<lambda>b. bytes_mut_put (le_bytes 1 b)),
     put_u16_le = (\<lambda>w. bytes_mut_put (le_bytes 2 w)),
     put_u32_le = (\<lambda>w. bytes_mut_put (le_bytes 4 w)),
     put_i32_le = (\<lambda>w. bytes_mut_put (le_bytes 4 w)),
     put_f32_le = (\<lambda>w. bytes_mut_put (le_bytes 4 w)) \<rparr>"

lemma bytes_mut_ops [simp]:
  "remaining_mut bytes_mut b = usize_max - length b"
  "put_slice bytes_mut = bytes_mut_put"
  "put_u8 bytes_mut x = bytes_mut_put (le_bytes 1 x)"
  "put_i8 bytes_mut x = bytes_mut_put (le_bytes 1 x)"
  "put_u16_le bytes_mut w = bytes_mut_put (le_bytes 2 w)"
  "put_u32_le bytes_mut v = bytes_mut_put (le_bytes 4 v)"
  "put_i32_le bytes_mut v = bytes_mut_put (le_bytes 4 v)"
  "put_f32_le bytes_mut v = bytes_mut_put (le_bytes 4 v)"
  by (simp_all add: bytes_mut_def)

definition bytes_list :: "u8 list bytes_crate" where
  "bytes_list = \<lparr>
     bc_cursor = cursor_buf,
     bc_get = list_buf,
     bc_put = bytes_mut,
     bc_slice = (\<lambda>b. b),
     bc_with_capacity = (\<lambda>_. []) \<rparr>"

lemma bytes_list_ops [simp]:
  "bc_cursor bytes_list = cursor_buf"
  "bc_get bytes_list = list_buf"
  "bc_put bytes_list = bytes_mut"
  "bc_slice bytes_list b = b"
  "bc_with_capacity bytes_list n = []"
  by (simp_all add: bytes_list_def)

lemma bytes_mut_put_page:
  "map_option (page_of bytes_mut (\<lambda>b. b)) (bytes_mut_put bs b) =
     page_put bs (page_of bytes_mut (\<lambda>b. b) b)"
  by (auto simp: bytes_mut_put_def page_put_def page_of_def)

interpretation bytes_mut_writer: bufmut_impl bytes_mut "\<lambda>b. b"
  by unfold_locales (simp_all add: bytes_mut_put_page)

interpretation bytes_list_crate: bytes_impl bytes_list
proof -
  have "cursor_impl (bc_cursor bytes_list)"
    by (simp add: bytes_list_def cursor_reader.cursor_impl_axioms)
  moreover have "buf_impl (bc_get bytes_list) (bc_slice bytes_list)"
    by (simp add: bytes_list_def list_reader.buf_impl_axioms)
  moreover have "bufmut_impl (bc_put bytes_list) (bc_slice bytes_list)"
    by (simp add: bytes_list_def bytes_mut_writer.bufmut_impl_axioms)
  moreover have "bytes_impl_axioms bytes_list"
    by (simp add: bytes_impl_axioms_def bytes_list_def bytes_mut_def)
  ultimately show "bytes_impl bytes_list" by (rule bytes_impl.intro)
qed

end
