(* ===== verification/WireTypes.thy ===== *)
theory WireTypes
  imports BufTraits
begin

text \<open>
  The value types of \<open>src/types/\<close> and \<open>src/guid.rs\<close>, the codec traits of \<open>src/net/encoding.rs\<close>
  and the errors of \<open>src/types/errors.rs\<close>.

  An error's payload that is only printed (the \<open>Utf8Error\<close>, the \<open>io::Error\<close>, ...) is left out. The
  fields of \<open>nalgebra\<close>'s vector and quaternion that the code reads and writes are the fields of
  the records here.
\<close>

section \<open>Errors\<close>

datatype encoding_error =
    NotEnoughData
  | BadUtf8
  | IntConversion
  | HexConversion
  | ConnectionReset
  | ConnectionClose
  | CustomError

datatype client_init_error =
    TooManyPlayers
  | BannedIP
  | BannedID
  | BadHandshake

section \<open>Guid\<close>

record guid =
  guid_id :: "u8 list"

text \<open>The invariant of \<open>[u8; 16]\<close>.\<close>

definition wf_guid :: "guid \<Rightarrow> bool" where
  "wf_guid g \<longleftrightarrow> length (guid_id g) = 16"

definition guid_from :: "u8 list \<Rightarrow> guid" where
  "guid_from bs = \<lparr>guid_id = bs\<rparr>"

text \<open>\<open>#[derive(Default)]\<close>: sixteen zero bytes.\<close>

definition guid_default :: guid where
  "guid_default = guid_from (replicate 16 0)"

lemma wf_guid_default [simp]: "wf_guid guid_default"
  by (simp add: wf_guid_def guid_default_def guid_from_def)

text \<open>
  \<open>FromStr\<close>: the crate \<open>hex\<close> reads the array, its error becomes \<open>HexConversion\<close>.
\<close>

definition guid_from_str :: "(string \<Rightarrow> u8 list option) \<Rightarrow> string \<Rightarrow> (guid, encoding_error) res" where
  "guid_from_str from_hex s =
     (case from_hex s of None \<Rightarrow> Err HexConversion | Some bs \<Rightarrow> Ok (guid_from bs))"

text \<open>The format \<open>{:x}\<close> of a byte: lower-case hexadecimal, no leading zero.\<close>

definition hex_digit :: "nat \<Rightarrow> char" where
  "hex_digit n = ''0123456789abcdef'' ! n"

definition lower_hex :: "u8 \<Rightarrow> string" where
  "lower_hex b =
     (if b < 16 then [hex_digit (unat b)] else [hex_digit (unat b div 16), hex_digit (unat b mod 16)])"

fun guid_fmt :: "nat \<Rightarrow> u8 list \<Rightarrow> string" where
  "guid_fmt i [] = ''''"
| "guid_fmt i (digit # ds) =
     lower_hex digit @ (if i = 4 \<or> i = 6 \<or> i = 8 \<or> i = 10 then ''-'' else '''') @ guid_fmt (Suc i) ds"

definition guid_display :: "guid \<Rightarrow> string" where
  "guid_display g = guid_fmt 0 (guid_id g)"

text \<open>\<open>SMOError\<close>; the conversions \<open>#[from]\<close> are its constructors.\<close>

datatype smo_error =
    InvalidID guid
  | Encoding encoding_error
  | Io
  | Clap
  | SendChannel
  | RecvChannel
  | ThreadJoin
  | ClientInit client_init_error
  | JsonError
  | UdpNotInit

section \<open>The codec traits\<close>

type_synonym ('a, 'r) decoder = "('a, encoding_error, 'r) prog"

type_synonym ('a, 'w) encoder = "'a \<Rightarrow> (unit, encoding_error, 'w) prog"

section \<open>Vector3 and Quaternion\<close>

record vector3 =
  vec_x :: f32
  vec_y :: f32
  vec_z :: f32

record quaternion =
  quat_w :: f32
  quat_i :: f32
  quat_j :: f32
  quat_k :: f32

definition decode_vector3 :: "'r buf \<Rightarrow> (vector3, 'r) decoder" where
  "decode_vector3 B =
     bindp (prim (get_f32_le B)) (\<lambda>x.
     bindp (prim (get_f32_le B)) (\<lambda>y.
     bindp (prim (get_f32_le B)) (\<lambda>z.
     ret \<lparr>vec_x = x, vec_y = y, vec_z = z\<rparr>)))"

definition encode_vector3 :: "'w bufmut \<Rightarrow> (vector3, 'w) encoder" where
  "encode_vector3 W v =
     bindp (primu (put_f32_le W (vec_x v))) (\<lambda>_.
     bindp (primu (put_f32_le W (vec_y v))) (\<lambda>_.
     bindp (primu (put_f32_le W (vec_z v))) (\<lambda>_.
     ret ())))"

text \<open>\<open>Quaternion::new\<close> takes its arguments in the order w, i, j, k.\<close>

definition decode_quaternion :: "'r buf \<Rightarrow> (quaternion, 'r) decoder" where
  "decode_quaternion B =
     bindp (prim (get_f32_le B)) (\<lambda>w.
     bindp (prim (get_f32_le B)) (\<lambda>i.
     bindp (prim (get_f32_le B)) (\<lambda>j.
     bindp (prim (get_f32_le B)) (\<lambda>k.
     ret \<lparr>quat_w = w, quat_i = i, quat_j = j, quat_k = k\<rparr>))))"

definition encode_quaternion :: "'w bufmut \<Rightarrow> (quaternion, 'w) encoder" where
  "encode_quaternion W q =
     bindp (primu (put_f32_le W (quat_w q))) (\<lambda>_.
     bindp (primu (put_f32_le W (quat_i q))) (\<lambda>_.
     bindp (primu (put_f32_le W (quat_j q))) (\<lambda>_.
     bindp (primu (put_f32_le W (quat_k q))) (\<lambda>_.
     ret ()))))"

section \<open>Costume\<close>

record costume =
  body_name :: rstring
  cap_name :: rstring

definition costume_default :: costume where
  "costume_default = \<lparr>body_name = str_lit ''Mario'', cap_name = str_lit ''Mario''\<rparr>"

section \<open>The bytes of a vector and a quaternion\<close>

definition vector3_bytes :: "vector3 \<Rightarrow> u8 list" where
  "vector3_bytes v = le_bytes 4 (vec_x v) @ le_bytes 4 (vec_y v) @ le_bytes 4 (vec_z v)"

definition quaternion_bytes :: "quaternion \<Rightarrow> u8 list" where
  "quaternion_bytes q =
     le_bytes 4 (quat_w q) @ le_bytes 4 (quat_i q) @ le_bytes 4 (quat_j q) @ le_bytes 4 (quat_k q)"

lemma length_vector3_bytes [simp]: "length (vector3_bytes v) = 12"
  by (simp add: vector3_bytes_def)

lemma length_quaternion_bytes [simp]: "length (quaternion_bytes q) = 16"
  by (simp add: quaternion_bytes_def)

text \<open>Reading an exact prefix: the programs consume the bytes of the value and nothing else.\<close>

lemma decode_vector3_bytes [simp]:
  "decode_vector3 list_buf (vector3_bytes v @ rest) = (Ok v, rest)"
  by (simp add: decode_vector3_def vector3_bytes_def)

lemma decode_quaternion_bytes [simp]:
  "decode_quaternion list_buf (quaternion_bytes q @ rest) = (Ok q, rest)"
  by (simp add: decode_quaternion_def quaternion_bytes_def)

text \<open>Writing with enough room appends exactly these bytes.\<close>

lemma page_put_room [simp]:
  "length bs \<le> room \<Longrightarrow> page_put bs (out, room) = Some (out @ bs, room - length bs)"
  by (simp add: page_put_def)

lemma encode_vector3_bytes [simp]:
  "12 \<le> room \<Longrightarrow> encode_vector3 page_bufmut v (out, room) = (Ok (), out @ vector3_bytes v, room - 12)"
  by (simp add: encode_vector3_def vector3_bytes_def)

lemma encode_quaternion_bytes [simp]:
  "16 \<le> room \<Longrightarrow>
   encode_quaternion page_bufmut q (out, room) = (Ok (), out @ quaternion_bytes q, room - 16)"
  by (simp add: encode_quaternion_def quaternion_bytes_def)

text \<open>Both are generic in the buffer.\<close>

context buf_impl
begin

lemma sim_decode_vector3: "sim view (decode_vector3 B) (decode_vector3 list_buf)"
  unfolding decode_vector3_def by (intro sim_bindp reader_sims sim_ret)

lemma sim_decode_quaternion: "sim view (decode_quaternion B) (decode_quaternion list_buf)"
  unfolding decode_quaternion_def by (intro sim_bindp reader_sims sim_ret)

end

context bufmut_impl
begin

lemma sim_encode_vector3:
  "sim (page_of W mview) (encode_vector3 W v) (encode_vector3 page_bufmut v)"
  unfolding encode_vector3_def by (intro sim_bindp writer_sims sim_ret)

lemma sim_encode_quaternion:
  "sim (page_of W mview) (encode_quaternion W q) (encode_quaternion page_bufmut q)"
  unfolding encode_quaternion_def by (intro sim_bindp writer_sims sim_ret)

end

end
