(* ===== verification/Packet.thy ===== *)
theory Packet
  imports WireTypes
begin

text \<open>
  The wire format, \<open>src/net/packet.rs\<close>: the packet types, their sizes and tags, the decoder, the
  encoder, the completeness check and the test generator. The codec is generic in the buffer, so
  each definition takes the dictionary of the trait. \<open>Packet_Codec\<close> proves it correct.
\<close>

section \<open>Sizes\<close>

definition MAX_PACKET_SIZE :: nat where "MAX_PACKET_SIZE = 300"
definition COSTUME_NAME_SIZE :: nat where "COSTUME_NAME_SIZE = 0x20"
definition CAP_ANIM_SIZE :: nat where "CAP_ANIM_SIZE = 0x30"
definition STAGE_GAME_NAME_SIZE :: nat where "STAGE_GAME_NAME_SIZE = 0x40"
definition STAGE_CHANGE_NAME_SIZE :: nat where "STAGE_CHANGE_NAME_SIZE = 0x30"
definition STAGE_ID_SIZE :: nat where "STAGE_ID_SIZE = 0x10"
definition CLIENT_NAME_SIZE :: nat where "CLIENT_NAME_SIZE = COSTUME_NAME_SIZE"

lemmas field_sizes =
  COSTUME_NAME_SIZE_def CAP_ANIM_SIZE_def STAGE_GAME_NAME_SIZE_def
  STAGE_CHANGE_NAME_SIZE_def STAGE_ID_SIZE_def CLIENT_NAME_SIZE_def

section \<open>Packets\<close>

datatype connection_type = FirstConnection | Reconnecting

datatype tag_update = Time | State

datatype packet_data =
    Unhandled u16 "u8 list"
  | Init u16
  | Player vector3 quaternion "f32 list" u16 u16
  | Cap vector3 quaternion bool rstring
  | Game bool u8 rstring
  | Tag tag_update bool u8 u16
  | Connect connection_type u16 rstring
  | Disconnect
  | Costume costume
  | Shine i32 bool
  | Capture rstring
  | ChangeStage rstring rstring i8 u8
  | CommandPacket
  | UdpInit u16
  | HolePunch

record packet =
  pkt_id :: guid
  data_size :: u16
  pkt_data :: packet_data

fun get_size :: "packet_data \<Rightarrow> nat" where
  "get_size (Unhandled tag bs) = length bs"
| "get_size (Init max_players) = 2"
| "get_size (Player pos rot weights act sub_act) = 0x38"
| "get_size (Cap pos rot cap_out cap_anim) = 29 + CAP_ANIM_SIZE"
| "get_size (Game is_2d scenario_num stage) = 2 + STAGE_GAME_NAME_SIZE"
| "get_size (Tag update_type is_it seconds minutes) = 5"
| "get_size (Connect c_type max_player client_name) = 6 + CLIENT_NAME_SIZE"
| "get_size Disconnect = 0"
| "get_size (Costume c) = COSTUME_NAME_SIZE * 2"
| "get_size (Shine shine_id is_grand) = 5"
| "get_size (Capture model) = COSTUME_NAME_SIZE"
| "get_size (ChangeStage stage id' scenerio sub_scenario) = STAGE_ID_SIZE + STAGE_CHANGE_NAME_SIZE + 2"
| "get_size CommandPacket = 0"
| "get_size (UdpInit port) = 2"
| "get_size HolePunch = 0"

fun get_type_id :: "packet_data \<Rightarrow> u16" where
  "get_type_id (Unhandled tag bs) = tag"
| "get_type_id (Init max_players) = 1"
| "get_type_id (Player pos rot weights act sub_act) = 2"
| "get_type_id (Cap pos rot cap_out cap_anim) = 3"
| "get_type_id (Game is_2d scenario_num stage) = 4"
| "get_type_id (Tag update_type is_it seconds minutes) = 5"
| "get_type_id (Connect c_type max_player client_name) = 6"
| "get_type_id Disconnect = 7"
| "get_type_id (Costume c) = 8"
| "get_type_id (Shine shine_id is_grand) = 9"
| "get_type_id (Capture model) = 10"
| "get_type_id (ChangeStage stage id' scenerio sub_scenario) = 11"
| "get_type_id CommandPacket = 12"
| "get_type_id (UdpInit port) = 13"
| "get_type_id HolePunch = 14"

fun get_type_name :: "packet_data \<Rightarrow> string" where
  "get_type_name (Unhandled tag bs) = ''unhandled''"
| "get_type_name (Init max_players) = ''init''"
| "get_type_name (Player pos rot weights act sub_act) = ''player''"
| "get_type_name (Cap pos rot cap_out cap_anim) = ''cap''"
| "get_type_name (Game is_2d scenario_num stage) = ''game''"
| "get_type_name (Tag update_type is_it seconds minutes) = ''tag''"
| "get_type_name (Connect c_type max_player client_name) = ''connect''"
| "get_type_name Disconnect = ''disconnect''"
| "get_type_name (Costume c) = ''costume''"
| "get_type_name (Shine shine_id is_grand) = ''shine''"
| "get_type_name (Capture model) = ''capture''"
| "get_type_name (ChangeStage stage id' scenerio sub_scenario) = ''changeStage''"
| "get_type_name CommandPacket = ''command''"
| "get_type_name (UdpInit port) = ''udpInit''"
| "get_type_name HolePunch = ''holePunch''"

text \<open>\<open>Packet::new\<close> panics where the size does not fit; \<open>resize\<close> casts with \<open>as u16\<close>.\<close>

definition packet_new :: "guid \<Rightarrow> packet_data \<Rightarrow> (packet, 'e) res" where
  "packet_new g d =
     (if get_size d < 2 ^ 16
      then Ok \<lparr>pkt_id = g, data_size = word_of_nat (get_size d), pkt_data = d\<rparr>
      else Panic)"

definition resize :: "packet \<Rightarrow> packet" where
  "resize p = p\<lparr>data_size := word_of_nat (get_size (pkt_data p))\<rparr>"

text \<open>
  \<open>Packet::check\<close>: whether a whole packet is in the buffer, and if so how long it is. The cursor
  is left behind the packet.
\<close>

definition packet_check :: "cursor buf \<Rightarrow> (nat, cursor) decoder" where
  "packet_check C =
     (let header_size = 16 + 2 in
     bindp (gets cur_pos) (\<lambda>start_pos.
     bindp (gets (remaining C)) (\<lambda>n.
     if n < header_size + 2 then throw NotEnoughData else
     bindp (primu (advance C header_size)) (\<lambda>_.
     bindp (prim (get_u16_le C)) (\<lambda>size.
     bindp (gets (remaining C)) (\<lambda>m.
     if m < unat size then throw NotEnoughData else
     bindp (primu (advance C (unat size))) (\<lambda>_.
     bindp (gets cur_pos) (\<lambda>pos.
     ret (pos - start_pos)))))))))"

section \<open>Decoding\<close>

text \<open>\<open>std::str::from_utf8\<close>, with its error converted.\<close>

definition from_utf8 :: "u8 list \<Rightarrow> (rstring, 'r) decoder" where
  "from_utf8 bs = (if utf8_valid bs then ret bs else throw BadUtf8)"

definition buf_size_to_string :: "'r buf \<Rightarrow> nat \<Rightarrow> (rstring, 'r) decoder" where
  "buf_size_to_string B size' =
     bindp (prim (copy_to_bytes B size')) (\<lambda>bs.
     bindp (from_utf8 bs) (\<lambda>s.
     ret (trim_nul s)))"

text \<open>The loop \<open>for weight in &mut weights\<close>.\<close>

fun get_weights :: "'r buf \<Rightarrow> nat \<Rightarrow> (f32 list, 'r) decoder" where
  "get_weights B 0 = ret []"
| "get_weights B (Suc n) =
     bindp (prim (get_f32_le B)) (\<lambda>w. bindp (get_weights B n) (\<lambda>ws. ret (w # ws)))"

definition decode_player :: "'r buf \<Rightarrow> (packet_data, 'r) decoder" where
  "decode_player B =
     bindp (decode_vector3 B) (\<lambda>pos.
     bindp (decode_quaternion B) (\<lambda>rot.
     bindp (get_weights B 6) (\<lambda>weights.
     bindp (prim (get_u16_le B)) (\<lambda>act.
     bindp (prim (get_u16_le B)) (\<lambda>sub_act.
     ret (Player pos rot weights act sub_act))))))"

definition decode_cap :: "'r buf \<Rightarrow> (packet_data, 'r) decoder" where
  "decode_cap B =
     bindp (decode_vector3 B) (\<lambda>pos.
     bindp (decode_quaternion B) (\<lambda>rot.
     bindp (prim (get_u8 B)) (\<lambda>cap_out.
     bindp (prim (copy_to_bytes B COSTUME_NAME_SIZE)) (\<lambda>bs.
     bindp (from_utf8 bs) (\<lambda>cap_anim.
     ret (Cap pos rot (cap_out \<noteq> 0) cap_anim))))))"

definition decode_game :: "'r buf \<Rightarrow> (packet_data, 'r) decoder" where
  "decode_game B =
     bindp (prim (get_u8 B)) (\<lambda>is_2d.
     bindp (prim (get_u8 B)) (\<lambda>scenario_num.
     bindp (buf_size_to_string B STAGE_GAME_NAME_SIZE) (\<lambda>stage.
     ret (Game (is_2d \<noteq> 0) scenario_num stage))))"

definition decode_tag :: "'r buf \<Rightarrow> (packet_data, 'r) decoder" where
  "decode_tag B =
     bindp (prim (get_u8 B)) (\<lambda>update_type.
     bindp (prim (get_u8 B)) (\<lambda>is_it.
     bindp (prim (get_u8 B)) (\<lambda>seconds.
     bindp (prim (get_u16_le B)) (\<lambda>minutes.
     ret (Tag (if update_type = 1 then Time else State) (is_it \<noteq> 0) seconds minutes)))))"

definition decode_connect :: "'r buf \<Rightarrow> (packet_data, 'r) decoder" where
  "decode_connect B =
     bindp (prim (get_u32_le B)) (\<lambda>c_type.
     bindp (prim (get_u16_le B)) (\<lambda>max_player.
     bindp (buf_size_to_string B CLIENT_NAME_SIZE) (\<lambda>client_name.
     ret (Connect (if c_type = 0 then FirstConnection else Reconnecting) max_player client_name))))"

definition decode_costume :: "'r buf \<Rightarrow> (packet_data, 'r) decoder" where
  "decode_costume B =
     bindp (buf_size_to_string B COSTUME_NAME_SIZE) (\<lambda>body.
     bindp (buf_size_to_string B COSTUME_NAME_SIZE) (\<lambda>cap.
     ret (Costume \<lparr>body_name = body, cap_name = cap\<rparr>)))"

definition decode_shine :: "'r buf \<Rightarrow> (packet_data, 'r) decoder" where
  "decode_shine B =
     bindp (prim (get_i32_le B)) (\<lambda>shine_id.
     bindp (prim (get_u8 B)) (\<lambda>is_grand.
     ret (Shine shine_id (is_grand \<noteq> 0))))"

definition decode_change_stage :: "'r buf \<Rightarrow> (packet_data, 'r) decoder" where
  "decode_change_stage B =
     bindp (buf_size_to_string B STAGE_CHANGE_NAME_SIZE) (\<lambda>stage.
     bindp (buf_size_to_string B STAGE_ID_SIZE) (\<lambda>id'.
     bindp (prim (get_i8 B)) (\<lambda>scenerio.
     bindp (prim (get_u8 B)) (\<lambda>sub_scenario.
     ret (ChangeStage stage id' scenerio sub_scenario)))))"

text \<open>The \<open>match\<close> on the packet type; 14 (hole punch) has no arm and falls to the last.\<close>

definition decode_data :: "'r buf \<Rightarrow> u16 \<Rightarrow> u16 \<Rightarrow> (packet_data, 'r) decoder" where
  "decode_data B p_type p_size =
     (if p_type = 1 then bindp (prim (get_u16_le B)) (\<lambda>max_players. ret (Init max_players))
      else if p_type = 2 then decode_player B
      else if p_type = 3 then decode_cap B
      else if p_type = 4 then decode_game B
      else if p_type = 5 then decode_tag B
      else if p_type = 6 then decode_connect B
      else if p_type = 7 then ret Disconnect
      else if p_type = 8 then decode_costume B
      else if p_type = 9 then decode_shine B
      else if p_type = 10 then
        bindp (buf_size_to_string B COSTUME_NAME_SIZE) (\<lambda>model. ret (Capture model))
      else if p_type = 11 then decode_change_stage B
      else if p_type = 12 then ret CommandPacket
      else if p_type = 13 then bindp (prim (get_u16_le B)) (\<lambda>port. ret (UdpInit port))
      else bindp (prim (copy_to_bytes B (unat p_size))) (\<lambda>bs. ret (Unhandled p_type bs)))"

text \<open>
  \<open>let excess_padding = p_size as usize - data.get_size()\<close>: in the release build the subtraction
  wraps at 64 bits and the \<open>advance\<close> that follows panics; in a debug build the subtraction itself
  panics.
\<close>

definition skip_padding :: "'r buf \<Rightarrow> u16 \<Rightarrow> packet_data \<Rightarrow> (unit, 'r) decoder" where
  "skip_padding B p_size d =
     (let excess_padding = (ucast p_size :: usize) - word_of_nat (get_size d)
      in if 0 < excess_padding then primu (advance B (unat excess_padding)) else ret ())"

definition decode_packet :: "'r buf \<Rightarrow> (packet, 'r) decoder" where
  "decode_packet B =
     bindp (gets (remaining B)) (\<lambda>n.
     if n < 16 + 2 + 2 then throw NotEnoughData else
     bindp (prim (copy_to_slice B 16)) (\<lambda>id'.
     bindp (prim (get_u16_le B)) (\<lambda>p_type.
     bindp (prim (get_u16_le B)) (\<lambda>p_size.
     bindp (gets (remaining B)) (\<lambda>m.
     if m < unat p_size then throw NotEnoughData else
     bindp (decode_data B p_type p_size) (\<lambda>d.
     bindp (skip_padding B p_size d) (\<lambda>_.
     ret \<lparr>pkt_id = guid_from id', data_size = p_size, pkt_data = d\<rparr>)))))))"

section \<open>Encoding\<close>

text \<open>\<open>str_to_sized_array\<close>: the loop stores the bytes of the string over an array of zeros.\<close>

fun store_over :: "u8 list \<Rightarrow> u8 list \<Rightarrow> u8 list" where
  "store_over (b # bs) (c # cs) = c # store_over bs cs"
| "store_over bs [] = bs"
| "store_over [] (c # cs) = []"

definition str_to_sized_array :: "nat \<Rightarrow> rstring \<Rightarrow> u8 list" where
  "str_to_sized_array n s = store_over (replicate n 0) s"

definition bool_u8 :: "bool \<Rightarrow> u8" where
  "bool_u8 b = (if b then 1 else 0)"

fun put_weights :: "'w bufmut \<Rightarrow> (f32 list, 'w) encoder" where
  "put_weights W [] = ret ()"
| "put_weights W (w # ws) = bindp (primu (put_f32_le W w)) (\<lambda>_. put_weights W ws)"

fun encode_data :: "'w bufmut \<Rightarrow> (packet_data, 'w) encoder" where
  "encode_data W (Unhandled tag bs) = primu (put_slice W bs)"
| "encode_data W (Init max_players) = primu (put_u16_le W max_players)"
| "encode_data W (Player pos rot weights act sub_act) =
     bindp (encode_vector3 W pos) (\<lambda>_.
     bindp (encode_quaternion W rot) (\<lambda>_.
     bindp (put_weights W weights) (\<lambda>_.
     bindp (primu (put_u16_le W act)) (\<lambda>_.
     primu (put_u16_le W sub_act)))))"
| "encode_data W (Cap pos rot cap_out cap_anim) =
     bindp (encode_vector3 W pos) (\<lambda>_.
     bindp (encode_quaternion W rot) (\<lambda>_.
     bindp (primu (put_u8 W (bool_u8 cap_out))) (\<lambda>_.
     primu (put_slice W (str_to_sized_array CAP_ANIM_SIZE cap_anim)))))"
| "encode_data W (Game is_2d scenario_num stage) =
     bindp (primu (put_u8 W (bool_u8 is_2d))) (\<lambda>_.
     bindp (primu (put_u8 W scenario_num)) (\<lambda>_.
     primu (put_slice W (str_to_sized_array STAGE_GAME_NAME_SIZE stage))))"
| "encode_data W (Tag update_type is_it seconds minutes) =
     bindp (primu (put_u8 W (case update_type of Time \<Rightarrow> 1 | State \<Rightarrow> 2))) (\<lambda>_.
     bindp (primu (put_u8 W (bool_u8 is_it))) (\<lambda>_.
     bindp (primu (put_u8 W seconds)) (\<lambda>_.
     primu (put_u16_le W minutes))))"
| "encode_data W (Connect c_type max_player client_name) =
     bindp (primu (put_u32_le W (case c_type of FirstConnection \<Rightarrow> 0 | Reconnecting \<Rightarrow> 1))) (\<lambda>_.
     bindp (primu (put_u16_le W max_player)) (\<lambda>_.
     primu (put_slice W (str_to_sized_array CLIENT_NAME_SIZE client_name))))"
| "encode_data W Disconnect = ret ()"
| "encode_data W (Costume c) =
     bindp (primu (put_slice W (str_to_sized_array COSTUME_NAME_SIZE (body_name c)))) (\<lambda>_.
     primu (put_slice W (str_to_sized_array COSTUME_NAME_SIZE (cap_name c))))"
| "encode_data W (Shine shine_id is_grand) =
     bindp (primu (put_i32_le W shine_id)) (\<lambda>_.
     primu (put_u8 W (bool_u8 is_grand)))"
| "encode_data W (Capture model) =
     primu (put_slice W (str_to_sized_array COSTUME_NAME_SIZE model))"
| "encode_data W (ChangeStage stage id' scenerio sub_scenario) =
     bindp (primu (put_slice W (str_to_sized_array STAGE_CHANGE_NAME_SIZE stage))) (\<lambda>_.
     bindp (primu (put_slice W (str_to_sized_array STAGE_ID_SIZE id'))) (\<lambda>_.
     bindp (primu (put_i8 W scenerio)) (\<lambda>_.
     primu (put_u8 W sub_scenario))))"
| "encode_data W CommandPacket = ret ()"
| "encode_data W (UdpInit port) = primu (put_u16_le W port)"
| "encode_data W HolePunch = ret ()"

definition encode_packet :: "'w bufmut \<Rightarrow> (packet, 'w) encoder" where
  "encode_packet W p =
     bindp (primu (put_slice W (guid_id (pkt_id p)))) (\<lambda>_.
     bindp (primu (put_u16_le W (get_type_id (pkt_data p)))) (\<lambda>_.
     bindp (primu (put_u16_le W (data_size p))) (\<lambda>_.
     bindp (encode_data W (pkt_data p)) (\<lambda>_.
     ret ()))))"

section \<open>The test generator\<close>

text \<open>
  \<open>impl Arbitrary for Packet\<close>. The random choices are its input: the type drawn from \<open>options\<close>, the
  sixteen id bytes and the stream of data bytes, which are reduced to ASCII.
\<close>

definition arbitrary_options :: "u16 list" where
  "arbitrary_options = [1, 2, 3, 4, 5, 6, 7, 8, 9, 10, 11, 12, 13]"

definition arbitrary_size :: "u16 \<Rightarrow> nat" where
  "arbitrary_size enum_num =
     (if enum_num = 1 then 2
      else if enum_num = 2 then 0x38
      else if enum_num = 3 then 0x50
      else if enum_num = 4 then 0x42
      else if enum_num = 5 then 6
      else if enum_num = 6 then 6 + CLIENT_NAME_SIZE + 2
      else if enum_num = 7 then 0
      else if enum_num = 8 then COSTUME_NAME_SIZE * 2
      else if enum_num = 9 then 4
      else if enum_num = 10 then COSTUME_NAME_SIZE
      else if enum_num = 11 then STAGE_ID_SIZE + STAGE_CHANGE_NAME_SIZE + 2
      else if enum_num = 12 then 0
      else if enum_num = 13 then 2
      else 0)"

definition arbitrary_bytes :: "u16 \<Rightarrow> (nat \<Rightarrow> u8) \<Rightarrow> (nat \<Rightarrow> u8) \<Rightarrow> u8 list" where
  "arbitrary_bytes enum_num ids draws =
     (let size' = arbitrary_size enum_num in
      map ids [0..<16] @ le_bytes 2 enum_num @ le_bytes 2 (word_of_nat size' :: u16) @
      map (\<lambda>i. draws i mod 128) [0..<size'])"

text \<open>The final \<open>unwrap\<close> turns an error into a panic.\<close>

definition arbitrary_packet ::
  "cursor buf \<Rightarrow> u16 \<Rightarrow> (nat \<Rightarrow> u8) \<Rightarrow> (nat \<Rightarrow> u8) \<Rightarrow> (packet, encoding_error) res" where
  "arbitrary_packet C enum_num ids draws =
     (case fst (decode_packet C (cursor_new (arbitrary_bytes enum_num ids draws))) of
        Ok p \<Rightarrow> Ok p | Err e \<Rightarrow> Panic | Panic \<Rightarrow> Panic)"

end
