(* ===== verification/Packet_Codec.thy ===== *)
theory Packet_Codec
  imports Packet
begin

text \<open>
  Correctness of the codec of \<open>Packet\<close>. \<open>packet_bytes\<close> is the wire format written as a function;
  \<open>wf_data\<close> is the type invariant of decoded packets. The lemmas give the encoder its format, the
  decoder its result on each arm, on short packets and on padding, and both round trips; the last
  section transfers them from lists to every buffer that keeps the contract of the traits.
\<close>

section \<open>The wire format\<close>

definition pad :: "nat \<Rightarrow> rstring \<Rightarrow> u8 list" where
  "pad n s = take n s @ replicate (n - length s) 0"

lemma length_pad [simp]: "length (pad n s) = n"
  by (simp add: pad_def)

lemma str_to_sized_array_pad: "str_to_sized_array n s = pad n s"
proof (induction s arbitrary: n)
  case Nil
  then show ?case by (cases n) (simp_all add: str_to_sized_array_def pad_def)
next
  case (Cons c cs)
  then show ?case by (cases n) (simp_all add: str_to_sized_array_def pad_def)
qed

fun data_bytes :: "packet_data \<Rightarrow> u8 list" where
  "data_bytes (Unhandled tag bs) = bs"
| "data_bytes (Init max_players) = le_bytes 2 max_players"
| "data_bytes (Player pos rot weights act sub_act) =
     vector3_bytes pos @ quaternion_bytes rot @ concat (map (le_bytes 4) weights) @
     le_bytes 2 act @ le_bytes 2 sub_act"
| "data_bytes (Cap pos rot cap_out cap_anim) =
     vector3_bytes pos @ quaternion_bytes rot @ [bool_u8 cap_out] @ pad 48 cap_anim"
| "data_bytes (Game is_2d scenario_num stage) = [bool_u8 is_2d, scenario_num] @ pad 64 stage"
| "data_bytes (Tag update_type is_it seconds minutes) =
     [case update_type of Time \<Rightarrow> 1 | State \<Rightarrow> 2, bool_u8 is_it, seconds] @ le_bytes 2 minutes"
| "data_bytes (Connect c_type max_player client_name) =
     le_bytes 4 (case c_type of FirstConnection \<Rightarrow> (0::u32) | Reconnecting \<Rightarrow> 1) @
     le_bytes 2 max_player @ pad 32 client_name"
| "data_bytes Disconnect = []"
| "data_bytes (Costume c) = pad 32 (body_name c) @ pad 32 (cap_name c)"
| "data_bytes (Shine shine_id is_grand) = le_bytes 4 shine_id @ [bool_u8 is_grand]"
| "data_bytes (Capture model) = pad 32 model"
| "data_bytes (ChangeStage stage id' scenerio sub_scenario) =
     pad 48 stage @ pad 16 id' @ [scenerio, sub_scenario]"
| "data_bytes CommandPacket = []"
| "data_bytes (UdpInit port) = le_bytes 2 port"
| "data_bytes HolePunch = []"

definition header_bytes :: "guid \<Rightarrow> u16 \<Rightarrow> u16 \<Rightarrow> u8 list" where
  "header_bytes g p_type p_size = guid_id g @ le_bytes 2 p_type @ le_bytes 2 p_size"

definition packet_bytes :: "packet \<Rightarrow> u8 list" where
  "packet_bytes p =
     header_bytes (pkt_id p) (get_type_id (pkt_data p)) (data_size p) @ data_bytes (pkt_data p)"

text \<open>
  The invariant of a decoded packet. A cap animation comes as its 32 bytes, NULs included; every
  other string is trimmed. An \<open>Unhandled\<close> packet never has the tag of a known type, and no hole
  punch is ever decoded.
\<close>

definition wf_field :: "nat \<Rightarrow> rstring \<Rightarrow> bool" where
  "wf_field n s \<longleftrightarrow> length s \<le> n \<and> utf8_valid s \<and> trimmed s"

fun wf_data :: "packet_data \<Rightarrow> bool" where
  "wf_data (Unhandled tag bs) = (\<not> (1 \<le> tag \<and> tag \<le> 13) \<and> length bs < 2 ^ 16)"
| "wf_data (Player pos rot weights act sub_act) = (length weights = 6)"
| "wf_data (Cap pos rot cap_out cap_anim) = (length cap_anim = 32 \<and> utf8_valid cap_anim)"
| "wf_data (Game is_2d scenario_num stage) = wf_field 64 stage"
| "wf_data (Connect c_type max_player client_name) = wf_field 32 client_name"
| "wf_data (Costume c) = (wf_field 32 (body_name c) \<and> wf_field 32 (cap_name c))"
| "wf_data (Capture model) = wf_field 32 model"
| "wf_data (ChangeStage stage id' scenerio sub_scenario) = (wf_field 48 stage \<and> wf_field 16 id')"
| "wf_data HolePunch = False"
| "wf_data d = True"

definition wf_packet :: "packet \<Rightarrow> bool" where
  "wf_packet p \<longleftrightarrow> wf_guid (pkt_id p) \<and> wf_data (pkt_data p)"

text \<open>The header tells the true size.\<close>

definition framed :: "packet \<Rightarrow> bool" where
  "framed p \<longleftrightarrow> unat (data_size p) = get_size (pkt_data p)"

lemma length_concat_weights: "length (concat (map (le_bytes 4) (ws :: f32 list))) = 4 * length ws"
  by (induction ws) auto

text \<open>The arrays of the Rust types have their length by construction; here it is part of the value.\<close>

fun sized_data :: "packet_data \<Rightarrow> bool" where
  "sized_data (Player pos rot weights act sub_act) = (length weights = 6)"
| "sized_data d = True"

definition sized_packet :: "packet \<Rightarrow> bool" where
  "sized_packet p \<longleftrightarrow> wf_guid (pkt_id p) \<and> sized_data (pkt_data p)"

lemma wf_data_sized: "wf_data d \<Longrightarrow> sized_data d"
  by (cases d) auto

lemma wf_packet_sized: "wf_packet p \<Longrightarrow> sized_packet p"
  by (simp add: wf_packet_def sized_packet_def wf_data_sized)

lemma length_data_bytes: "sized_data d \<Longrightarrow> length (data_bytes d) = get_size d"
  by (cases d) (auto simp: length_concat_weights field_sizes)

lemma length_header_bytes: "wf_guid g \<Longrightarrow> length (header_bytes g t n) = 20"
  by (simp add: header_bytes_def wf_guid_def)

lemma length_packet_bytes: "sized_packet p \<Longrightarrow> length (packet_bytes p) = 20 + get_size (pkt_data p)"
  by (simp add: packet_bytes_def sized_packet_def length_header_bytes length_data_bytes)

lemma get_size_bound: "wf_data d \<Longrightarrow> get_size d < 2 ^ 16"
  by (cases d) (auto simp: field_sizes)

lemma framed_resize: "wf_data (pkt_data p) \<Longrightarrow> framed (resize p)"
  using get_size_bound[of "pkt_data p"]
  by (simp add: framed_def resize_def unsigned_of_nat take_bit_nat_eq_self)

lemma resize_simps [simp]:
  "pkt_id (resize p) = pkt_id p" "pkt_data (resize p) = pkt_data p"
  by (simp_all add: resize_def)

lemma resize_framed: "framed p \<Longrightarrow> resize p = p"
  by (cases p) (auto simp: framed_def resize_def dest!: sym[of "unat _"])

section \<open>The encoder writes the format\<close>

lemma put_weights_page [simp]:
  "4 * length ws \<le> room \<Longrightarrow>
   put_weights page_bufmut ws (out, room) =
     (Ok (), out @ concat (map (le_bytes 4) ws), room - 4 * length ws)"
  by (induction ws arbitrary: out room) auto

lemma encode_data_page:
  assumes "sized_data d" and "get_size d \<le> room"
  shows "encode_data page_bufmut d (out, room) = (Ok (), out @ data_bytes d, room - get_size d)"
  using assms by (cases d) (simp_all add: field_sizes str_to_sized_array_pad)

lemma encode_packet_page:
  assumes "sized_packet p" and "20 + get_size (pkt_data p) \<le> room"
  shows "encode_packet page_bufmut p (out, room) =
     (Ok (), out @ packet_bytes p, room - (20 + get_size (pkt_data p)))"
  using assms
  by (simp add: encode_packet_def packet_bytes_def header_bytes_def sized_packet_def wf_guid_def
      encode_data_page)

section \<open>The decoder on its own output\<close>

lemma read_le_Cons [simp]: "read_le (Suc 0) (b # bs) = Some (b :: u8, bs)"
  by (simp add: read_le_def split_at_def)

lemma buf_size_to_string_run [simp]:
  "length bs = n \<Longrightarrow> utf8_valid bs \<Longrightarrow>
   buf_size_to_string list_buf n (bs @ rest) = (Ok (trim_nul bs), rest)"
  by (simp add: buf_size_to_string_def from_utf8_def)

lemma buf_size_to_string_bad [simp]:
  "length bs = n \<Longrightarrow> \<not> utf8_valid bs \<Longrightarrow>
   buf_size_to_string list_buf n (bs @ rest) = (Err BadUtf8, rest)"
  by (simp add: buf_size_to_string_def from_utf8_def)

lemma pad_field: "wf_field n s \<Longrightarrow> utf8_valid (pad n s) \<and> trim_nul (pad n s) = s"
  by (simp add: wf_field_def pad_def trim_nul_trimmed)

lemma buf_size_to_string_pad [simp]:
  "wf_field n s \<Longrightarrow> buf_size_to_string list_buf n (pad n s @ rest) = (Ok s, rest)"
  using pad_field[of n s] by simp

lemma get_weights_run [simp]:
  "get_weights list_buf (length ws) (concat (map (le_bytes 4) ws) @ rest) = (Ok ws, rest)"
  by (induction ws) simp_all

lemma get_weights_six [simp]:
  "length ws = 6 \<Longrightarrow> get_weights list_buf 6 (concat (map (le_bytes 4) ws) @ rest) = (Ok ws, rest)"
  using get_weights_run[of ws rest] by simp

lemma bool_u8_neq [simp]: "(bool_u8 b \<noteq> 0) = b"
  by (simp add: bool_u8_def)

text \<open>
  What is left of the buffer after the data: the whole rest, and for a cap also the 16 bytes of
  the animation field that the decoder does not read.
\<close>

fun unread :: "packet_data \<Rightarrow> u8 list" where
  "unread (Cap pos rot cap_out cap_anim) = replicate 16 0"
| "unread d = []"

lemma decode_data_run:
  assumes "wf_data d" and "unat p_size = get_size d"
  shows "decode_data list_buf (get_type_id d) p_size (data_bytes d @ rest) = (Ok d, unread d @ rest)"
proof (cases d)
  case (Unhandled tag bs)
  have "tag \<noteq> 1" "tag \<noteq> 2" "tag \<noteq> 3" "tag \<noteq> 4" "tag \<noteq> 5" "tag \<noteq> 6" "tag \<noteq> 7" "tag \<noteq> 8" "tag \<noteq> 9"
    "tag \<noteq> 10" "tag \<noteq> 11" "tag \<noteq> 12" "tag \<noteq> 13"
    using assms(1) Unhandled by auto
  with assms Unhandled show ?thesis by (simp add: decode_data_def)
next
  case (Cap pos rot cap_out cap_anim)
  with assms have len: "length cap_anim = 32" and u: "utf8_valid cap_anim" by auto
  then have "pad 48 cap_anim = cap_anim @ replicate 16 0" by (simp add: pad_def)
  with len u Cap show ?thesis
    by (simp add: decode_data_def decode_cap_def from_utf8_def COSTUME_NAME_SIZE_def)
qed (use assms in \<open>simp_all add: decode_data_def decode_player_def decode_game_def decode_tag_def
   decode_connect_def decode_costume_def decode_shine_def decode_change_stage_def field_sizes
   split: tag_update.splits connection_type.splits\<close>)

lemma header_run:
  assumes "wf_guid g"
  shows "decode_packet list_buf (header_bytes g t n @ body) =
     (if length body < unat n then (Err NotEnoughData, body)
      else bindp (decode_data list_buf t n) (\<lambda>d.
           bindp (skip_padding list_buf n d) (\<lambda>_.
           ret \<lparr>pkt_id = g, data_size = n, pkt_data = d\<rparr>)) body)"
  using assms by (cases g) (simp add: decode_packet_def header_bytes_def wf_guid_def guid_from_def)

text \<open>The wrapping subtraction, read as a natural number.\<close>

lemma excess_padding:
  fixes n :: u16
  assumes "s < 2 ^ 64"
  shows "unat ((ucast n :: usize) - word_of_nat s) =
     (if s \<le> unat n then unat n - s else unat n + 2 ^ 64 - s)"
proof -
  have "unat (word_of_nat s :: usize) = s"
    using assms by (simp add: unsigned_of_nat take_bit_nat_eq_self)
  moreover have "unat (ucast n :: usize) = unat n"
    by (simp add: unsigned_ucast_eq take_bit_nat_eq_self order_less_le_trans[OF unsigned_less])
  ultimately show ?thesis by (simp add: unat_sub_if')
qed

lemma skip_padding_enough:
  assumes "get_size d \<le> unat n" and "unat n - get_size d \<le> length bs"
  shows "skip_padding list_buf n d bs = (Ok (), drop (unat n - get_size d) bs)"
proof -
  let ?e = "(ucast n :: usize) - word_of_nat (get_size d)"
  have "unat n < 2 ^ LENGTH(16)" by (rule unsigned_less)
  then have "unat n < 2 ^ 64" by simp
  with assms(1) have e: "unat ?e = unat n - get_size d"
    using excess_padding[of "get_size d" n] by simp
  then have "0 < ?e \<longleftrightarrow> 0 < unat n - get_size d"
    by (simp add: word_less_nat_alt)
  with e assms(2) show ?thesis by (simp add: skip_padding_def Let_def)
qed

lemma skip_padding_none [simp]: "unat n = get_size d \<Longrightarrow> skip_padding list_buf n d bs = (Ok (), bs)"
  by (simp add: skip_padding_enough)

text \<open>
  A header that announces less than the type needs: the wrapped padding is longer than any Rust
  allocation (at most \<open>isize::MAX\<close> bytes), so \<open>advance\<close> panics.
\<close>

lemma skip_padding_short:
  assumes "unat n < get_size d" and "get_size d < 2 ^ 16" and "length bs < 2 ^ 63"
  shows "skip_padding list_buf n d bs = (Panic, bs)"
proof -
  let ?e = "(ucast n :: usize) - word_of_nat (get_size d)"
  have e: "unat ?e = unat n + 2 ^ 64 - get_size d"
    using excess_padding[of "get_size d" n] assms(1,2) by simp
  with assms have "length bs < unat ?e" by simp
  moreover from e assms have "0 < ?e" by (simp add: word_less_nat_alt)
  ultimately show ?thesis by (simp add: skip_padding_def Let_def)
qed

lemma decode_packet_run:
  assumes "wf_packet p" and "framed p"
  shows "decode_packet list_buf (packet_bytes p @ rest) = (Ok p, unread (pkt_data p) @ rest)"
proof -
  have "length (data_bytes (pkt_data p)) = unat (data_size p)"
    using assms by (simp add: length_data_bytes wf_data_sized wf_packet_def framed_def)
  with assms show ?thesis
    by (simp add: packet_bytes_def wf_packet_def framed_def header_run decode_data_run)
qed

section \<open>The decoder on any bytes\<close>

text \<open>
  \<open>reads b n Q m\<close>: the program \<open>m\<close> needs \<open>n\<close> bytes. With fewer it does not succeed. With as many,
  it takes exactly these and its result has \<open>Q\<close>; if \<open>b\<close> it may find invalid UTF-8 instead, and
  otherwise it has a result, and panics where the bytes are too few.
\<close>

definition good_read ::
  "bool \<Rightarrow> nat \<Rightarrow> ('a \<Rightarrow> bool) \<Rightarrow> u8 list \<Rightarrow> ('a, encoding_error) res \<times> u8 list \<Rightarrow> bool" where
  "good_read b n Q bs out \<longleftrightarrow> (case out of
       (Ok a, rest) \<Rightarrow> n \<le> length bs \<and> rest = drop n bs \<and> Q a
     | (Err e, rest) \<Rightarrow> b \<and> e = BadUtf8
     | (Panic, rest) \<Rightarrow> length bs < n)"

definition reads :: "bool \<Rightarrow> nat \<Rightarrow> ('a \<Rightarrow> bool) \<Rightarrow> ('a, u8 list) decoder \<Rightarrow> bool" where
  "reads b n Q m \<longleftrightarrow> (\<forall>bs. good_read b n Q bs (m bs))"

lemma readsD: "reads b n Q m \<Longrightarrow> good_read b n Q bs (m bs)"
  by (simp add: reads_def)

lemma good_read_simps [simp]:
  "good_read b n Q bs (Ok a, rest) \<longleftrightarrow> n \<le> length bs \<and> rest = drop n bs \<and> Q a"
  "good_read b n Q bs (Err e, rest) \<longleftrightarrow> b \<and> e = BadUtf8"
  "good_read b n Q bs (Panic, rest) \<longleftrightarrow> length bs < n"
  by (simp_all add: good_read_def)

lemma reads_bindp:
  assumes m: "reads b n Q m" and f: "\<And>a. Q a \<Longrightarrow> reads b k R (f a)"
  shows "reads b (n + k) R (bindp m f)"
  unfolding reads_def
proof
  fix bs
  obtain r rest where out: "m bs = (r, rest)" by fastforce
  show "good_read b (n + k) R bs (bindp m f bs)"
  proof (cases r)
    case (Ok a)
    with readsD[OF m, of bs] out have a: "n \<le> length bs" "rest = drop n bs" "Q a" by auto
    from readsD[OF f[OF \<open>Q a\<close>], of rest] a out Ok show ?thesis
      by (auto simp: good_read_def add.commute split: prod.splits res.splits)
  qed (use readsD[OF m, of bs] out in auto)
qed

lemma reads_mono: "reads b n Q m \<Longrightarrow> (\<And>a. Q a \<Longrightarrow> R a) \<Longrightarrow> reads b n R m"
  by (auto simp: reads_def good_read_def split: prod.splits res.splits)

lemma reads_ret: "Q a \<Longrightarrow> reads b 0 Q (ret a)"
  by (simp add: reads_def)

lemma reads_le: "reads b n (\<lambda>_. True) (prim (read_le n))"
  by (simp add: reads_def prim_def read_le_def split_at_def)

lemma reads_bytes: "reads b n (\<lambda>bs. length bs = n) (prim (split_at n))"
  by (simp add: reads_def prim_def split_at_def)

lemma reads_from_utf8: "reads True 0 (\<lambda>s. s = bs \<and> utf8_valid bs) (from_utf8 bs)"
  by (simp add: reads_def from_utf8_def)

lemma reads_string: "reads True n (wf_field n) (buf_size_to_string list_buf n)"
proof -
  have "reads True (0 + 0) (wf_field n) (bindp (from_utf8 bs) (\<lambda>s. ret (trim_nul s)))"
    if "length bs = n" for bs
    by (rule reads_bindp[OF reads_from_utf8], rule reads_ret)
       (use that length_trim_nul[of bs] in \<open>auto simp: wf_field_def utf8_valid_trim_nul\<close>)
  then have "reads True (n + (0 + 0)) (wf_field n) (buf_size_to_string list_buf n)"
    unfolding buf_size_to_string_def list_buf_ops by (rule reads_bindp[OF reads_bytes])
  then show ?thesis by simp
qed

lemma reads_size: "reads b m Q p \<Longrightarrow> m = n \<Longrightarrow> reads b n Q p"
  by simp

lemma reads_vector3: "reads b 12 (\<lambda>_. True) (decode_vector3 list_buf)"
  unfolding decode_vector3_def list_buf_ops
  by (rule reads_size, (rule reads_bindp reads_le reads_ret | simp)+)

lemma reads_quaternion: "reads b 16 (\<lambda>_. True) (decode_quaternion list_buf)"
  unfolding decode_quaternion_def list_buf_ops
  by (rule reads_size, (rule reads_bindp reads_le reads_ret | simp)+)

lemma reads_weights: "reads b (4 * n) (\<lambda>ws. length ws = n) (get_weights list_buf n)"
proof (induction n)
  case 0
  show ?case unfolding get_weights.simps mult_0_right by (rule reads_ret) simp
next
  case (Suc n)
  show ?case
    unfolding get_weights.simps list_buf_ops
    by (rule reads_size, (rule reads_bindp reads_le reads_ret Suc.IH | simp)+)
qed

lemmas reads_parts =
  reads_bindp reads_le reads_bytes reads_string reads_vector3 reads_quaternion reads_weights reads_ret

text \<open>What each type makes of its data: how many bytes the format gives it.\<close>

definition type_size :: "u16 \<Rightarrow> u16 \<Rightarrow> nat" where
  "type_size t n =
     (if t = 1 \<or> t = 13 then 2
      else if t = 2 then 56
      else if t = 3 then 77
      else if t = 4 \<or> t = 11 then 66
      else if t = 5 \<or> t = 9 then 5
      else if t = 6 then 38
      else if t = 7 \<or> t = 12 then 0
      else if t = 8 then 64
      else if t = 10 then 32
      else unat n)"

text \<open>The decoder of a cap reads 32 of the 48 bytes of its animation.\<close>

definition type_reads :: "u16 \<Rightarrow> u16 \<Rightarrow> nat" where
  "type_reads t n = (if t = 3 then 61 else type_size t n)"

definition has_text :: "u16 \<Rightarrow> bool" where
  "has_text t \<longleftrightarrow> t = 3 \<or> t = 4 \<or> t = 6 \<or> t = 8 \<or> t = 10 \<or> t = 11"

definition of_type :: "u16 \<Rightarrow> u16 \<Rightarrow> packet_data \<Rightarrow> bool" where
  "of_type t n d \<longleftrightarrow> wf_data d \<and> get_type_id d = t \<and> get_size d = type_size t n"

lemma reads_player: "reads b 56 (of_type 2 n) (decode_player list_buf)"
  unfolding decode_player_def list_buf_ops
  by (rule reads_size, (rule reads_parts | simp add: of_type_def type_size_def)+)

lemma reads_text:
  assumes f: "\<And>s. length s = n \<Longrightarrow> utf8_valid s \<Longrightarrow> reads True k R (f s)"
  shows "reads True (n + k) R (bindp (prim (split_at n)) (\<lambda>bs. bindp (from_utf8 bs) f))"
proof (rule reads_bindp[OF reads_bytes])
  fix bs :: "u8 list"
  assume "length bs = n"
  then have "reads True (0 + k) R (bindp (from_utf8 bs) f)"
    by (intro reads_bindp[OF reads_from_utf8] f) auto
  then show "reads True k R (bindp (from_utf8 bs) f)" by simp
qed

lemma reads_cap: "reads True 61 (of_type 3 n) (decode_cap list_buf)"
  unfolding decode_cap_def list_buf_ops COSTUME_NAME_SIZE_def
  by (rule reads_size,
      rule reads_bindp[OF reads_vector3 reads_bindp[OF reads_quaternion
             reads_bindp[OF reads_le reads_text[OF reads_ret]]]])
     (simp_all add: of_type_def type_size_def field_sizes)

lemma reads_game: "reads True 66 (of_type 4 n) (decode_game list_buf)"
  unfolding decode_game_def list_buf_ops STAGE_GAME_NAME_SIZE_def
  by (rule reads_size, (rule reads_parts | simp add: of_type_def type_size_def field_sizes)+)

lemma reads_tag: "reads b 5 (of_type 5 n) (decode_tag list_buf)"
  unfolding decode_tag_def list_buf_ops
  by (rule reads_size, (rule reads_parts | simp add: of_type_def type_size_def)+)

lemma reads_connect: "reads True 38 (of_type 6 n) (decode_connect list_buf)"
  unfolding decode_connect_def list_buf_ops CLIENT_NAME_SIZE_def COSTUME_NAME_SIZE_def
  by (rule reads_size, (rule reads_parts | simp add: of_type_def type_size_def field_sizes)+)

lemma reads_costume: "reads True 64 (of_type 8 n) (decode_costume list_buf)"
  unfolding decode_costume_def list_buf_ops COSTUME_NAME_SIZE_def
  by (rule reads_size, (rule reads_parts | simp add: of_type_def type_size_def field_sizes)+)

lemma reads_shine: "reads b 5 (of_type 9 n) (decode_shine list_buf)"
  unfolding decode_shine_def list_buf_ops
  by (rule reads_size, (rule reads_parts | simp add: of_type_def type_size_def)+)

lemma reads_change_stage: "reads True 66 (of_type 11 n) (decode_change_stage list_buf)"
  unfolding decode_change_stage_def list_buf_ops STAGE_CHANGE_NAME_SIZE_def STAGE_ID_SIZE_def
  by (rule reads_size, (rule reads_parts | simp add: of_type_def type_size_def field_sizes)+)

text \<open>Where the header announces enough for an unknown type, its data is what was announced.\<close>

lemma reads_unhandled:
  assumes "\<not> (1 \<le> t \<and> t \<le> 13)"
  shows "reads b (unat n) (of_type t n)
     (bindp (prim (split_at (unat n))) (\<lambda>bs. ret (Unhandled t bs)))"
proof -
  have "unat n < 2 ^ LENGTH(16)" by (rule unsigned_less)
  then have "of_type t n (Unhandled t bs)" if "length bs = unat n" for bs
    using assms that by (auto simp: of_type_def type_size_def)
  then have "reads b (unat n + 0) (of_type t n)
      (bindp (prim (split_at (unat n))) (\<lambda>bs. ret (Unhandled t bs)))"
    by (intro reads_bindp[OF reads_bytes] reads_ret)
  then show ?thesis by simp
qed

lemma known_type:
  fixes t :: u16
  assumes "1 \<le> t" and "t \<le> 13"
  shows "t = 1 \<or> t = 2 \<or> t = 3 \<or> t = 4 \<or> t = 5 \<or> t = 6 \<or> t = 7 \<or> t = 8 \<or> t = 9 \<or> t = 10 \<or> t = 11
    \<or> t = 12 \<or> t = 13"
proof -
  have "unat t \<in> {1..13}" using assms by (auto simp: word_le_nat_alt)
  then have "unat t \<in> {1, 2, 3, 4, 5, 6, 7, 8, 9, 10, 11, 12, 13}"
    by (simp only: atLeastAtMost_iff insert_iff empty_iff) arith
  then have "word_of_nat (unat t) \<in> {1, 2, 3, 4, 5, 6, 7, 8, 9, 10, 11, 12, 13 :: u16}"
    by (elim insertE emptyE) simp_all
  then show ?thesis by simp
qed

lemma reads_small:
  "reads b 2 (of_type 1 n) (bindp (prim (read_le 2)) (\<lambda>x. ret (Init x)))"
  "reads b 2 (of_type 13 n) (bindp (prim (read_le 2)) (\<lambda>x. ret (UdpInit x)))"
  "reads True 32 (of_type 10 n) (bindp (buf_size_to_string list_buf 32) (\<lambda>x. ret (Capture x)))"
  "reads b 0 (of_type 7 n) (ret Disconnect)"
  "reads b 0 (of_type 12 n) (ret CommandPacket)"
  by (rule reads_size, (rule reads_parts | simp add: of_type_def type_size_def field_sizes)+)+

text \<open>One statement for the whole \<open>match\<close>.\<close>

lemma reads_data: "reads (has_text t) (type_reads t n) (of_type t n) (decode_data list_buf t n)"
proof (cases "1 \<le> t \<and> t \<le> 13")
  case True
  then consider "t = 1" | "t = 2" | "t = 3" | "t = 4" | "t = 5" | "t = 6" | "t = 7" | "t = 8"
    | "t = 9" | "t = 10" | "t = 11" | "t = 12" | "t = 13"
    using known_type by blast
  then show ?thesis
    by cases (simp_all add: decode_data_def type_reads_def type_size_def has_text_def
        COSTUME_NAME_SIZE_def reads_small reads_player reads_cap reads_game reads_tag reads_connect
        reads_costume reads_shine reads_change_stage)
next
  case False
  then have "type_reads t n = unat n"
    by (auto simp: type_reads_def type_size_def)
  moreover have "decode_data list_buf t n =
      bindp (prim (split_at (unat n))) (\<lambda>bs. ret (Unhandled t bs))"
    using False by (auto simp: decode_data_def)
  moreover have "\<not> has_text t" using False by (auto simp: has_text_def)
  ultimately show ?thesis using reads_unhandled[OF False] by simp
qed

text \<open>On ASCII bytes no text field is invalid, so the decoder has no error to report.\<close>

definition ascii :: "u8 list \<Rightarrow> bool" where
  "ascii bs \<longleftrightarrow> (\<forall>b \<in> set bs. b < 0x80)"

lemma ascii_utf8 [simp]: "ascii bs \<Longrightarrow> utf8_valid bs"
  by (simp add: ascii_def utf8_valid_ascii)

lemma ascii_take [simp]: "ascii bs \<Longrightarrow> ascii (take n bs)"
  by (auto simp: ascii_def dest: in_set_takeD)

lemma ascii_drop [simp]: "ascii bs \<Longrightarrow> ascii (drop n bs)"
  by (auto simp: ascii_def dest: in_set_dropD)

definition clean_out :: "('a, encoding_error) res \<times> u8 list \<Rightarrow> bool" where
  "clean_out out \<longleftrightarrow>
     (case out of (Ok a, rest) \<Rightarrow> ascii rest | (Err e, rest) \<Rightarrow> False | (Panic, rest) \<Rightarrow> True)"

lemma clean_out_simps [simp]:
  "clean_out (Ok a, rest) = ascii rest" "\<not> clean_out (Err e, rest)" "clean_out (Panic, rest)"
  by (simp_all add: clean_out_def)

definition ascii_ok :: "('a, u8 list) decoder \<Rightarrow> bool" where
  "ascii_ok m \<longleftrightarrow> (\<forall>bs. ascii bs \<longrightarrow> clean_out (m bs))"

named_theorems ascii_rules "decoders that report no error on ASCII"

lemma ascii_ok_bindp [ascii_rules]:
  assumes "ascii_ok m" and "\<And>a. ascii_ok (f a)"
  shows "ascii_ok (bindp m f)"
  unfolding ascii_ok_def
proof (intro allI impI)
  fix bs assume "ascii bs"
  with assms(1) have m: "clean_out (m bs)" by (simp add: ascii_ok_def)
  obtain r rest where out: "m bs = (r, rest)" by fastforce
  with m assms(2) show "clean_out (bindp m f bs)"
    by (cases r) (auto simp: ascii_ok_def)
qed

lemma ascii_ok_ret [ascii_rules]: "ascii_ok (ret a)"
  by (simp add: ascii_ok_def)

lemma ascii_ok_le [ascii_rules]: "ascii_ok (prim (read_le n))"
  by (auto simp: ascii_ok_def prim_def read_le_def split_at_def)

lemma ascii_ok_bytes [ascii_rules]: "ascii_ok (prim (split_at n))"
  by (auto simp: ascii_ok_def prim_def split_at_def)

lemma ascii_ok_text [ascii_rules]:
  "(\<And>s. ascii_ok (f s)) \<Longrightarrow>
   ascii_ok (bindp (prim (split_at n)) (\<lambda>bs. bindp (from_utf8 bs) f))"
  by (auto simp: ascii_ok_def bindp_def prim_def from_utf8_def split_at_def)

lemma ascii_ok_if [ascii_rules]: "ascii_ok m \<Longrightarrow> ascii_ok p \<Longrightarrow> ascii_ok (if c then m else p)"
  by simp

lemma ascii_ok_string [ascii_rules]: "ascii_ok (buf_size_to_string list_buf n)"
  unfolding buf_size_to_string_def list_buf_ops by (intro ascii_ok_text ascii_ok_ret)

lemma ascii_ok_weights [ascii_rules]: "ascii_ok (get_weights list_buf n)"
proof (induction n)
  case 0
  show ?case unfolding get_weights.simps by (rule ascii_ok_ret)
next
  case (Suc n)
  show ?case unfolding get_weights.simps list_buf_ops by (intro ascii_rules Suc.IH)
qed

lemma ascii_ok_data: "ascii_ok (decode_data list_buf t n)"
  unfolding decode_data_def decode_player_def decode_cap_def decode_game_def decode_tag_def
    decode_connect_def decode_costume_def decode_shine_def decode_change_stage_def
    decode_vector3_def decode_quaternion_def list_buf_ops
  by (intro ascii_ok_if ascii_ok_text ascii_ok_ret ascii_rules)

section \<open>The decoder, case by case\<close>

lemma type_reads_le: "type_reads t n \<le> type_size t n"
  by (simp add: type_reads_def type_size_def)

lemma of_type_size:
  assumes "of_type t n d"
  shows "get_size d = type_size t n" and "get_size d < 2 ^ 16" and "wf_data d"
  using assms get_size_bound[of d] by (auto simp: of_type_def)

text \<open>Enough announced: the data is decoded and skipped to the announced length, or is bad UTF-8.\<close>

lemma decode_enough:
  assumes g: "wf_guid g" and fits: "type_size t n \<le> unat n" and body: "unat n \<le> length body"
  shows "(\<exists>d. of_type t n d \<and>
      decode_packet list_buf (header_bytes g t n @ body) =
        (Ok \<lparr>pkt_id = g, data_size = n, pkt_data = d\<rparr>,
         drop (unat n - (type_size t n - type_reads t n)) body))
    \<or> (has_text t \<and>
      (\<exists>rest. decode_packet list_buf (header_bytes g t n @ body) = (Err BadUtf8, rest)))"
proof -
  note run = header_run[OF g, of t n body]
  obtain r rest where out: "decode_data list_buf t n body = (r, rest)" by fastforce
  note good = readsD[OF reads_data, of t n body, unfolded out]
  show ?thesis
  proof (cases r)
    case (Ok d)
    with good have d: "of_type t n d" "type_reads t n \<le> length body" "rest = drop (type_reads t n) body"
      by auto
    note size = of_type_size[OF d(1)]
    have "skip_padding list_buf n d rest = (Ok (), drop (unat n - type_size t n) rest)"
      using fits body d size type_reads_le[of t n] by (simp add: skip_padding_enough)
    then have "decode_packet list_buf (header_bytes g t n @ body) =
        (Ok \<lparr>pkt_id = g, data_size = n, pkt_data = d\<rparr>,
         drop (unat n - (type_size t n - type_reads t n)) body)"
      using run body out Ok d fits type_reads_le[of t n] by (simp add: add.commute)
    with d(1) show ?thesis by blast
  next
    case (Err e)
    with good run body out show ?thesis by auto
  next
    case Panic
    with good have "length body < type_reads t n" by simp
    with fits body type_reads_le[of t n] show ?thesis by simp
  qed
qed

text \<open>Too little announced: the decoder never succeeds, and without text fields it panics.\<close>

lemma decode_short:
  assumes g: "wf_guid g" and short: "unat n < type_size t n" and body: "unat n \<le> length body"
    and alloc: "length body < 2 ^ 63"
  shows "fst (decode_packet list_buf (header_bytes g t n @ body)) = Panic
    \<or> (has_text t \<and> fst (decode_packet list_buf (header_bytes g t n @ body)) = Err BadUtf8)"
proof -
  note run = header_run[OF g, of t n body]
  obtain r rest where out: "decode_data list_buf t n body = (r, rest)" by fastforce
  note good = readsD[OF reads_data, of t n body, unfolded out]
  show ?thesis
  proof (cases r)
    case (Ok d)
    with good have d: "of_type t n d" "rest = drop (type_reads t n) body" by auto
    then have "length rest < 2 ^ 63" using alloc by simp
    with of_type_size[OF d(1)] short have "skip_padding list_buf n d rest = (Panic, rest)"
      by (simp add: skip_padding_short)
    then show ?thesis using run body out Ok by simp
  qed (use good run body out in auto)
qed

section \<open>Frames\<close>

text \<open>Where the first packet of a byte stream ends, if all of it is there.\<close>

definition frame_length :: "u8 list \<Rightarrow> nat option" where
  "frame_length bs =
     (if 20 \<le> length bs \<and> 20 + unat (le_word (take 2 (drop 18 bs)) :: u16) \<le> length bs
      then Some (20 + unat (le_word (take 2 (drop 18 bs)) :: u16)) else None)"

lemma frame_length_header:
  "wf_guid g \<Longrightarrow> frame_length (header_bytes g t n @ body) =
     (if unat n \<le> length body then Some (20 + unat n) else None)"
  by (simp add: frame_length_def header_bytes_def wf_guid_def)

lemma frame_length_packet:
  "wf_packet p \<Longrightarrow> framed p \<Longrightarrow>
   frame_length (packet_bytes p @ rest) = Some (length (packet_bytes p))"
  using length_packet_bytes[OF wf_packet_sized, of p] length_data_bytes[OF wf_data_sized, of "pkt_data p"]
  by (simp add: packet_bytes_def wf_packet_def frame_length_header framed_def)

lemma header_split:
  assumes "20 \<le> length bs"
  obtains g t n body where "wf_guid g" and "bs = header_bytes g t n @ body"
proof -
  let ?u = "drop 16 bs"
  let ?v = "drop 2 ?u"
  let ?t = "take 2 ?u" and ?n = "take 2 ?v"
  have "length ?t = 2" "length ?n = 2" using assms by auto
  then have "le_bytes 2 (le_word ?t :: u16) = ?t" "le_bytes 2 (le_word ?n :: u16) = ?n"
    using le_bytes_le_word[of ?t, where ?'a = 16] le_bytes_le_word[of ?n, where ?'a = 16] by auto
  moreover have "bs = take 16 bs @ ?t @ ?n @ drop 2 ?v"
    by (simp only: append_take_drop_id)
  ultimately have "bs = header_bytes (guid_from (take 16 bs)) (le_word ?t) (le_word ?n) @ drop 2 ?v"
    by (simp add: header_bytes_def guid_from_def)
  moreover have "wf_guid (guid_from (take 16 bs))"
    using assms by (simp add: wf_guid_def guid_from_def)
  ultimately show thesis using that by blast
qed

text \<open>The decoder reports missing data exactly where the frame is incomplete.\<close>

lemma decode_incomplete:
  "(\<exists>rest. decode_packet list_buf bs = (Err NotEnoughData, rest)) \<longleftrightarrow> frame_length bs = None"
proof (cases "20 \<le> length bs")
  case False
  then show ?thesis by (simp add: decode_packet_def frame_length_def)
next
  case True
  then obtain g t n body where g: "wf_guid g" and bs: "bs = header_bytes g t n @ body"
    by (rule header_split)
  show ?thesis
  proof (cases "unat n \<le> length body")
    case False
    with g bs show ?thesis by (simp add: header_run frame_length_header)
  next
    case body: True
    obtain r rest where out: "decode_data list_buf t n body = (r, rest)" by fastforce
    note good = readsD[OF reads_data, of t n body, unfolded out]
    have "skip_padding list_buf n d rest \<noteq> (Err e, s)" for d e s
      by (auto simp: skip_padding_def Let_def primu_def split: option.splits)
    then have "fst (decode_packet list_buf bs) \<noteq> Err NotEnoughData"
      using header_run[OF g, of t n body] good out body bs
      by (cases r) (auto simp: bindp_def split: prod.splits res.splits)
    then show ?thesis using g bs body by (auto simp: frame_length_header)
  qed
qed

section \<open>Every lawful buffer\<close>

context buf_impl
begin

lemma sim_from_utf8: "sim view (from_utf8 bs) (from_utf8 bs)"
  unfolding from_utf8_def by (intro sim_if sim_ret sim_throw)

lemma sim_string: "sim view (buf_size_to_string B n) (buf_size_to_string list_buf n)"
  unfolding buf_size_to_string_def by (intro sim_bindp reader_sims sim_from_utf8 sim_ret)

lemma sim_weights: "sim view (get_weights B n) (get_weights list_buf n)"
proof (induction n)
  case 0
  show ?case unfolding get_weights.simps by (rule sim_ret)
next
  case (Suc n)
  show ?case unfolding get_weights.simps by (intro sim_bindp reader_sims sim_ret Suc.IH)
qed

lemmas codec_sims =
  reader_sims sim_from_utf8 sim_string sim_weights sim_decode_vector3 sim_decode_quaternion

lemma sim_decode_arms:
  "sim view (decode_player B) (decode_player list_buf)"
  "sim view (decode_cap B) (decode_cap list_buf)"
  "sim view (decode_game B) (decode_game list_buf)"
  "sim view (decode_tag B) (decode_tag list_buf)"
  "sim view (decode_connect B) (decode_connect list_buf)"
  "sim view (decode_costume B) (decode_costume list_buf)"
  "sim view (decode_shine B) (decode_shine list_buf)"
  "sim view (decode_change_stage B) (decode_change_stage list_buf)"
  unfolding decode_player_def decode_cap_def decode_game_def decode_tag_def decode_connect_def
    decode_costume_def decode_shine_def decode_change_stage_def
  by (intro sim_bindp codec_sims sim_ret)+

lemma sim_decode_data: "sim view (decode_data B t n) (decode_data list_buf t n)"
  unfolding decode_data_def by (intro sim_if sim_bindp codec_sims sim_decode_arms sim_ret)

lemma sim_skip_padding: "sim view (skip_padding B n d) (skip_padding list_buf n d)"
  unfolding skip_padding_def Let_def by (intro sim_if reader_sims sim_ret)

lemma sim_decode_packet: "sim view (decode_packet B) (decode_packet list_buf)"
  unfolding decode_packet_def
  by (intro sim_bindp sim_if reader_sims sim_decode_data sim_skip_padding sim_throw sim_ret)

text \<open>What a list does, the buffer does up to its view.\<close>

lemma decode_packet_view:
  "decode_packet list_buf (view r) = (x, bs) \<longleftrightarrow>
   (\<exists>r'. decode_packet B r = (x, r') \<and> view r' = bs)"
  using simD[OF sim_decode_packet, of r] by (cases "decode_packet B r") auto

lemma decode_packet_fst: "fst (decode_packet B r) = fst (decode_packet list_buf (view r))"
  using simD[OF sim_decode_packet, of r] by simp

end

context bufmut_impl
begin

lemma sim_put_weights: "sim (page_of W mview) (put_weights W ws) (put_weights page_bufmut ws)"
proof (induction ws)
  case Nil
  show ?case unfolding put_weights.simps by (rule sim_ret)
next
  case (Cons w ws)
  show ?case unfolding put_weights.simps by (intro sim_bindp writer_sims Cons.IH)
qed

lemma sim_encode_data: "sim (page_of W mview) (encode_data W d) (encode_data page_bufmut d)"
  by (cases d) (simp_all only: encode_data.simps,
      (intro sim_bindp writer_sims sim_put_weights sim_encode_vector3 sim_encode_quaternion sim_ret)+)

lemma sim_encode_packet: "sim (page_of W mview) (encode_packet W p) (encode_packet page_bufmut p)"
  unfolding encode_packet_def by (intro sim_bindp writer_sims sim_encode_data sim_ret)

lemma encode_packet_view:
  assumes "sized_packet p" and "20 + get_size (pkt_data p) \<le> remaining_mut W w"
  shows "\<exists>w'. encode_packet W p w = (Ok (), w') \<and> mview w' = mview w @ packet_bytes p
     \<and> remaining_mut W w' = remaining_mut W w - (20 + get_size (pkt_data p))"
  using simD[OF sim_encode_packet, of p w] encode_packet_page[OF assms, of "mview w"]
  by (cases "encode_packet W p w") (auto simp: page_of_def)

end

context cursor_impl
begin

lemma advance_exact:
  "n \<le> length (cursor_view c) \<Longrightarrow> advance C n c = Some (c\<lparr>cur_pos := cur_pos c + n\<rparr>)"
  using advance_law[of n c] advance_moves[of n c] by (cases "advance C n c") auto

lemma u16_exact:
  assumes "2 \<le> length (cursor_view c)"
  shows "get_u16_le C c = Some (le_word (take 2 (cursor_view c)), c\<lparr>cur_pos := cur_pos c + 2\<rparr>)"
proof (cases "get_u16_le C c")
  case None
  with u16_law[of c] assms show ?thesis by (simp add: read_le_def split_at_def)
next
  case (Some x)
  then obtain w c' where x: "get_u16_le C c = Some (w, c')" by (cases x) auto
  with u16_law[of c] assms have "w = le_word (take 2 (cursor_view c))"
    by (simp add: read_le_def split_at_def)
  with x u16_moves[OF x] show ?thesis by simp
qed

lemma cursor_view_moved: "cursor_view (c\<lparr>cur_pos := cur_pos c + n\<rparr>) = drop n (cursor_view c)"
  by (simp add: cursor_view_def add.commute)

lemma packet_check_frame:
  "(case frame_length (cursor_view c) of
      None \<Rightarrow> fst (packet_check C c) = Err NotEnoughData
    | Some n \<Rightarrow> packet_check C c = (Ok n, c\<lparr>cur_pos := cur_pos c + n\<rparr>))"
proof (cases "20 \<le> length (cursor_view c)")
  case False
  then show ?thesis by (simp add: packet_check_def frame_length_def remaining_law)
next
  case True
  let ?c1 = "c\<lparr>cur_pos := cur_pos c + 18\<rparr>" and ?c2 = "c\<lparr>cur_pos := cur_pos c + 20\<rparr>"
  let ?n = "le_word (take 2 (drop 18 (cursor_view c))) :: u16"
  have v1: "cursor_view ?c1 = drop 18 (cursor_view c)" by (rule cursor_view_moved)
  have v2: "cursor_view ?c2 = drop 20 (cursor_view c)" by (rule cursor_view_moved)
  have a: "advance C 18 c = Some ?c1" using True by (simp add: advance_exact)
  have u: "get_u16_le C ?c1 = Some (?n, ?c2)" using True u16_exact[of ?c1] v1 by simp
  show ?thesis
    using True a u v2 advance_exact[of "unat ?n" ?c2]
    by (auto simp: packet_check_def frame_length_def remaining_law ac_simps)
qed

end

end
