(* ===== verification/Packet_Facts.thy ===== *)
theory Packet_Facts
  imports Packet_Codec
begin

text \<open>
  What the wire codec promises, for every buffer that keeps the contract of \<open>Buf\<close> or \<open>BufMut\<close>. Each
  property is followed by a concrete instance on the buffers of \<open>BufTraits\<close>.
\<close>

section \<open>Encoding\<close>

text \<open>
  C32. Encoding a packet into a buffer with room for it never fails: it appends the packet's wire
  format, 20 bytes of header and the size of its type, and nothing else.
\<close>
theorem encode_appends_format:
  assumes "bufmut_impl W mview" and "sized_packet p"
    and "20 + get_size (pkt_data p) \<le> remaining_mut W w"
  shows "\<exists>w'. encode_packet W p w = (Ok (), w') \<and> mview w' = mview w @ packet_bytes p
     \<and> length (packet_bytes p) = 20 + get_size (pkt_data p)"
  using bufmut_impl.encode_packet_view[OF assms] length_packet_bytes[OF assms(2)] by blast

definition sample_init :: packet where
  "sample_init = \<lparr>pkt_id = guid_default, data_size = 2, pkt_data = Init 8\<rparr>"

lemma sample_init_sized: "sized_packet sample_init"
  by (simp add: sample_init_def sized_packet_def)

theorem encode_appends_format_witness:
  "\<exists>w'. encode_packet bytes_mut sample_init [] = (Ok (), w') \<and> w' = [] @ packet_bytes sample_init
     \<and> length (packet_bytes sample_init) = 20 + get_size (pkt_data sample_init)"
  by (rule encode_appends_format[OF bytes_mut_writer.bufmut_impl_axioms sample_init_sized])
     (simp add: sample_init_def usize_max_def)

text \<open>
  No packet of a known type is longer than 97 bytes on the wire, so it fits the capacity
  \<open>MAX_PACKET_SIZE\<close> that the writers reserve; the two types sent over UDP fit the 100-byte
  datagram buffer of the UDP reader.
\<close>
theorem known_packet_bound:
  assumes "wf_packet p" and "1 \<le> get_type_id (pkt_data p)" and "get_type_id (pkt_data p) \<le> 13"
  shows "length (packet_bytes p) \<le> 97 \<and> length (packet_bytes p) \<le> MAX_PACKET_SIZE"
proof -
  have "get_size (pkt_data p) \<le> 77"
    using assms by (cases "pkt_data p") (auto simp: wf_packet_def field_sizes)
  then show ?thesis
    using length_packet_bytes[OF wf_packet_sized[OF assms(1)]] by (simp add: MAX_PACKET_SIZE_def)
qed

lemma sample_init_wf: "wf_packet sample_init"
  by (simp add: sample_init_def wf_packet_def)

theorem known_packet_bound_witness:
  "length (packet_bytes sample_init) \<le> 97 \<and> length (packet_bytes sample_init) \<le> MAX_PACKET_SIZE"
  by (rule known_packet_bound[OF sample_init_wf]) (simp_all add: sample_init_def)

section \<open>Round trips\<close>

lemma decode_packet_bytes:
  assumes "buf_impl B view" and "wf_packet p" and "framed p" and "view r = packet_bytes p @ rest"
  shows "\<exists>r'. decode_packet B r = (Ok p, r') \<and> view r' = unread (pkt_data p) @ rest"
  using decode_packet_run[OF assms(2,3), of rest] assms(4)
  by (metis buf_impl.decode_packet_view[OF assms(1)])

text \<open>
  C6. What \<open>encode_packet\<close> writes, \<open>decode_packet\<close> reads back. Encoding a well-formed packet whose
  stored size is that of its type, into a buffer with room for it, succeeds; decoding the bytes it
  added, from any buffer and whatever follows them, gives the same packet. The reader is left
  behind the packet, except after a cap, whose last 16 bytes it leaves unread.
\<close>
theorem decode_encode_roundtrip:
  assumes "bufmut_impl W mview" and "buf_impl B view" and "wf_packet p" and "framed p"
    and "20 + get_size (pkt_data p) \<le> remaining_mut W w"
    and "encode_packet W p w = (out, w')" and "view r = drop (length (mview w)) (mview w') @ rest"
  shows "out = Ok () \<and> take (length (mview w)) (mview w') = mview w
     \<and> (\<exists>r'. decode_packet B r = (Ok p, r') \<and> view r' = unread (pkt_data p) @ rest)"
proof -
  from bufmut_impl.encode_packet_view[OF assms(1) wf_packet_sized[OF assms(3)] assms(5)] assms(6)
  have out: "out = Ok ()" and w': "mview w' = mview w @ packet_bytes p" by simp_all
  from w' assms(7) have "view r = packet_bytes p @ rest" by simp
  from decode_packet_bytes[OF assms(2-4) this] out w' show ?thesis by simp
qed

definition sample_stage :: rstring where
  "sample_stage = str_lit ''CapWorldHomeStage''"

lemma sample_stage_wf: "wf_field 64 sample_stage" "wf_field 48 sample_stage"
  by (simp_all add: sample_stage_def str_lit_def wf_field_def trimmed_def utf8_valid_ascii)

definition sample_game :: packet where
  "sample_game = \<lparr>pkt_id = guid_default, data_size = 66, pkt_data = Game False 3 sample_stage\<rparr>"

lemma sample_game_ok: "wf_packet sample_game" "framed sample_game"
  by (simp_all add: sample_game_def wf_packet_def framed_def sample_stage_wf field_sizes)

theorem decode_encode_roundtrip_witness:
  "fst (encode_packet bytes_mut sample_game [9]) = Ok ()
     \<and> take (length [9 :: u8]) (snd (encode_packet bytes_mut sample_game [9])) = [9]
     \<and> (\<exists>r'. decode_packet cursor_buf
          (cursor_new (drop 1 (snd (encode_packet bytes_mut sample_game [9])) @ [7])) = (Ok sample_game, r')
        \<and> cursor_view r' = unread (pkt_data sample_game) @ [7])"
proof -
  let ?out = "encode_packet bytes_mut sample_game [9]"
  have room: "20 + get_size (pkt_data sample_game) \<le> remaining_mut bytes_mut [9]"
    by (simp add: sample_game_def usize_max_def field_sizes)
  have view: "cursor_view (cursor_new (drop 1 (snd ?out) @ [7])) = drop (length [9::u8]) (snd ?out) @ [7]"
    by simp
  show ?thesis
    by (rule decode_encode_roundtrip[OF bytes_mut_writer.bufmut_impl_axioms
          cursor_reader.buf_impl_axioms sample_game_ok room prod.collapse[symmetric] view])
qed

text \<open>Inversion of a successful decode, on lists.\<close>

lemma decode_Ok_inv:
  assumes ok: "decode_packet list_buf bs = (Ok p, rest)" and alloc: "length bs < 2 ^ 63"
  obtains body where "wf_guid (pkt_id p)"
    and "bs = header_bytes (pkt_id p) (get_type_id (pkt_data p)) (data_size p) @ body"
    and "of_type (get_type_id (pkt_data p)) (data_size p) (pkt_data p)"
    and "get_size (pkt_data p) \<le> unat (data_size p)" and "unat (data_size p) \<le> length body"
    and "rest = drop (unat (data_size p) - length (unread (pkt_data p))) body"
proof -
  have frame: "frame_length bs \<noteq> None" using ok decode_incomplete[of bs] by auto
  then have "20 \<le> length bs" by (auto simp: frame_length_def split: if_splits)
  then obtain g t n body where g: "wf_guid g" and bs: "bs = header_bytes g t n @ body"
    by (rule header_split)
  from frame g bs have body: "unat n \<le> length body"
    by (simp add: frame_length_header split: if_splits)
  have len: "length body < 2 ^ 63" using alloc bs by simp
  have fits: "type_size t n \<le> unat n"
    using decode_short[OF g _ body len, of t] ok bs by (cases "unat n < type_size t n") auto
  from decode_enough[OF g fits body] ok bs obtain d where d: "of_type t n d"
    and p: "p = \<lparr>pkt_id = g, data_size = n, pkt_data = d\<rparr>"
    and rest: "rest = drop (unat n - (type_size t n - type_reads t n)) body"
    by auto
  have "type_size t n - type_reads t n = length (unread d)"
    using d by (cases d) (auto simp: of_type_def type_reads_def type_size_def)
  with that[of body] g bs d p rest fits body show thesis
    by (auto simp: of_type_def)
qed

lemma decode_Ok_wf:
  assumes "decode_packet list_buf bs = (Ok p, rest)" and "length bs < 2 ^ 63"
  shows "wf_packet p" and "get_size (pkt_data p) \<le> unat (data_size p)"
    and "length bs = 20 + unat (data_size p) - length (unread (pkt_data p)) + length rest"
  by (rule decode_Ok_inv[OF assms];
      cases "pkt_data p"; auto simp: wf_packet_def of_type_def length_header_bytes field_sizes)+

text \<open>
  C16. Every decoded packet is well formed: its id has 16 bytes, its strings are valid UTF-8 of at
  most the length of their field, an unhandled packet does not carry a known tag, and no hole
  punch comes out. The announced size is at least the size of the type, and exactly the announced
  bytes are consumed, 16 fewer after a cap. (No Rust buffer holds \<open>2^63\<close> bytes.)
\<close>
theorem decode_type_invariant:
  assumes "buf_impl B view" and "decode_packet B r = (Ok p, r')" and "length (view r) < 2 ^ 63"
  shows "wf_packet p \<and> get_size (pkt_data p) \<le> unat (data_size p)
     \<and> length (view r) = 20 + unat (data_size p) - length (unread (pkt_data p)) + length (view r')"
proof -
  from assms have "decode_packet list_buf (view r) = (Ok p, view r')"
    using buf_impl.decode_packet_view[OF assms(1)] by blast
  from decode_Ok_wf[OF this assms(3)] show ?thesis by blast
qed

theorem decode_type_invariant_witness:
  "wf_packet sample_game \<and> get_size (pkt_data sample_game) \<le> unat (data_size sample_game)
     \<and> length (packet_bytes sample_game @ []) = 20 + unat (data_size sample_game)
         - length (unread (pkt_data sample_game)) + length (unread (pkt_data sample_game) @ [])"
proof (rule decode_type_invariant[OF list_reader.buf_impl_axioms decode_packet_run[OF sample_game_ok]])
  show "length (packet_bytes sample_game @ []) < 2 ^ 63"
    using length_packet_bytes[OF wf_packet_sized[OF sample_game_ok(1)]]
    by (simp add: sample_game_def field_sizes)
qed

text \<open>
  A relayed packet survives: whatever was decoded, its resized form is framed, and encoding
  and decoding that gives it back.
\<close>
theorem decode_resize_stable:
  assumes "buf_impl B view" and "decode_packet B r = (Ok p, r')" and "length (view r) < 2 ^ 63"
    and "view r2 = packet_bytes (resize p) @ rest"
  shows "framed (resize p) \<and> fst (decode_packet B r2) = Ok (resize p)"
proof -
  from assms have "decode_packet list_buf (view r) = (Ok p, view r')"
    using buf_impl.decode_packet_view[OF assms(1)] by blast
  from decode_Ok_wf[OF this assms(3)] have "wf_packet (resize p)" and "framed (resize p)"
    by (simp_all add: wf_packet_def framed_resize)
  with decode_packet_bytes[OF assms(1) _ _ assms(4)] show ?thesis by fastforce
qed

text \<open>A game packet announced 4 bytes too long, as a client may send it.\<close>

definition padded_game_bytes :: "u8 list" where
  "padded_game_bytes = header_bytes guid_default 4 70 @ data_bytes (pkt_data sample_game) @ [1, 2, 3, 4]"

lemma padded_game_decodes:
  "decode_packet list_buf padded_game_bytes = (Ok (sample_game\<lparr>data_size := 70\<rparr>), [])"
proof -
  have len: "length (data_bytes (pkt_data sample_game)) = 66"
    by (simp add: length_data_bytes sample_game_def field_sizes)
  have "decode_data list_buf 4 70 (data_bytes (pkt_data sample_game) @ [1, 2, 3, 4]) =
      (Ok (pkt_data sample_game), [1, 2, 3, 4])"
    by (simp add: decode_data_def decode_game_def sample_game_def sample_stage_wf field_sizes)
  moreover have "skip_padding list_buf 70 (pkt_data sample_game) [1, 2, 3, 4] = (Ok (), [])"
    by (simp add: skip_padding_enough sample_game_def field_sizes)
  ultimately show ?thesis
    using len by (simp add: padded_game_bytes_def header_run sample_game_def)
qed

theorem decode_resize_stable_witness:
  "framed (resize (sample_game\<lparr>data_size := 70\<rparr>))
     \<and> fst (decode_packet list_buf (packet_bytes (resize (sample_game\<lparr>data_size := 70\<rparr>)) @ [])) =
         Ok (resize (sample_game\<lparr>data_size := 70\<rparr>))"
proof (rule decode_resize_stable[OF list_reader.buf_impl_axioms padded_game_decodes _ refl])
  show "length padded_game_bytes < 2 ^ 63"
    by (simp add: padded_game_bytes_def length_header_bytes sample_game_def)
qed

section \<open>Panics and errors\<close>

text \<open>
  C18. A complete frame that announces at least the size of its type never makes the decoder panic:
  it gives the packet with exactly the announced header, or, for the types with text, reports
  invalid UTF-8.
\<close>
theorem decode_complete_no_panic:
  assumes "buf_impl B view" and "wf_guid g" and "view r = header_bytes g t n @ body"
    and "type_size t n \<le> unat n" and "unat n \<le> length body"
  shows "(\<exists>d. of_type t n d \<and>
        fst (decode_packet B r) = Ok \<lparr>pkt_id = g, data_size = n, pkt_data = d\<rparr>)
     \<or> (has_text t \<and> fst (decode_packet B r) = Err BadUtf8)"
  using decode_enough[OF assms(2,4,5)]
  by (auto simp: buf_impl.decode_packet_fst[OF assms(1)] assms(3))

theorem decode_complete_no_panic_witness:
  "(\<exists>d. of_type 10 32 d \<and> fst (decode_packet list_buf (header_bytes guid_default 10 32 @ replicate 32 65)) =
        Ok \<lparr>pkt_id = guid_default, data_size = 32, pkt_data = d\<rparr>)
     \<or> (has_text 10 \<and>
        fst (decode_packet list_buf (header_bytes guid_default 10 32 @ replicate 32 65)) = Err BadUtf8)"
  by (rule decode_complete_no_panic[OF list_reader.buf_impl_axioms wf_guid_default refl])
     (simp_all add: type_size_def)

text \<open>
  C19. A complete frame that announces less than its type needs is never decoded: the decoder
  panics, either on a read past the end or on the wrapped padding, unless a text field read from
  the bytes that follow is invalid first. Nothing checks the announced size before the reads, so
  the peer decides. (The program installs a panic hook that ends the process.)
\<close>
theorem decode_short_frame_panics:
  assumes "buf_impl B view" and "wf_guid g" and "view r = header_bytes g t n @ body"
    and "unat n < type_size t n" and "unat n \<le> length body" and "length body < 2 ^ 63"
  shows "fst (decode_packet B r) = Panic \<or> (has_text t \<and> fst (decode_packet B r) = Err BadUtf8)"
  using decode_short[OF assms(2,4,5,6)]
  by (simp add: buf_impl.decode_packet_fst[OF assms(1)] assms(3))

text \<open>Twenty bytes: an init packet that announces no data.\<close>
theorem decode_short_frame_panics_witness:
  "fst (decode_packet cursor_buf (cursor_new (header_bytes guid_default 1 0 @ []))) = Panic
     \<or> (has_text 1 \<and>
        fst (decode_packet cursor_buf (cursor_new (header_bytes guid_default 1 0 @ []))) = Err BadUtf8)"
  by (rule decode_short_frame_panics[OF cursor_reader.buf_impl_axioms wf_guid_default cursor_view_new])
     (simp_all add: type_size_def)

text \<open>
  C17. \<open>Packet::check\<close> succeeds exactly on a complete frame, gives its length and leaves the cursor
  behind it; and the decoder answers \<open>NotEnoughData\<close> exactly where \<open>check\<close> does.
\<close>
theorem check_decides_completeness:
  assumes "cursor_impl C"
  shows "(case frame_length (cursor_view c) of
      None \<Rightarrow> fst (packet_check C c) = Err NotEnoughData
    | Some n \<Rightarrow> packet_check C c = (Ok n, c\<lparr>cur_pos := cur_pos c + n\<rparr>))
    \<and> (fst (decode_packet C c) = Err NotEnoughData \<longleftrightarrow> fst (packet_check C c) = Err NotEnoughData)"
proof -
  note check = cursor_impl.packet_check_frame[OF assms, of c]
  have "buf_impl C cursor_view" using assms by (rule cursor_impl.axioms)
  then have "fst (decode_packet C c) = Err NotEnoughData \<longleftrightarrow> frame_length (cursor_view c) = None"
    using decode_incomplete[of "cursor_view c"]
    by (cases "decode_packet list_buf (cursor_view c)") (auto simp: buf_impl.decode_packet_fst)
  with check show ?thesis by (auto split: option.splits)
qed

theorem check_decides_completeness_witness:
  "(case frame_length (cursor_view (cursor_new [1, 2, 3])) of
      None \<Rightarrow> fst (packet_check cursor_buf (cursor_new [1, 2, 3])) = Err NotEnoughData
    | Some n \<Rightarrow> packet_check cursor_buf (cursor_new [1, 2, 3]) =
        (Ok n, (cursor_new [1, 2, 3])\<lparr>cur_pos := cur_pos (cursor_new [1, 2, 3]) + n\<rparr>))
    \<and> (fst (decode_packet cursor_buf (cursor_new [1, 2, 3])) = Err NotEnoughData \<longleftrightarrow>
        fst (packet_check cursor_buf (cursor_new [1, 2, 3])) = Err NotEnoughData)"
  by (rule check_decides_completeness[OF cursor_reader.cursor_impl_axioms])

section \<open>Where encoding and decoding disagree\<close>

text \<open>
  The encoder writes the size stored in the packet, not the size of what it writes. A packet
  whose stored size is larger, as the decoder leaves it after padding, encodes to bytes that are
  not a complete frame: the receiver waits for bytes of the next packet.
\<close>
theorem stale_size_incomplete:
  assumes "buf_impl B view" and "sized_packet p" and "get_size (pkt_data p) < unat (data_size p)"
    and "view r = packet_bytes p"
  shows "fst (decode_packet B r) = Err NotEnoughData"
proof -
  from assms(2) have "wf_guid (pkt_id p)" and "length (data_bytes (pkt_data p)) = get_size (pkt_data p)"
    by (simp_all add: sized_packet_def length_data_bytes)
  with assms(3) show ?thesis
    by (simp add: buf_impl.decode_packet_fst[OF assms(1)] assms(4) packet_bytes_def header_run)
qed

theorem stale_size_incomplete_witness:
  "fst (decode_packet list_buf (packet_bytes (sample_game\<lparr>data_size := 70\<rparr>))) = Err NotEnoughData"
proof (rule stale_size_incomplete[OF list_reader.buf_impl_axioms _ _ refl])
  show "sized_packet (sample_game\<lparr>data_size := 70\<rparr>)"
    by (simp add: sample_game_def sized_packet_def)
  show "get_size (pkt_data (sample_game\<lparr>data_size := 70\<rparr>)) < unat (data_size (sample_game\<lparr>data_size := 70\<rparr>))"
    by (simp add: sample_game_def field_sizes)
qed

text \<open>
  A hole punch does not come back as one: it is written with tag 14, for which the decoder
  has no case, and is read as an unhandled packet.
\<close>
theorem hole_punch_not_decoded:
  assumes "buf_impl B view" and "wf_guid g"
    and "view r = packet_bytes \<lparr>pkt_id = g, data_size = 0, pkt_data = HolePunch\<rparr> @ rest"
  shows "fst (decode_packet B r) = Ok \<lparr>pkt_id = g, data_size = 0, pkt_data = Unhandled 14 []\<rparr>"
proof -
  have "wf_packet \<lparr>pkt_id = g, data_size = 0, pkt_data = Unhandled 14 []\<rparr>"
    and "framed \<lparr>pkt_id = g, data_size = 0, pkt_data = Unhandled 14 []\<rparr>"
    using assms(2) by (simp_all add: wf_packet_def framed_def)
  moreover have "view r = packet_bytes \<lparr>pkt_id = g, data_size = 0, pkt_data = Unhandled 14 []\<rparr> @ rest"
    using assms(3) by (simp add: packet_bytes_def)
  ultimately show ?thesis using decode_packet_bytes[OF assms(1)] by fastforce
qed

theorem hole_punch_not_decoded_witness:
  "fst (decode_packet list_buf
      (packet_bytes \<lparr>pkt_id = guid_default, data_size = 0, pkt_data = HolePunch\<rparr> @ [])) =
    Ok \<lparr>pkt_id = guid_default, data_size = 0, pkt_data = Unhandled 14 []\<rparr>"
  by (rule hole_punch_not_decoded[OF list_reader.buf_impl_axioms wf_guid_default refl])

section \<open>The test generator\<close>

lemma arbitrary_frame:
  assumes "cursor_impl C"
  shows "fst (decode_packet C (cursor_new (arbitrary_bytes e ids draws))) =
     fst (decode_packet list_buf (header_bytes (guid_from (map ids [0..<16])) e
        (word_of_nat (arbitrary_size e)) @ map (\<lambda>i. draws i mod 128) [0..<arbitrary_size e]))"
proof -
  have "buf_impl C cursor_view" using assms by (rule cursor_impl.axioms)
  then show ?thesis
    by (simp only: buf_impl.decode_packet_fst cursor_view_new arbitrary_bytes_def Let_def
        header_bytes_def guid_from_def guid.simps append_assoc)
qed

lemma arbitrary_size_word: "unat (word_of_nat (arbitrary_size e) :: u16) = arbitrary_size e"
  by (simp add: arbitrary_size_def field_sizes)

lemma ascii_draws: "ascii (map (\<lambda>i. draws i mod 128) is)"
proof -
  have "b mod 128 < (128 :: u8)" for b :: u8
    by (simp add: word_less_nat_alt unat_mod)
  then show ?thesis by (simp add: ascii_def)
qed

text \<open>
  The generator of random packets for the tests yields a well-formed packet for every type it
  can choose except \<open>Shine\<close>: there it writes 4 data bytes where the decoder reads 5, and panics.
\<close>
theorem arbitrary_panics_on_shine:
  assumes "cursor_impl C" and "e \<in> set arbitrary_options"
  shows "(arbitrary_packet C e ids draws = Panic \<longleftrightarrow> e = 9) \<and>
     (e \<noteq> 9 \<longrightarrow> (\<exists>p. arbitrary_packet C e ids draws = Ok p \<and> wf_packet p))"
proof -
  let ?g = "guid_from (map ids [0..<16])" and ?n = "word_of_nat (arbitrary_size e) :: u16"
  let ?body = "map (\<lambda>i. draws i mod 128) [0..<arbitrary_size e]"
  have g: "wf_guid ?g" by (simp add: wf_guid_def guid_from_def)
  have body: "unat ?n \<le> length ?body" "length ?body < 2 ^ 63"
    by (simp_all add: arbitrary_size_word) (simp add: arbitrary_size_def field_sizes)
  note frame = arbitrary_frame[OF assms(1), of e ids draws]
  show ?thesis
  proof (cases "e = 9")
    case True
    then have "unat ?n < type_size e ?n" "\<not> has_text e"
      by (simp_all add: arbitrary_size_def type_size_def has_text_def)
    with decode_short[OF g _ body, of e] frame True show ?thesis
      by (simp add: arbitrary_packet_def)
  next
    case False
    then have "type_size e ?n \<le> unat ?n"
      using assms(2) by (auto simp: arbitrary_options_def arbitrary_size_def type_size_def field_sizes)
    from decode_enough[OF g this body(1)]
    consider d where "of_type e ?n d"
        "fst (decode_packet list_buf (header_bytes ?g e ?n @ ?body)) =
           Ok \<lparr>pkt_id = ?g, data_size = ?n, pkt_data = d\<rparr>"
      | "fst (decode_packet list_buf (header_bytes ?g e ?n @ ?body)) = Err BadUtf8"
      by fastforce
    then show ?thesis
    proof cases
      case 1
      with False frame g show ?thesis
        by (simp add: arbitrary_packet_def wf_packet_def of_type_def)
    next
      case 2
      have "fst (decode_packet list_buf (header_bytes ?g e ?n @ ?body)) \<noteq> Err BadUtf8"
        using ascii_ok_data[of e ?n] ascii_draws[of draws "[0..<arbitrary_size e]"] body
        by (cases "decode_data list_buf e ?n ?body")
           (auto simp: header_run[OF g] ascii_ok_def bindp_def skip_padding_def primu_def Let_def
            split: prod.splits res.splits option.splits)
      with 2 show ?thesis by simp
    qed
  qed
qed

theorem arbitrary_panics_on_shine_witness:
  "(arbitrary_packet cursor_buf 9 (\<lambda>_. 0) (\<lambda>_. 1) = Panic \<longleftrightarrow> (9::u16) = 9) \<and>
   ((9::u16) \<noteq> 9 \<longrightarrow> (\<exists>p. arbitrary_packet cursor_buf 9 (\<lambda>_. 0) (\<lambda>_. 1) = Ok p \<and> wf_packet p))"
  by (rule arbitrary_panics_on_shine[OF cursor_reader.cursor_impl_axioms])
     (simp add: arbitrary_options_def)

end
