(* ===== verification/Async.thy ===== *)
theory Async
  imports SmoPrelude
begin

text \<open>
  Asynchronous code. An \<open>async\<close> function awaits sockets, channels and locks, so it need not come
  back: its model is a program with an optional outcome, where \<open>None\<close> stands for a future that is
  never resolved, be it a wait without end or a loop without end. Loops are \<open>partial_function\<close>s
  over this monad, so that a claim that one returns has to be proved.
\<close>

type_synonym ('a, 'e, 's) async = "'s \<Rightarrow> (('a, 'e) res \<times> 's) option"

definition aret :: "'a \<Rightarrow> ('a, 'e, 's) async" where
  "aret a s = Some (Ok a, s)"

definition athrow :: "'e \<Rightarrow> ('a, 'e, 's) async" where
  "athrow e s = Some (Err e, s)"

definition apanic :: "('a, 'e, 's) async" where
  "apanic s = Some (Panic, s)"

definition apending :: "('a, 'e, 's) async" where
  "apending s = None"

definition agets :: "('s \<Rightarrow> 'a) \<Rightarrow> ('a, 'e, 's) async" where
  "agets f s = Some (Ok (f s), s)"

definition amodify :: "('s \<Rightarrow> 's) \<Rightarrow> (unit, 'e, 's) async" where
  "amodify f s = Some (Ok (), f s)"

text \<open>Code between two awaits, with the conversion \<open>From\<close> of its errors.\<close>

definition sync :: "('e \<Rightarrow> 'f) \<Rightarrow> ('a, 'e, 's) prog \<Rightarrow> ('a, 'f, 's) async" where
  "sync f m s = Some (apfst (map_err f) (m s))"

text \<open>Sequencing: \<open>m.await?\<close> and what follows it.\<close>

definition after :: "('a \<Rightarrow> ('b, 'e, 's) async) \<Rightarrow> ('a, 'e) res \<times> 's \<Rightarrow> (('b, 'e) res \<times> 's) option" where
  "after f out = (case out of
       (Ok a, s) \<Rightarrow> f a s
     | (Err e, s) \<Rightarrow> Some (Err e, s)
     | (Panic, s) \<Rightarrow> Some (Panic, s))"

definition abind :: "('a, 'e, 's) async \<Rightarrow> ('a \<Rightarrow> ('b, 'e, 's) async) \<Rightarrow> ('b, 'e, 's) async" where
  "abind m f s = Option.bind (m s) (after f)"

text \<open>\<open>let result = m.await\<close>: the error is a value the code goes on with. A panic is not.\<close>

definition atry :: "('a, 'e, 's) async \<Rightarrow> ('e option, 'f, 's) async" where
  "atry m s = map_option (\<lambda>(r, s'). (case r of Ok a \<Rightarrow> Ok None | Err e \<Rightarrow> Ok (Some e) | Panic \<Rightarrow> Panic, s')) (m s)"

text \<open>A \<open>for\<close> loop whose body may end it with \<open>?\<close>.\<close>

fun for_each :: "('x \<Rightarrow> (unit, 'e, 's) async) \<Rightarrow> 'x list \<Rightarrow> (unit, 'e, 's) async" where
  "for_each f [] = aret ()"
| "for_each f (x # xs) = abind (f x) (\<lambda>_. for_each f xs)"

text \<open>A call that works on a part of the state.\<close>

definition zoom :: "('s \<Rightarrow> 't) \<Rightarrow> ('t \<Rightarrow> 's \<Rightarrow> 's) \<Rightarrow> ('a, 'e, 't) async \<Rightarrow> ('a, 'e, 's) async" where
  "zoom get put m s = map_option (apsnd (\<lambda>t. put t s)) (m (get s))"

section \<open>Running programs\<close>

lemma async_run [simp]:
  "aret a s = Some (Ok a, s)"
  "athrow e s = Some (Err e, s)"
  "apanic s = Some (Panic, s)"
  "apending s = None"
  "agets g s = Some (Ok (g s), s)"
  "amodify h s = Some (Ok (), h s)"
  by (simp_all add: aret_def athrow_def apanic_def apending_def agets_def amodify_def)

lemma after_simps [simp]:
  "after f (Ok a, s) = f a s"
  "after f (Err e, s) = Some (Err e, s)"
  "after f (Panic, s) = Some (Panic, s)"
  by (simp_all add: after_def)

lemma abind_None [simp]: "m s = None \<Longrightarrow> abind m f s = None"
  by (simp add: abind_def)

lemma abind_Ok [simp]: "m s = Some (Ok a, s') \<Longrightarrow> abind m f s = f a s'"
  by (simp add: abind_def)

lemma abind_Err [simp]: "m s = Some (Err e, s') \<Longrightarrow> abind m f s = Some (Err e, s')"
  by (simp add: abind_def)

lemma abind_Panic [simp]: "m s = Some (Panic, s') \<Longrightarrow> abind m f s = Some (Panic, s')"
  by (simp add: abind_def)

lemma zoom_None [simp]: "m (get s) = None \<Longrightarrow> zoom get put m s = None"
  by (simp add: zoom_def)

lemma zoom_Some [simp]: "m (get s) = Some (r, t) \<Longrightarrow> zoom get put m s = Some (r, put t s)"
  by (simp add: zoom_def)

lemma atry_simps [simp]:
  "m s = None \<Longrightarrow> atry m s = None"
  "m s = Some (Ok a, s') \<Longrightarrow> atry m s = Some (Ok None, s')"
  "m s = Some (Err e, s') \<Longrightarrow> atry m s = Some (Ok (Some e), s')"
  "m s = Some (Panic, s') \<Longrightarrow> atry m s = Some (Panic, s')"
  by (simp_all add: atry_def)

lemma sync_simps [simp]:
  "m s = (Ok a, s') \<Longrightarrow> sync f m s = Some (Ok a, s')"
  "m s = (Err e, s') \<Longrightarrow> sync f m s = Some (Err (f e), s')"
  "m s = (Panic, s') \<Longrightarrow> sync f m s = Some (Panic, s')"
  by (simp_all add: sync_def)

lemma sync_eq:
  "sync f m s = Some (Ok a, s') \<longleftrightarrow> m s = (Ok a, s')"
  "sync f m s = Some (Err e', s') \<longleftrightarrow> (\<exists>e. m s = (Err e, s') \<and> e' = f e)"
  "sync f m s = Some (Panic, s') \<longleftrightarrow> m s = (Panic, s')"
  by (cases "m s"; cases "fst (m s)"; auto simp: sync_def)+

lemma atry_eq:
  "atry m s = Some (Ok x, s') \<longleftrightarrow>
     (\<exists>r. m s = Some (r, s') \<and> (x = None \<and> (\<exists>a. r = Ok a) \<or> (\<exists>e. x = Some e \<and> r = Err e)))"
  "atry m s \<noteq> Some (Err e, s')"
  "atry m s = Some (Panic, s') \<longleftrightarrow> m s = Some (Panic, s')"
proof -
  have cases: "m s = None \<or> (\<exists>a t. m s = Some (Ok a, t)) \<or> (\<exists>e t. m s = Some (Err e, t)) \<or>
      (\<exists>t. m s = Some (Panic, t))"
    by (metis not_None_eq res.exhaust surj_pair)
  then show "atry m s = Some (Ok x, s') \<longleftrightarrow>
     (\<exists>r. m s = Some (r, s') \<and> (x = None \<and> (\<exists>a. r = Ok a) \<or> (\<exists>e. x = Some e \<and> r = Err e)))"
    and "atry m s \<noteq> Some (Err e, s')"
    and "atry m s = Some (Panic, s') \<longleftrightarrow> m s = Some (Panic, s')"
    by (auto simp: atry_def)
qed

text \<open>The outcomes of a sequence, one by one.\<close>

lemma abind_cases:
  assumes "abind m f s = Some (r, t)"
  obtains (ok) a s' where "m s = Some (Ok a, s')" and "f a s' = Some (r, t)"
  | (err) e where "m s = Some (Err e, t)" and "r = Err e"
  | (panic) "m s = Some (Panic, t)" and "r = Panic"
proof (cases "m s")
  case None
  with assms show thesis by simp
next
  case (Some out)
  obtain q s' where "out = (q, s')" by fastforce
  with Some assms that show thesis by (cases q) auto
qed

lemma abind_eq_Ok:
  "abind m f s = Some (Ok b, t) \<longleftrightarrow> (\<exists>a s'. m s = Some (Ok a, s') \<and> f a s' = Some (Ok b, t))"
  by (auto elim!: abind_cases)

lemma abind_OkE:
  assumes "abind m f s = Some (Ok b, t)"
  obtains a s' where "m s = Some (Ok a, s')" and "f a s' = Some (Ok b, t)"
  using assms by (auto simp: abind_eq_Ok)

lemma abind_assoc: "abind (abind m f) g = abind m (\<lambda>a. abind (f a) g)"
proof
  fix s
  show "abind (abind m f) g s = abind m (\<lambda>a. abind (f a) g) s"
  proof (cases "m s")
    case (Some out)
    obtain q s' where "out = (q, s')" by fastforce
    with Some show ?thesis by (cases q) (simp_all add: abind_def)
  qed simp
qed

lemma abind_aret [simp]: "abind (aret a) f = f a"
  by (simp add: abind_def fun_eq_iff)

lemma abind_aret_right [simp]: "abind m aret = m"
proof
  fix s
  show "abind m aret s = m s"
  proof (cases "m s")
    case (Some out)
    then show ?thesis by (cases out; cases "fst out") simp_all
  qed simp
qed

lemma for_each_append:
  "for_each f (xs @ ys) = abind (for_each f xs) (\<lambda>_. for_each f ys)"
proof (induction xs)
  case (Cons x xs)
  show ?case by (simp only: append_Cons for_each.simps Cons.IH abind_assoc)
qed simp

text \<open>A loop may call itself behind an await.\<close>

lemma after_mono:
  assumes "\<And>a s. mono_option (\<lambda>F. f F a s)"
  shows "mono_option (\<lambda>F. after (f F) out)"
proof -
  obtain r s where out: "out = (r, s)" by fastforce
  show ?thesis
  proof (cases r)
    case (Ok a)
    with out assms show ?thesis by simp
  qed (simp_all add: out monotone_def flat_ord_def)
qed

lemma abind_mono [partial_function_mono]:
  assumes "mono_option (\<lambda>F. m F s)" and "\<And>a s. mono_option (\<lambda>F. f F a s)"
  shows "mono_option (\<lambda>F. abind (m F) (f F) s)"
  unfolding abind_def by (intro bind_mono assms(1) after_mono assms(2))

section \<open>Two loops\<close>

text \<open>
  \<open>loop { if let Some(x) = try()? { return Ok(x) } refill().await? }\<close>, as both connections read
  their packets, and its induction rule: one case for each way a turn can go.
\<close>

partial_function (option) retry ::
  "('a option, 'e, 's) async \<Rightarrow> (unit, 'e, 's) async \<Rightarrow> ('a, 'e, 's) async" where
  "retry attempt refill s =
     abind attempt (\<lambda>r s. case r of
         Some a \<Rightarrow> aret a s
       | None \<Rightarrow> abind refill (\<lambda>_ s. retry attempt refill s) s) s"

lemma retry_induct [consumes 1, case_names found bad panics refused broken again]:
  assumes "retry m f s = Some (r, s')"
    and "\<And>s a s'. m s = Some (Ok (Some a), s') \<Longrightarrow> P s (Ok a) s'"
    and "\<And>s e s'. m s = Some (Err e, s') \<Longrightarrow> P s (Err e) s'"
    and "\<And>s s'. m s = Some (Panic, s') \<Longrightarrow> P s Panic s'"
    and "\<And>s s0 e s'. m s = Some (Ok None, s0) \<Longrightarrow> f s0 = Some (Err e, s') \<Longrightarrow> P s (Err e) s'"
    and "\<And>s s0 s'. m s = Some (Ok None, s0) \<Longrightarrow> f s0 = Some (Panic, s') \<Longrightarrow> P s Panic s'"
    and "\<And>s s0 s1 r s'. m s = Some (Ok None, s0) \<Longrightarrow> f s0 = Some (Ok (), s1) \<Longrightarrow> P s1 r s' \<Longrightarrow>
      P s r s'"
  shows "P s r s'"
proof -
  have "m' = m \<longrightarrow> f' = f \<longrightarrow> P s (fst y) (snd y)" if "retry m' f' s = Some y" for m' f' s y
  proof (rule retry.raw_induct[where P = "\<lambda>m' f' s y. m' = m \<longrightarrow> f' = f \<longrightarrow> P s (fst y) (snd y)",
        OF _ that], intro impI)
    fix F m' f' s y
    assume step: "\<And>m' f' s y. F m' f' s = Some y \<Longrightarrow> m' = m \<longrightarrow> f' = f \<longrightarrow> P s (fst y) (snd y)"
      and body: "abind m' (\<lambda>r s. case r of None \<Rightarrow> abind f' (\<lambda>_ s. F m' f' s) s | Some a \<Rightarrow> aret a s) s = Some y"
      and eqs: "m' = m" "f' = f"
    from body have "abind m (\<lambda>r s. case r of None \<Rightarrow> abind f (\<lambda>_ s. F m f s) s | Some a \<Rightarrow> aret a s) s =
        Some (fst y, snd y)"
      unfolding eqs by simp
    then show "P s (fst y) (snd y)"
    proof (cases rule: abind_cases)
      case (ok q s0)
      show ?thesis
      proof (cases q)
        case None
        with ok have m: "m s = Some (Ok None, s0)"
          and rest: "abind f (\<lambda>_ s. F m f s) s0 = Some (fst y, snd y)" by auto
        from rest show ?thesis
        proof (cases rule: abind_cases)
          case (ok u s1)
          from step[OF ok(2)] have "P s1 (fst y) (snd y)" by simp
          with assms(7)[OF m] ok show ?thesis by simp
        qed (use assms(5,6)[OF m] in auto)
      qed (use ok assms(2) in auto)
    qed (use assms(3,4) in auto)
  qed
  with assms(1) show ?thesis by fastforce
qed

text \<open>
  \<open>while amount < len { amount += op.await }\<close>, as both connections write their packets.
\<close>

partial_function (option) count_loop ::
  "(nat, 'e, 's) async \<Rightarrow> nat \<Rightarrow> nat \<Rightarrow> (unit, 'e, 's) async" where
  "count_loop op len amount s =
     (if amount < len
      then abind op (\<lambda>last s. count_loop op len (amount + last) s) s
      else aret () s)"

lemma count_loop_induct [consumes 1, case_names finished again failed panics]:
  assumes "count_loop op len amount s = Some (r, s')"
    and "\<And>amount s. \<not> amount < len \<Longrightarrow> P amount s (Ok ()) s"
    and "\<And>amount s n s1 r s'. amount < len \<Longrightarrow> op s = Some (Ok n, s1) \<Longrightarrow> P (amount + n) s1 r s' \<Longrightarrow>
      P amount s r s'"
    and "\<And>amount s e s'. amount < len \<Longrightarrow> op s = Some (Err e, s') \<Longrightarrow> P amount s (Err e) s'"
    and "\<And>amount s s'. amount < len \<Longrightarrow> op s = Some (Panic, s') \<Longrightarrow> P amount s Panic s'"
  shows "P amount s r s'"
proof -
  have "op' = op \<longrightarrow> len' = len \<longrightarrow> P amount s (fst y) (snd y)"
    if "count_loop op' len' amount s = Some y" for op' len' amount s y
  proof (rule count_loop.raw_induct[where P = "\<lambda>op' len' amount s y.
        op' = op \<longrightarrow> len' = len \<longrightarrow> P amount s (fst y) (snd y)", OF _ that], intro impI)
    fix F op' len' amount s y
    assume step: "\<And>op' len' amount s y. F op' len' amount s = Some y \<Longrightarrow>
        op' = op \<longrightarrow> len' = len \<longrightarrow> P amount s (fst y) (snd y)"
      and body: "(if amount < len' then abind op' (\<lambda>last s. F op' len' (amount + last) s) s
          else aret () s) = Some y"
      and [simp]: "op' = op" "len' = len"
    show "P amount s (fst y) (snd y)"
    proof (cases "amount < len")
      case True
      with body have "abind op (\<lambda>last s. F op len (amount + last) s) s = Some (fst y, snd y)" by simp
      then show ?thesis
      proof (cases rule: abind_cases)
        case (ok n s1)
        from step[OF ok(2)] have "P (amount + n) s1 (fst y) (snd y)" by simp
        with assms(3)[OF True ok(1)] show ?thesis by simp
      qed (use assms(4,5)[OF True] in auto)
    qed (use body assms(2)[of amount s] in auto)
  qed
  with assms(1) show ?thesis by fastforce
qed

lemma count_loop_returns:
  assumes live: "\<And>s. op s \<noteq> None" and progress: "\<And>s s'. op s \<noteq> Some (Ok 0, s')"
  shows "\<exists>r s'. count_loop op len amount s = Some (r, s')"
proof (induction "len - amount" arbitrary: amount s rule: less_induct)
  case less
  show ?case
  proof (cases "amount < len")
    case True
    obtain r s1 where w: "op s = Some (r, s1)" using live[of s] by auto
    show ?thesis
    proof (cases r)
      case (Ok n)
      with w progress[of s s1] have "0 < n" by (cases n) auto
      with True less[of "amount + n" s1] w Ok show ?thesis
        by (simp add: count_loop.simps[of op len amount])
    qed (use True w in \<open>simp_all add: count_loop.simps[of op len amount]\<close>)
  qed (simp add: count_loop.simps[of op len amount])
qed

lemma count_loop_once:
  assumes "0 < len" and "op s = Some (Ok len, s1)"
  shows "count_loop op len 0 s = Some (Ok (), s1)"
  using assms by (simp add: count_loop.simps[of op len 0] count_loop.simps[of op len len])

lemma count_loop_fails:
  assumes "0 < len"
  shows "op s = Some (Err e, s1) \<Longrightarrow> count_loop op len 0 s = Some (Err e, s1)"
    and "op s = Some (Panic, s1) \<Longrightarrow> count_loop op len 0 s = Some (Panic, s1)"
  using assms by (simp_all add: count_loop.simps[of op len 0])

end
