(* ===== verification/Connection.thy ===== *)
theory Connection
  imports Packet_Facts Async
begin

text \<open>
  The TCP side of a client, \<open>src/net/connection.rs\<close>: a buffered socket, the bytes received and not
  yet parsed, and the four operations that move packets. The socket is tokio's; it is a record of
  its operations with a contract over two logs, the bytes it has delivered and the bytes it has
  accepted.
\<close>

section \<open>Addresses of the standard library\<close>

datatype ip_addr = V4 u32 | V6 "128 word"

datatype socket_addr = SocketV4 u32 u16 | SocketV6 "128 word" u16 u32 u32

fun socket_addr_new :: "ip_addr \<Rightarrow> u16 \<Rightarrow> socket_addr" where
  "socket_addr_new (V4 a) p = SocketV4 a p"
| "socket_addr_new (V6 a) p = SocketV6 a p 0 0"

fun addr_ip :: "socket_addr \<Rightarrow> ip_addr" where
  "addr_ip (SocketV4 a p) = V4 a"
| "addr_ip (SocketV6 a p flow scope) = V6 a"

fun addr_port :: "socket_addr \<Rightarrow> u16" where
  "addr_port (SocketV4 a p) = p"
| "addr_port (SocketV6 a p flow scope) = p"

lemma socket_addr_new_parts [simp]:
  "addr_ip (socket_addr_new ip p) = ip" "addr_port (socket_addr_new ip p) = p"
  by (cases ip; simp)+

section \<open>The socket\<close>

text \<open>
  \<open>TcpStream\<close> (\<open>'n\<close>) and the \<open>BufWriter\<close> around it (\<open>'s\<close>). \<open>read_buf\<close> appends what it reads to the
  buffer it is given; the error of an operation is an \<open>io::Error\<close>.
\<close>

record ('b, 'n, 's) tcp =
  tcp_peer_addr :: "'n \<Rightarrow> socket_addr option"
  tcp_buf_writer :: "'n \<Rightarrow> 's"
  tcp_read_buf :: "(nat, unit, 's \<times> 'b) async"
  tcp_write :: "u8 list \<Rightarrow> (nat, unit, 's) async"
  tcp_flush :: "(unit, unit, 's) async"
  tcp_shutdown :: "(unit, unit, 's) async"

text \<open>The conversion of an \<open>io::Error\<close> by \<open>?\<close>.\<close>

definition io :: "('a, unit, 's) async \<Rightarrow> ('a, smo_error, 's) async" where
  "io m s = map_option (apfst (map_err (\<lambda>_. Io))) (m s)"

lemma io_simps [simp]:
  "m s = None \<Longrightarrow> io m s = None"
  "m s = Some (Ok a, s') \<Longrightarrow> io m s = Some (Ok a, s')"
  "m s = Some (Err u, s') \<Longrightarrow> io m s = Some (Err Io, s')"
  "m s = Some (Panic, s') \<Longrightarrow> io m s = Some (Panic, s')"
  by (simp_all add: io_def)

lemma io_eq [simp]:
  "io m s = None \<longleftrightarrow> m s = None"
  "io m s = Some (Ok a, s') \<longleftrightarrow> m s = Some (Ok a, s')"
  "io m s = Some (Err e, s') \<longleftrightarrow> e = Io \<and> m s = Some (Err (), s')"
  "io m s = Some (Panic, s') \<longleftrightarrow> m s = Some (Panic, s')"
proof -
  have cases: "m s = None \<or> (\<exists>r t. m s = Some (r, t))" by (cases "m s") auto
  show "io m s = None \<longleftrightarrow> m s = None" by (simp add: io_def)
  from cases show "io m s = Some (Ok a, s') \<longleftrightarrow> m s = Some (Ok a, s')"
    and "io m s = Some (Err e, s') \<longleftrightarrow> e = Io \<and> m s = Some (Err (), s')"
    and "io m s = Some (Panic, s') \<longleftrightarrow> m s = Some (Panic, s')"
    by (auto simp: io_def map_err_eq)
qed

section \<open>The connection\<close>

record ('b, 's) connection =
  conn_addr :: socket_addr
  conn_socket :: 's
  conn_buff :: 'b

definition connection_new :: "'b bytes_crate \<Rightarrow> ('b, 'n, 's) tcp \<Rightarrow> 'n \<Rightarrow> (('b, 's) connection, 'e) res" where
  "connection_new K T stream =
     (case tcp_peer_addr T stream of
        None \<Rightarrow> Panic
      | Some a \<Rightarrow> Ok \<lparr>conn_addr = a, conn_socket = tcp_buf_writer T stream,
                     conn_buff = bc_with_capacity K 1024\<rparr>)"

text \<open>
  The body of \<open>parse_packet\<close>, which \<open>UdpConnection\<close> repeats word for word, as a program on the
  buffer: check with a cursor, rewind it, decode, and drop the checked length from the buffer. On
  an error nothing is dropped.
\<close>

definition parse_buffer :: "'b bytes_crate \<Rightarrow> (packet option, smo_error, 'b) prog" where
  "parse_buffer K b =
     (let C = bc_cursor K in
      case packet_check C (cursor_new (bc_slice K b)) of
        (Ok _, buf) \<Rightarrow>
          let len = cur_pos buf in
          (case decode_packet C (buf\<lparr>cur_pos := 0\<rparr>) of
             (Ok p, _) \<Rightarrow> bindp (primu (advance (bc_get K) len)) (\<lambda>_. ret (Some p)) b
           | (Err e, _) \<Rightarrow> (Err (Encoding e), b)
           | (Panic, _) \<Rightarrow> (Panic, b))
      | (Err e, _) \<Rightarrow> if e = NotEnoughData then (Ok None, b) else (Err (Encoding e), b)
      | (Panic, _) \<Rightarrow> (Panic, b))"

definition parse_packet :: "'b bytes_crate \<Rightarrow> (packet option, smo_error, ('b, 's) connection) prog" where
  "parse_packet K c = apsnd (\<lambda>b. c\<lparr>conn_buff := b\<rparr>) (parse_buffer K (conn_buff c))"

text \<open>\<open>self.socket.read_buf(&mut self.buff)\<close> borrows two fields of the connection.\<close>

definition read_socket ::
  "'b bytes_crate \<Rightarrow> ('b, 'n, 's) tcp \<Rightarrow> (unit, smo_error, ('b, 's) connection) async" where
  "read_socket K T =
     abind (zoom (\<lambda>c. (conn_socket c, conn_buff c))
                 (\<lambda>(s, b) c. c\<lparr>conn_socket := s, conn_buff := b\<rparr>)
                 (io (tcp_read_buf T)))
       (\<lambda>read_amount c.
          if read_amount = 0 then
            (if bc_slice K (conn_buff c) = []
             then athrow (Encoding ConnectionClose) c
             else athrow (Encoding ConnectionReset) c)
          else aret () c)"

definition read_packet ::
  "'b bytes_crate \<Rightarrow> ('b, 'n, 's) tcp \<Rightarrow> (packet, smo_error, ('b, 's) connection) async" where
  "read_packet K T = retry (sync (\<lambda>e. e) (parse_packet K)) (read_socket K T)"

text \<open>
  \<open>while amount < buff.len()\<close>: every turn writes the whole buffer again, whatever the turns before
  it got through.
\<close>

definition write_loop :: "('b, 'n, 's) tcp \<Rightarrow> u8 list \<Rightarrow> (unit, smo_error, 's) async" where
  "write_loop T bs = count_loop (io (tcp_write T bs)) (length bs) 0"

text \<open>The packet is encoded into a buffer of its own.\<close>

definition encoded :: "'b bytes_crate \<Rightarrow> packet \<Rightarrow> (u8 list, smo_error) res" where
  "encoded K p =
     (case encode_packet (bc_put K) p (bc_with_capacity K MAX_PACKET_SIZE) of
        (Ok _, b) \<Rightarrow> Ok (bc_slice K b)
      | (Err e, b) \<Rightarrow> Err (Encoding e)
      | (Panic, b) \<Rightarrow> Panic)"

definition write_packet ::
  "'b bytes_crate \<Rightarrow> ('b, 'n, 's) tcp \<Rightarrow> packet \<Rightarrow> (unit, smo_error, ('b, 's) connection) async" where
  "write_packet K T p =
     abind (\<lambda>c. Some (encoded K p, c)) (\<lambda>bs.
     zoom conn_socket (\<lambda>s c. c\<lparr>conn_socket := s\<rparr>)
       (abind (write_loop T bs) (\<lambda>_.
        abind (io (tcp_flush T)) (\<lambda>_.
        aret ()))))"

end
