(* ===== verification/Stream_Frames.thy ===== *)
theory Stream_Frames
  imports Connection
begin

text \<open>
  The byte stream of a connection as a sequence of frames. \<open>parse_result\<close> is what \<open>parse_packet\<close>
  does to the bytes in its buffer; \<open>packets\<close> iterates it. Both are stable when more bytes arrive
  behind, which is why the way a stream is cut into reads does not matter.
\<close>

section \<open>A successful read does not look ahead\<close>

definition prefix_ok :: "('a, u8 list) decoder \<Rightarrow> bool" where
  "prefix_ok m \<longleftrightarrow>
     (\<forall>bs a rest extra. m bs = (Ok a, rest) \<longrightarrow> m (bs @ extra) = (Ok a, rest @ extra))"

lemma prefix_okD: "prefix_ok m \<Longrightarrow> m bs = (Ok a, rest) \<Longrightarrow> m (bs @ extra) = (Ok a, rest @ extra)"
  by (simp add: prefix_ok_def)

named_theorems prefix_rules "decoders whose success depends on the bytes read only"

lemma prefix_ok_bindp [prefix_rules]:
  "prefix_ok m \<Longrightarrow> (\<And>a. prefix_ok (f a)) \<Longrightarrow> prefix_ok (bindp m f)"
  unfolding prefix_ok_def bindp_eq_Ok by blast

lemma prefix_ok_ret [prefix_rules]: "prefix_ok (ret a)"
  by (simp add: prefix_ok_def)

lemma prefix_ok_throw [prefix_rules]: "prefix_ok (throw e)"
  by (simp add: prefix_ok_def)

lemma prefix_ok_if [prefix_rules]:
  "prefix_ok m \<Longrightarrow> prefix_ok p \<Longrightarrow> prefix_ok (if c then m else p)"
  by simp

lemma prefix_ok_le [prefix_rules]: "prefix_ok (prim (read_le n))"
  by (auto simp: prefix_ok_def prim_eq_Ok read_le_Some)

lemma prefix_ok_bytes [prefix_rules]: "prefix_ok (prim (split_at n))"
  by (auto simp: prefix_ok_def prim_eq_Ok split_at_Some)

lemma prefix_ok_utf8 [prefix_rules]: "prefix_ok (from_utf8 bs)"
  by (simp add: from_utf8_def prefix_ok_ret prefix_ok_throw)

lemma prefix_ok_advance [prefix_rules]: "prefix_ok (primu (advance list_buf n))"
  by (auto simp: prefix_ok_def primu_eq_Ok)

lemma prefix_ok_weights [prefix_rules]: "prefix_ok (get_weights list_buf n)"
proof (induction n)
  case 0
  show ?case unfolding get_weights.simps by (rule prefix_ok_ret)
next
  case (Suc n)
  show ?case unfolding get_weights.simps list_buf_ops by (intro prefix_rules Suc.IH)
qed

lemma prefix_ok_data: "prefix_ok (decode_data list_buf t n)"
  unfolding decode_data_def decode_player_def decode_cap_def decode_game_def decode_tag_def
    decode_connect_def decode_costume_def decode_shine_def decode_change_stage_def
    decode_vector3_def decode_quaternion_def buf_size_to_string_def list_buf_ops
  by (intro prefix_rules)

lemma prefix_ok_padding: "prefix_ok (skip_padding list_buf n d)"
  unfolding skip_padding_def Let_def by (intro prefix_rules)

lemma decode_packet_append:
  assumes "decode_packet list_buf bs = (Ok p, rest)"
  shows "decode_packet list_buf (bs @ extra) = (Ok p, rest @ extra)"
proof -
  have "frame_length bs \<noteq> None" using assms decode_incomplete[of bs] by auto
  then have "20 \<le> length bs" by (auto simp: frame_length_def split: if_splits)
  then obtain g t n body where g: "wf_guid g" and bs: "bs = header_bytes g t n @ body"
    by (rule header_split)
  let ?m = "bindp (decode_data list_buf t n) (\<lambda>d. bindp (skip_padding list_buf n d) (\<lambda>_.
     ret \<lparr>pkt_id = g, data_size = n, pkt_data = d\<rparr>))"
  from assms bs have len: "unat n \<le> length body" and run: "?m body = (Ok p, rest)"
    by (simp_all add: header_run[OF g] split: if_splits)
  have "prefix_ok ?m" by (intro prefix_ok_bindp prefix_ok_data prefix_ok_padding prefix_ok_ret)
  from prefix_okD[OF this run, of extra] have "?m (body @ extra) = (Ok p, rest @ extra)" .
  with len bs show ?thesis by (simp add: header_run[OF g])
qed

lemma frame_length_append:
  assumes "frame_length bs = Some n"
  shows "frame_length (bs @ extra) = Some n" and "20 \<le> n" and "n \<le> length bs"
  using assms by (auto simp: frame_length_def split: if_splits)

text \<open>A buffer without a complete frame is short.\<close>

lemma frame_length_None_bound:
  assumes "frame_length bs = None"
  shows "length bs < 20 + 2 ^ 16"
proof (rule ccontr)
  assume "\<not> length bs < 20 + 2 ^ 16"
  moreover have "unat (le_word (take 2 (drop 18 bs)) :: u16) < 2 ^ LENGTH(16)"
    by (rule unsigned_less)
  ultimately show False using assms by (simp add: frame_length_def)
qed

section \<open>Parsing the buffer\<close>

definition parse_result :: "(packet option, smo_error, u8 list) prog" where
  "parse_result bs =
     (case frame_length bs of
        None \<Rightarrow> (Ok None, bs)
      | Some n \<Rightarrow> (case fst (decode_packet list_buf bs) of
            Ok p \<Rightarrow> (Ok (Some p), drop n bs)
          | Err e \<Rightarrow> (Err (Encoding e), bs)
          | Panic \<Rightarrow> (Panic, bs)))"

context bytes_impl
begin

lemma cursor_rewound: "cur_pos c = 0 \<Longrightarrow> c\<lparr>cur_pos := 0 + n, cur_pos := 0\<rparr> = c"
  by simp

lemma parse_buffer_result:
  "apsnd (bc_slice K) (parse_buffer K b) = parse_result (bc_slice K b) \<and>
   ((\<nexists>p. fst (parse_buffer K b) = Ok (Some p)) \<longrightarrow> snd (parse_buffer K b) = b)"
proof -
  let ?c = "cursor_new (bc_slice K b)" and ?C = "bc_cursor K"
  note check = cur.packet_check_frame[of ?c, unfolded cursor_view_new]
  show ?thesis
  proof (cases "frame_length (bc_slice K b)")
    case None
    with check have "fst (packet_check ?C ?c) = Err NotEnoughData" by simp
    then obtain c' where "packet_check ?C ?c = (Err NotEnoughData, c')"
      by (cases "packet_check ?C ?c") auto
    with None show ?thesis by (simp add: parse_buffer_def parse_result_def)
  next
    case (Some n)
    with check have c: "packet_check ?C ?c = (Ok n, ?c\<lparr>cur_pos := n\<rparr>)"
      by (simp add: cursor_new_def)
    have rewind: "?c\<lparr>cur_pos := n, cur_pos := 0\<rparr> = ?c" by (simp add: cursor_new_def)
    have d: "fst (decode_packet ?C ?c) = fst (decode_packet list_buf (bc_slice K b))"
      by (simp add: cur.decode_packet_fst)
    from Some have "n \<le> length (bc_slice K b)" by (rule frame_length_append)
    with get.advance_law[of n b]
    obtain b' where b': "advance (bc_get K) n b = Some b'" "bc_slice K b' = drop n (bc_slice K b)"
      by auto
    show ?thesis
      using Some c rewind d b'
      by (cases "fst (decode_packet ?C ?c)"; cases "decode_packet ?C ?c")
         (auto simp: parse_buffer_def parse_result_def Let_def cursor_new_def)
  qed
qed

end

end
