(* ===== verification/Connection_Facts.thy ===== *)
theory Connection_Facts
  imports Stream_Frames
begin

text \<open>
  What a connection promises, for every buffer crate and every socket that keep their contracts:
  the packets it hands out are the frames of the byte stream, however the stream is cut into
  reads; reading comes back, with the packets the peer has sent; and what writing offers the socket
  and leaves on it.
\<close>

section \<open>The contract of the socket\<close>

text \<open>
  \<open>rx\<close> is what the socket has delivered, \<open>tx\<close> what it has accepted. A read appends the bytes it
  delivers to the buffer and returns how many they are; a write takes a prefix of the bytes it is
  given and returns its length; a failed operation moves no bytes; a flush accepts no new ones.
\<close>

locale tcp_impl = bytes_impl K for K :: "'b bytes_crate" +
  fixes T :: "('b, 'n, 's) tcp" and rx :: "'s \<Rightarrow> u8 list" and tx :: "'s \<Rightarrow> u8 list"
  assumes read_law: "tcp_read_buf T (s, b) = Some (Ok n, (s', b')) \<Longrightarrow>
      \<exists>bs. length bs = n \<and> rx s' = rx s @ bs \<and> tx s' = tx s \<and> bc_slice K b' = bc_slice K b @ bs"
    and read_fail: "tcp_read_buf T (s, b) = Some (Err u, (s', b')) \<Longrightarrow>
      rx s' = rx s \<and> tx s' = tx s \<and> bc_slice K b' = bc_slice K b"
    and write_law: "tcp_write T bs s = Some (Ok n, s') \<Longrightarrow>
      n \<le> length bs \<and> rx s' = rx s \<and> tx s' = tx s @ take n bs"
    and write_fail: "tcp_write T bs s = Some (Err u, s') \<Longrightarrow> rx s' = rx s \<and> tx s' = tx s"
    and flush_law: "tcp_flush T s = Some (r, s') \<Longrightarrow> rx s' = rx s \<and> tx s' = tx s"

section \<open>The packets of a stream\<close>

definition first_packet :: "u8 list \<Rightarrow> (packet \<times> u8 list) option" where
  "first_packet bs =
     (case parse_result bs of (Ok (Some p), rest) \<Rightarrow> Some (p, rest) | _ \<Rightarrow> None)"

fun packets :: "nat \<Rightarrow> u8 list \<Rightarrow> (packet list \<times> u8 list) option" where
  "packets 0 bs = Some ([], bs)"
| "packets (Suc n) bs =
     (case first_packet bs of
        None \<Rightarrow> None
      | Some (p, rest) \<Rightarrow> map_option (apfst ((#) p)) (packets n rest))"

lemma first_packet_eq:
  "first_packet bs = Some (p, rest) \<longleftrightarrow>
     (\<exists>n. frame_length bs = Some n \<and> fst (decode_packet list_buf bs) = Ok p \<and> rest = drop n bs)"
  by (auto simp: first_packet_def parse_result_def split: option.splits res.splits)

lemma first_packet_append:
  assumes "first_packet bs = Some (p, rest)"
  shows "first_packet (bs @ extra) = Some (p, rest @ extra)"
proof -
  from assms obtain n where n: "frame_length bs = Some n" "rest = drop n bs"
    and "fst (decode_packet list_buf bs) = Ok p"
    by (auto simp: first_packet_eq)
  then obtain r where "decode_packet list_buf bs = (Ok p, r)"
    by (cases "decode_packet list_buf bs") auto
  from decode_packet_append[OF this] frame_length_append[OF n(1)] n(2) show ?thesis
    by (simp add: first_packet_eq)
qed

lemma packets_append:
  "packets n bs = Some (ps, rest) \<Longrightarrow> packets n (bs @ extra) = Some (ps, rest @ extra)"
proof (induction n arbitrary: bs ps)
  case (Suc n)
  then obtain p mid qs where "first_packet bs = Some (p, mid)" "packets n mid = Some (qs, rest)"
    "ps = p # qs"
    by (auto split: option.splits)
  with Suc.IH[of mid qs] first_packet_append[of bs p mid extra] show ?case by simp
qed simp

text \<open>The frames of well-formed packets, one after the other, give the packets back.\<close>

lemma first_packet_bytes:
  assumes "wf_packet p" and "framed p"
  shows "first_packet (packet_bytes p @ rest) = Some (p, rest)"
  using assms by (simp add: first_packet_eq frame_length_packet decode_packet_run)

lemma packets_bytes:
  "(\<forall>p \<in> set ps. wf_packet p \<and> framed p) \<Longrightarrow>
   packets (length ps) (concat (map packet_bytes ps) @ rest) = Some (ps, rest)"
  by (induction ps) (simp_all add: first_packet_bytes)

lemma framed_room: "framed p \<Longrightarrow> 20 + get_size (pkt_data p) \<le> usize_max"
  using unsigned_less[where 'a = nat, of "data_size p"] by (simp add: framed_def usize_max_def)

text \<open>The only error a complete frame can have.\<close>

lemma parse_error_utf8:
  assumes "fst (parse_result bs) = Err e"
  shows "e = Encoding BadUtf8"
proof -
  from assms obtain n e' where n: "frame_length bs = Some n"
    and e': "fst (decode_packet list_buf bs) = Err e'" "e = Encoding e'"
    by (auto simp: parse_result_def split: option.splits res.splits)
  from n have "20 \<le> length bs" by (auto simp: frame_length_def split: if_splits)
  then obtain g t s body where g: "wf_guid g" and bs: "bs = header_bytes g t s @ body"
    by (rule header_split)
  with n have body: "unat s \<le> length body" by (simp add: frame_length_header split: if_splits)
  obtain r rest where out: "decode_data list_buf t s body = (r, rest)" by fastforce
  note good = readsD[OF reads_data, of t s body, unfolded out]
  have "skip_padding list_buf s d bs' \<noteq> (Err x, y)" for d x y bs'
    by (auto simp: skip_padding_def Let_def primu_def split: option.splits)
  then have "e' = BadUtf8"
    using header_run[OF g, of t s body] good out body bs e'(1)
    by (cases r) (auto simp: bindp_def split: prod.splits res.splits)
  with e'(2) show ?thesis by simp
qed

section \<open>Reading\<close>

text \<open>Repeated reads, as the tasks of the server and of the proxy make them.\<close>

fun read_packets ::
  "'b bytes_crate \<Rightarrow> ('b, 'n, 's) tcp \<Rightarrow> nat \<Rightarrow> (packet list, smo_error, ('b, 's) connection) async" where
  "read_packets K T 0 = aret []"
| "read_packets K T (Suc n) =
     abind (read_packet K T) (\<lambda>p. abind (read_packets K T n) (\<lambda>ps. aret (p # ps)))"

abbreviation unparsed :: "'b bytes_crate \<Rightarrow> ('b, 's) connection \<Rightarrow> u8 list" where
  "unparsed K c \<equiv> bc_slice K (conn_buff c)"

lemma parse_packet_simps:
  "parse_packet K c = (r, c') \<longleftrightarrow>
     fst (parse_buffer K (conn_buff c)) = r \<and> c' = c\<lparr>conn_buff := snd (parse_buffer K (conn_buff c))\<rparr>"
  by (cases "parse_buffer K (conn_buff c)") (auto simp: parse_packet_def)

context bytes_impl
begin

lemma parse_packet_fst: "fst (parse_packet K c) = fst (parse_result (unparsed K c))"
  using parse_buffer_result[of "conn_buff c"] by (metis fst_apsnd parse_packet_def)

lemma parse_packet_unparsed: "unparsed K (snd (parse_packet K c)) = snd (parse_result (unparsed K c))"
proof -
  have "snd (parse_result (unparsed K c)) = bc_slice K (snd (parse_buffer K (conn_buff c)))"
    using parse_buffer_result[of "conn_buff c"] by (metis snd_apsnd)
  then show ?thesis by (simp add: parse_packet_def)
qed

lemma parse_packet_keeps [simp]:
  "conn_socket (snd (parse_packet K c)) = conn_socket c"
  "conn_addr (snd (parse_packet K c)) = conn_addr c"
  by (simp_all add: parse_packet_def)

lemma parse_packet_same:
  "\<nexists>p. fst (parse_packet K c) = Ok (Some p) \<Longrightarrow> snd (parse_packet K c) = c"
  using parse_buffer_result[of "conn_buff c"] by (simp add: parse_packet_def)

lemma parse_None: "fst (parse_packet K c) = Ok None \<longleftrightarrow> frame_length (unparsed K c) = None"
  by (auto simp: parse_packet_fst parse_result_def split: option.splits res.splits)

lemma parse_Some:
  "fst (parse_packet K c) = Ok (Some p) \<longleftrightarrow>
     first_packet (unparsed K c) = Some (p, unparsed K (snd (parse_packet K c)))"
  by (auto simp: parse_packet_fst parse_packet_unparsed first_packet_def parse_result_def
      split: option.splits res.splits)

lemma read_packet_cases:
  "read_packet K T c =
     (case fst (parse_packet K c) of
        Ok (Some p) \<Rightarrow> Some (Ok p, snd (parse_packet K c))
      | Ok None \<Rightarrow> abind (read_socket K T) (\<lambda>_. read_packet K T) c
      | Err e \<Rightarrow> Some (Err e, c)
      | Panic \<Rightarrow> Some (Panic, c))"
proof -
  obtain r c' where out: "parse_packet K c = (r, c')" by fastforce
  with parse_packet_same[of c] show ?thesis
    by (simp add: read_packet_def retry.simps[of _ _ c] split: res.splits option.splits)
qed

lemma read_packet_run [consumes 1, case_names parsed bad panics refused broken again]:
  assumes "read_packet K T c = Some (r, c')"
    and "\<And>c p. fst (parse_packet K c) = Ok (Some p) \<Longrightarrow> P c (Ok p) (snd (parse_packet K c))"
    and "\<And>c e. fst (parse_packet K c) = Err e \<Longrightarrow> P c (Err e) c"
    and "\<And>c. fst (parse_packet K c) = Panic \<Longrightarrow> P c Panic c"
    and "\<And>c e c'. fst (parse_packet K c) = Ok None \<Longrightarrow> read_socket K T c = Some (Err e, c') \<Longrightarrow>
      P c (Err e) c'"
    and "\<And>c c'. fst (parse_packet K c) = Ok None \<Longrightarrow> read_socket K T c = Some (Panic, c') \<Longrightarrow>
      P c Panic c'"
    and "\<And>c c1 r c'. fst (parse_packet K c) = Ok None \<Longrightarrow> read_socket K T c = Some (Ok (), c1) \<Longrightarrow>
      P c1 r c' \<Longrightarrow> P c r c'"
  shows "P c r c'"
  using assms(1) unfolding read_packet_def
proof (induction rule: retry_induct)
  case (found s a s')
  then have "parse_packet K s = (Ok (Some a), s')" by (auto simp: sync_eq)
  then show ?case using assms(2)[of s a] by simp
next
  case (bad s e s')
  then have "parse_packet K s = (Err e, s')" by (auto simp: sync_eq)
  then show ?case using assms(3)[of s e] parse_packet_same[of s] by simp
next
  case (panics s s')
  then have "parse_packet K s = (Panic, s')" by (auto simp: sync_eq)
  then show ?case using assms(4)[of s] parse_packet_same[of s] by simp
next
  case (refused s s0 e s')
  then have "parse_packet K s = (Ok None, s0)" by (auto simp: sync_eq)
  then show ?case using assms(5)[of s e s'] parse_packet_same[of s] refused by simp
next
  case (broken s s0 s')
  then have "parse_packet K s = (Ok None, s0)" by (auto simp: sync_eq)
  then show ?case using assms(6)[of s s'] parse_packet_same[of s] broken by simp
next
  case (again s s0 s1 r s')
  then have "parse_packet K s = (Ok None, s0)" by (auto simp: sync_eq)
  then show ?case using assms(7)[of s s1 r s'] parse_packet_same[of s] again by simp
qed

lemma encoded_bytes:
  assumes "sized_packet p" and "20 + get_size (pkt_data p) \<le> usize_max"
  shows "encoded K p = Ok (packet_bytes p)"
  using put.encode_packet_view[OF assms(1), of "bc_with_capacity K MAX_PACKET_SIZE"] assms(2)
  by (auto simp: encoded_def room_law with_capacity_law)

end

text \<open>Writing: \<open>ns\<close> is what the turns of the loop get through; each turn starts at the first byte.\<close>

definition turns :: "u8 list \<Rightarrow> nat \<Rightarrow> nat list \<Rightarrow> bool" where
  "turns bs amount ns \<longleftrightarrow> (\<forall>n \<in> set ns. n \<le> length bs) \<and> length bs \<le> amount + sum_list ns
     \<and> (ns \<noteq> [] \<longrightarrow> amount + sum_list (butlast ns) < length bs)"

definition rewritten :: "u8 list \<Rightarrow> nat list \<Rightarrow> u8 list" where
  "rewritten bs ns = concat (map (\<lambda>n. take n bs) ns)"

text \<open>
  The writes themselves: \<open>pushes T bs ns s\<close> is the socket after \<open>length ns\<close> writes, each of the whole
  of \<open>bs\<close>, of which the socket took \<open>ns\<close> bytes one after the other.
\<close>

fun pushes :: "('b, 'n, 's) tcp \<Rightarrow> u8 list \<Rightarrow> nat list \<Rightarrow> 's \<Rightarrow> 's option" where
  "pushes T bs [] s = Some s"
| "pushes T bs (n # ns) s =
     (case tcp_write T bs s of
        Some (Ok m, s') \<Rightarrow> if m = n then pushes T bs ns s' else None
      | _ \<Rightarrow> None)"

lemma pushes_Cons:
  "pushes T bs (n # ns) s = Some s' \<longleftrightarrow>
     (\<exists>s1. tcp_write T bs s = Some (Ok n, s1) \<and> pushes T bs ns s1 = Some s')"
  by (auto split: option.splits res.splits prod.splits)

declare pushes.simps(2) [simp del]

text \<open>
  \<open>written T tx bs s s'\<close>: one \<open>write_packet\<close> of the bytes \<open>bs\<close> took the socket from \<open>s\<close> to \<open>s'\<close>. Its
  writes are those the loop makes, each of the whole packet, and what they leave on the socket is
  an initial part of it for every one. The socket that takes all of it at once gets it once.
\<close>

definition written :: "('b, 'n, 's) tcp \<Rightarrow> ('s \<Rightarrow> u8 list) \<Rightarrow> u8 list \<Rightarrow> 's \<Rightarrow> 's \<Rightarrow> bool" where
  "written T tx bs s s' \<longleftrightarrow> (\<exists>ns s1. pushes T bs ns s = Some s1 \<and> turns bs 0 ns
     \<and> tcp_flush T s1 = Some (Ok (), s') \<and> tx s' = tx s @ rewritten bs ns)"

lemma turns_whole: "turns bs 0 (length bs # ns) \<Longrightarrow> ns = []"
  by (cases ns rule: rev_cases) (auto simp: turns_def butlast_append)

lemma two_turns:
  assumes "tcp_write T bs s = Some (Ok n, s1)" and "tcp_write T bs s1 = Some (Ok m, s2)"
    and "length bs \<le> n + m" and "pushes T bs ns s = Some s'" and "turns bs 0 ns" and "n < length bs"
  shows "ns = [n, m]"
proof -
  from assms(5,6) obtain n' ms where ns: "ns = n' # ms" by (cases ns) (auto simp: turns_def)
  with assms(1,4) have [simp]: "n' = n" and "pushes T bs ms s1 = Some s'" by (auto simp: pushes_Cons)
  with assms(2,5,6) ns obtain ls where "ms = m # ls" by (cases ms) (auto simp: turns_def pushes_Cons)
  with assms(3,5) ns show ?thesis by (cases ls rule: rev_cases) (auto simp: turns_def butlast_append)
qed

lemma written_whole:
  assumes "written T tx bs s s'" and "bs \<noteq> []" and "tcp_write T bs s = Some (Ok (length bs), s1)"
  shows "tx s' = tx s @ bs"
proof -
  from assms(1) obtain ns s2 where ns: "pushes T bs ns s = Some s2" "turns bs 0 ns"
    "tx s' = tx s @ rewritten bs ns"
    by (auto simp: written_def)
  with assms(2) obtain n ms where "ns = n # ms" by (cases ns) (auto simp: turns_def)
  with ns(1,2) assms(3) have "ns = [length bs]" by (auto simp: pushes_Cons dest: turns_whole)
  with ns(3) show ?thesis by (simp add: rewritten_def)
qed

context tcp_impl
begin

abbreviation rx_of :: "('b, 's) connection \<Rightarrow> u8 list" where
  "rx_of c \<equiv> rx (conn_socket c)"

abbreviation tx_of :: "('b, 's) connection \<Rightarrow> u8 list" where
  "tx_of c \<equiv> tx (conn_socket c)"

text \<open>What one read from the socket does, on every branch.\<close>

lemma read_socket_Ok:
  assumes "read_socket K T c = Some (Ok u, c')"
  obtains bs where "bs \<noteq> []" and "rx_of c' = rx_of c @ bs" and "tx_of c' = tx_of c"
    and "unparsed K c' = unparsed K c @ bs"
  using assms unfolding read_socket_def
  by (auto simp: abind_eq_Ok zoom_def split: if_splits dest!: read_law)

lemma read_socket_Err:
  assumes "read_socket K T c = Some (Err e, c')"
  shows "rx_of c' = rx_of c" and "tx_of c' = tx_of c" and "unparsed K c' = unparsed K c"
    and "e = Io \<or> e = Encoding (if unparsed K c = [] then ConnectionClose else ConnectionReset)"
  using assms unfolding read_socket_def
  by (auto simp: zoom_def elim!: abind_cases split: if_splits dest!: read_law read_fail)

text \<open>
  A read of a packet, as a step of the stream: what it took from the socket completes the first
  frame of the buffer; and where it fails, nothing is lost.
\<close>

definition stream_step ::
  "('b, 's) connection \<Rightarrow> (packet, smo_error) res \<Rightarrow> ('b, 's) connection \<Rightarrow> bool" where
  "stream_step c r c' \<longleftrightarrow> (case r of
       Ok p \<Rightarrow> (\<exists>new. rx_of c' = rx_of c @ new \<and> tx_of c' = tx_of c
         \<and> first_packet (unparsed K c @ new) = Some (p, unparsed K c'))
     | Err e \<Rightarrow> (\<exists>new. rx_of c' = rx_of c @ new \<and> tx_of c' = tx_of c
         \<and> unparsed K c' = unparsed K c @ new
         \<and> (fst (parse_result (unparsed K c')) = Err e
            \<or> frame_length (unparsed K c') = None \<and>
              (e = Io \<or> e = Encoding (if unparsed K c' = [] then ConnectionClose else ConnectionReset))))
     | Panic \<Rightarrow> True)"

lemma stream_step_Panic: "stream_step c Panic c'"
  by (simp add: stream_step_def)

lemma stream_step_more:
  assumes "read_socket K T c = Some (Ok u, c')" and "stream_step c' r c''"
  shows "stream_step c r c''"
proof -
  from assms(1) obtain bs where bs: "rx_of c' = rx_of c @ bs" "tx_of c' = tx_of c"
    "unparsed K c' = unparsed K c @ bs"
    by (rule read_socket_Ok)
  show ?thesis
  proof (cases r)
    case (Ok p)
    with assms(2) obtain new where "rx_of c'' = rx_of c @ (bs @ new)" "tx_of c'' = tx_of c"
      "first_packet (unparsed K c @ (bs @ new)) = Some (p, unparsed K c'')"
      using bs by (auto simp: stream_step_def)
    with Ok show ?thesis unfolding stream_step_def by auto
  next
    case (Err e)
    with assms(2) obtain new where "rx_of c'' = rx_of c @ (bs @ new)" "tx_of c'' = tx_of c"
      "unparsed K c'' = unparsed K c @ (bs @ new)"
      "fst (parse_result (unparsed K c'')) = Err e
            \<or> frame_length (unparsed K c'') = None \<and>
              (e = Io \<or> e = Encoding (if unparsed K c'' = [] then ConnectionClose else ConnectionReset))"
      using bs by (auto simp: stream_step_def)
    with Err show ?thesis unfolding stream_step_def by auto
  qed (simp add: stream_step_def)
qed

lemma parse_step:
  assumes "fst (parse_packet K c) = Ok (Some p)"
  shows "stream_step c (Ok p) (snd (parse_packet K c))"
  using assms by (auto simp: stream_step_def parse_Some)

lemma parse_Err_step:
  assumes "fst (parse_packet K c) = Err e"
  shows "stream_step c (Err e) c"
  using assms by (auto simp: stream_step_def parse_packet_fst)

lemma read_packet_step:
  assumes "read_packet K T c = Some (r, c')"
  shows "stream_step c r c'"
  using assms
proof (induction rule: read_packet_run)
  case (refused c e c')
  then have "frame_length (unparsed K c) = None" by (simp add: parse_None)
  with read_socket_Err[OF refused(2)] show ?case by (auto simp: stream_step_def)
next
  case (again c c1 r c')
  then show ?case by (blast intro: stream_step_more)
qed (simp_all add: parse_step parse_Err_step stream_step_Panic)

text \<open>Several reads: the packets of the stream, in order.\<close>

lemma read_packets_stream:
  "read_packets K T n c = Some (Ok ps, c') \<Longrightarrow>
   \<exists>new. rx_of c' = rx_of c @ new \<and> packets n (unparsed K c @ new) = Some (ps, unparsed K c')"
proof (induction n arbitrary: c ps)
  case (Suc n)
  then obtain p c1 qs where p: "read_packet K T c = Some (Ok p, c1)"
    and qs: "read_packets K T n c1 = Some (Ok qs, c')" and ps: "ps = p # qs"
    by (auto simp: abind_eq_Ok)
  from read_packet_step[OF p] obtain new where new: "rx_of c1 = rx_of c @ new"
    "first_packet (unparsed K c @ new) = Some (p, unparsed K c1)"
    by (auto simp: stream_step_def)
  from Suc.IH[OF qs] obtain new' where new': "rx_of c' = rx_of c1 @ new'"
    "packets n (unparsed K c1 @ new') = Some (qs, unparsed K c')"
    by blast
  from first_packet_append[OF new(2), of new'] new new' ps show ?case
    by (intro exI[of _ "new @ new'"]) simp
qed simp

section \<open>Reading comes back\<close>

text \<open>
  Every turn of the loop adds a byte to a buffer without a complete frame, and such a buffer is
  shorter than the longest frame.
\<close>

lemma read_packet_returns:
  assumes live: "\<And>s b. tcp_read_buf T (s, b) \<noteq> None"
  shows "\<exists>r c'. read_packet K T c = Some (r, c')"
proof (induction "20 + 2 ^ 16 - length (unparsed K c)" arbitrary: c rule: less_induct)
  case less
  show ?case
  proof (cases "fst (parse_packet K c) = Ok None")
    case None: True
    then have short: "length (unparsed K c) < 20 + 2 ^ 16"
      using frame_length_None_bound[of "unparsed K c"] by (simp add: parse_None)
    have "read_socket K T c \<noteq> None"
      using live[of "conn_socket c" "conn_buff c"]
      by (auto simp: read_socket_def zoom_def abind_def io_def after_def split: res.splits)
    then obtain r c1 where sock: "read_socket K T c = Some (r, c1)" by auto
    show ?thesis
    proof (cases r)
      case (Ok u)
      with sock obtain bs where "bs \<noteq> []" "unparsed K c1 = unparsed K c @ bs"
        by (auto elim: read_socket_Ok)
      with short less[of c1] have "\<exists>r c'. read_packet K T c1 = Some (r, c')"
        by (cases bs) auto
      with None sock Ok show ?thesis by (simp add: read_packet_cases[of T c])
    qed (use None sock in \<open>simp_all add: read_packet_cases[of T c]\<close>)
  next
    case False
    then show ?thesis
      by (auto simp: read_packet_cases[of T c] split: res.splits option.splits)
  qed
qed

section \<open>Writing\<close>

definition write_log :: "u8 list \<Rightarrow> nat \<Rightarrow> 's \<Rightarrow> (unit, smo_error) res \<times> 's \<Rightarrow> bool" where
  "write_log bs amount s y \<longleftrightarrow> (\<forall>s'. y = (Ok (), s') \<longrightarrow>
     (\<exists>ns. pushes T bs ns s = Some s' \<and> turns bs amount ns))"

lemma write_log_turn:
  assumes "tcp_write T bs s = Some (Ok n, s1)" and "amount < length bs"
    and "write_log bs (amount + n) s1 y"
  shows "write_log bs amount s y"
  unfolding write_log_def
proof (intro allI impI)
  fix s' assume "y = (Ok (), s')"
  with assms(3) obtain ns where "pushes T bs ns s1 = Some s'" "turns bs (amount + n) ns"
    by (auto simp: write_log_def)
  with write_law[OF assms(1)] assms(1,2)
  have "pushes T bs (n # ns) s = Some s' \<and> turns bs amount (n # ns)"
    by (auto simp: turns_def add.assoc pushes_Cons)
  then show "\<exists>ns. pushes T bs ns s = Some s' \<and> turns bs amount ns" by blast
qed

lemma count_log:
  "count_loop (io (tcp_write T bs)) (length bs) amount s = Some (r, s') \<Longrightarrow>
   write_log bs amount s (r, s')"
proof (induction rule: count_loop_induct)
  case (finished amount s)
  then have "turns bs amount [] \<and> pushes T bs [] s = Some s" by (simp add: turns_def)
  then show ?case by (auto simp: write_log_def intro!: exI[of _ "[]"])
next
  case (again amount s n s1 r s')
  then show ?case using write_log_turn[of bs s n s1 amount "(r, s')"] by simp
qed (simp_all add: write_log_def)

text \<open>What the writes of a packet leave on the socket: an initial part of it for each of them.\<close>

lemma pushes_log:
  "pushes T bs ns s = Some s' \<Longrightarrow> rx s' = rx s \<and> tx s' = tx s @ rewritten bs ns"
proof (induction ns arbitrary: s)
  case (Cons n ns)
  then obtain s1 where "tcp_write T bs s = Some (Ok n, s1)" "pushes T bs ns s1 = Some s'"
    by (auto simp: pushes_Cons)
  with Cons.IH[of s1] write_law[of bs s n s1] show ?case by (simp add: rewritten_def)
qed (simp add: rewritten_def)

lemma write_loop_log: "write_loop T bs s = Some y \<Longrightarrow> write_log bs 0 s y"
  using count_log[of bs 0 s "fst y" "snd y"] by (simp add: write_loop_def)

lemma write_loop_whole:
  assumes "bs \<noteq> []" and "tcp_write T bs s = Some (Ok (length bs), s1)"
  shows "write_loop T bs s = Some (Ok (), s1)"
  using assms by (simp add: write_loop_def count_loop_once)

text \<open>Writing comes back where the socket always takes something or fails.\<close>

lemma write_loop_returns:
  assumes "\<And>s. tcp_write T bs s \<noteq> None" and "\<And>s s'. tcp_write T bs s \<noteq> Some (Ok 0, s')"
  shows "\<exists>r s'. write_loop T bs s = Some (r, s')"
  unfolding write_loop_def by (rule count_loop_returns) (simp_all add: assms del: not_None_eq)

lemma write_packet_written:
  assumes "write_packet K T p c = Some (Ok u, c')" and "sized_packet p"
    and "20 + get_size (pkt_data p) \<le> usize_max"
  shows "written T tx (packet_bytes p) (conn_socket c) (conn_socket c')"
    and "rx_of c' = rx_of c" and "conn_buff c' = conn_buff c" and "conn_addr c' = conn_addr c"
proof -
  from assms(1) obtain s1 s2 where
    loop: "write_loop T (packet_bytes p) (conn_socket c) = Some (Ok (), s1)"
    and flush: "tcp_flush T s1 = Some (Ok (), s2)" and c': "c' = c\<lparr>conn_socket := s2\<rparr>"
    by (auto simp: write_packet_def abind_eq_Ok encoded_bytes[OF assms(2,3)] zoom_def)
  from write_loop_log[OF loop] obtain ns where
    ns: "pushes T (packet_bytes p) ns (conn_socket c) = Some s1" "turns (packet_bytes p) 0 ns"
    by (auto simp: write_log_def)
  from pushes_log[OF ns(1)] flush_law[OF flush] ns flush c'
  show "written T tx (packet_bytes p) (conn_socket c) (conn_socket c')"
    and "rx_of c' = rx_of c" and "conn_buff c' = conn_buff c" and "conn_addr c' = conn_addr c"
    by (auto simp: written_def)
qed

lemma write_packet_log:
  assumes "write_packet K T p c = Some (Ok u, c')" and "sized_packet p"
    and "20 + get_size (pkt_data p) \<le> usize_max"
  shows "\<exists>ns. rx_of c' = rx_of c \<and> conn_buff c' = conn_buff c \<and> conn_addr c' = conn_addr c
     \<and> tx_of c' = tx_of c @ rewritten (packet_bytes p) ns \<and> turns (packet_bytes p) 0 ns"
  using write_packet_written[OF assms] by (auto simp: written_def)

lemma write_packet_once:
  assumes "sized_packet p" and "20 + get_size (pkt_data p) \<le> usize_max"
    and w: "tcp_write T (packet_bytes p) (conn_socket c) = Some (Ok (length (packet_bytes p)), s1)"
    and "tcp_flush T s1 = Some (Ok (), s2)"
  shows "write_packet K T p c = Some (Ok (), c\<lparr>conn_socket := s2\<rparr>)"
    and "tx s2 = tx_of c @ packet_bytes p" and "rx s2 = rx_of c"
proof -
  have "packet_bytes p \<noteq> []" using length_packet_bytes[OF assms(1)] by auto
  from write_loop_whole[OF this w] assms show "write_packet K T p c = Some (Ok (), c\<lparr>conn_socket := s2\<rparr>)"
    by (simp add: write_packet_def abind_def[of "\<lambda>c. Some _"] encoded_bytes)
  show "tx s2 = tx_of c @ packet_bytes p" "rx s2 = rx_of c"
    using write_law[OF w] flush_law[OF assms(4)] by auto
qed

end

context tcp_impl
begin

lemma read_packet_keeps:
  assumes "read_packet K T c = Some (Ok p, c')"
  shows "tx_of c' = tx_of c" and "conn_addr c' = conn_addr c"
proof -
  show "tx_of c' = tx_of c" using read_packet_step[OF assms] by (auto simp: stream_step_def)
  have sock: "conn_addr d' = conn_addr d" if "read_socket K T d = Some (q, d')" for d q d'
    using that by (auto simp: read_socket_def zoom_def elim!: abind_cases split: if_splits)
  show "conn_addr c' = conn_addr c"
    using assms by (induction rule: read_packet_run) (auto dest: sock)
qed

end

section \<open>A peer that is heard\<close>

text \<open>
  \<open>todo\<close> is what the peer has sent and the socket has not delivered yet. While there is some, a read
  comes back with a first part of it.
\<close>

locale tcp_peer = tcp_impl K T rx tx
  for K :: "'b bytes_crate" and T :: "('b, 'n, 's) tcp" and rx :: "'s \<Rightarrow> u8 list" and tx :: "'s \<Rightarrow> u8 list" +
  fixes todo :: "'s \<Rightarrow> u8 list"
  assumes delivers: "todo s \<noteq> [] \<Longrightarrow> \<exists>n s' b'. tcp_read_buf T (s, b) = Some (Ok n, (s', b'))
      \<and> 0 < n \<and> rx s' @ todo s' = rx s @ todo s"
begin

lemma read_socket_delivers:
  assumes "todo (conn_socket c) \<noteq> []"
  obtains c' bs where "read_socket K T c = Some (Ok (), c')" and "bs \<noteq> []"
    and "todo (conn_socket c) = bs @ todo (conn_socket c')" and "unparsed K c' = unparsed K c @ bs"
proof -
  from delivers[OF assms, of "conn_buff c"] obtain n s' b' where
    r: "tcp_read_buf T (conn_socket c, conn_buff c) = Some (Ok n, (s', b'))" and "0 < n"
    and front: "rx s' @ todo s' = rx_of c @ todo (conn_socket c)"
    by blast
  from read_law[OF r] obtain bs where bs: "length bs = n" "rx s' = rx_of c @ bs"
    "bc_slice K b' = bc_slice K (conn_buff c) @ bs"
    by blast
  from r \<open>0 < n\<close> have "read_socket K T c = Some (Ok (), c\<lparr>conn_socket := s', conn_buff := b'\<rparr>)"
    by (simp add: read_socket_def abind_def zoom_def io_def)
  then show thesis by (rule that[of _ bs]) (use bs front \<open>0 < n\<close> in auto)
qed

text \<open>The packet at the front of the stream is read, whatever is there of it already.\<close>

lemma read_packet_delivers:
  assumes "wf_packet p" and "framed p"
    and "unparsed K c @ todo (conn_socket c) = packet_bytes p @ rest"
  shows "\<exists>c'. read_packet K T c = Some (Ok p, c') \<and> unparsed K c' @ todo (conn_socket c') = rest"
  using assms(3)
proof (induction "length (todo (conn_socket c))" arbitrary: c rule: less_induct)
  case less
  show ?case
  proof (cases "frame_length (unparsed K c)")
    case None
    with less.prems frame_length_packet[OF assms(1,2), of rest] have "todo (conn_socket c) \<noteq> []" by auto
    then obtain c1 bs where c1: "read_socket K T c = Some (Ok (), c1)" "bs \<noteq> []"
      "todo (conn_socket c) = bs @ todo (conn_socket c1)" "unparsed K c1 = unparsed K c @ bs"
      by (rule read_socket_delivers)
    with less.hyps[of c1] less.prems None show ?thesis
      by (simp add: read_packet_cases[of T c] parse_None[THEN iffD2] abind_def)
  next
    case (Some n)
    from frame_length_append(1)[OF Some, of "todo (conn_socket c)"] frame_length_append(3)[OF Some] less.prems
      frame_length_packet[OF assms(1,2), of rest]
    have n: "n = length (packet_bytes p)" "n \<le> length (unparsed K c)" by simp_all
    with less.prems obtain mid where mid: "unparsed K c = packet_bytes p @ mid"
      "mid @ todo (conn_socket c) = rest"
      by (metis append_eq_append_conv_if append_eq_conv_conj append_take_drop_id)
    from first_packet_bytes[OF assms(1,2), of mid] mid(1)
    have "parse_result (unparsed K c) = (Ok (Some p), mid)"
      by (auto simp: first_packet_def split: prod.splits res.splits option.splits)
    with mid(2) show ?thesis
      by (simp add: read_packet_cases[of T c] parse_packet_fst parse_packet_unparsed)
  qed
qed

lemma read_packets_deliver:
  assumes "\<forall>p \<in> set ps. wf_packet p \<and> framed p"
    and "unparsed K c @ todo (conn_socket c) = concat (map packet_bytes ps) @ rest"
  shows "\<exists>c'. read_packets K T (length ps) c = Some (Ok ps, c') \<and> unparsed K c' @ todo (conn_socket c') = rest"
  using assms
proof (induction ps arbitrary: c)
  case (Cons p ps)
  from read_packet_delivers[of p c "concat (map packet_bytes ps) @ rest"] Cons.prems
  obtain c1 where c1: "read_packet K T c = Some (Ok p, c1)"
    "unparsed K c1 @ todo (conn_socket c1) = concat (map packet_bytes ps) @ rest"
    by auto
  with Cons.IH[of c1] Cons.prems obtain c2 where "read_packets K T (length ps) c1 = Some (Ok ps, c2)"
    "unparsed K c2 @ todo (conn_socket c2) = rest"
    by auto
  with c1(1) show ?case by (simp add: abind_def)
qed simp

end

section \<open>A scripted socket\<close>

text \<open>
  A socket as a value: the reads still to come, the bytes delivered and accepted so far, and how
  many bytes one write takes. After the last read the peer has closed.
\<close>

record script =
  scr_in :: "u8 list list"
  scr_rx :: "u8 list"
  scr_tx :: "u8 list"
  scr_max :: nat

definition script_read :: "(nat, unit, script \<times> u8 list) async" where
  "script_read = (\<lambda>(s, b). case scr_in s of
       [] \<Rightarrow> Some (Ok 0, (s, b))
     | bs # rest \<Rightarrow> Some (Ok (length bs), (s\<lparr>scr_in := rest, scr_rx := scr_rx s @ bs\<rparr>, b @ bs)))"

definition script_write :: "u8 list \<Rightarrow> (nat, unit, script) async" where
  "script_write bs s =
     Some (Ok (min (scr_max s) (length bs)), s\<lparr>scr_tx := scr_tx s @ take (scr_max s) bs\<rparr>)"

definition script_tcp :: "(u8 list, socket_addr \<times> script, script) tcp" where
  "script_tcp = \<lparr>
     tcp_peer_addr = Some \<circ> fst, tcp_buf_writer = snd, tcp_read_buf = script_read,
     tcp_write = script_write, tcp_flush = aret (), tcp_shutdown = aret () \<rparr>"

lemma script_tcp_ops [simp]:
  "tcp_peer_addr script_tcp n = Some (fst n)" "tcp_buf_writer script_tcp = snd"
  "tcp_read_buf script_tcp = script_read" "tcp_write script_tcp = script_write"
  "tcp_flush script_tcp = aret ()" "tcp_shutdown script_tcp = aret ()"
  by (simp_all add: script_tcp_def)

interpretation script_socket: tcp_impl bytes_list script_tcp scr_rx scr_tx
  by unfold_locales
     (auto simp: script_read_def script_write_def min_def split: list.splits)

text \<open>What its peer has sent: the pieces before the first empty one, which is the end of the stream.\<close>

definition script_todo :: "script \<Rightarrow> u8 list" where
  "script_todo s = concat (takeWhile (\<lambda>bs. bs \<noteq> []) (scr_in s))"

interpretation script_peer: tcp_peer bytes_list script_tcp scr_rx scr_tx script_todo
  by unfold_locales (auto simp: script_read_def script_todo_def split: list.splits if_splits)

lemma script_live: "tcp_read_buf script_tcp (s, b) \<noteq> None"
  by (simp add: script_read_def split: list.splits)

definition script_conn :: "u8 list list \<Rightarrow> nat \<Rightarrow> (u8 list, script) connection" where
  "script_conn ins m = \<lparr>conn_addr = SocketV4 0 7,
     conn_socket = \<lparr>scr_in = ins, scr_rx = [], scr_tx = [], scr_max = m\<rparr>, conn_buff = []\<rparr>"

section \<open>What a connection promises\<close>

text \<open>
  \<open>parse_packet\<close>, branch by branch. Without a complete frame in the buffer it asks for more and
  changes nothing; a frame that decodes is handed out and dropped from the buffer whole, also a cap
  whose last bytes the decoder does not read; a frame that does not decode is an error and stays in
  the buffer. Neither the socket nor the address is touched.
\<close>
theorem parse_packet_branches:
  assumes "bytes_impl K" and "parse_packet K c = (r, c')"
  shows "conn_socket c' = conn_socket c \<and> conn_addr c' = conn_addr c \<and>
    (case frame_length (bc_slice K (conn_buff c)) of
       None \<Rightarrow> r = Ok None \<and> c' = c
     | Some n \<Rightarrow> (case fst (decode_packet list_buf (bc_slice K (conn_buff c))) of
           Ok p \<Rightarrow> r = Ok (Some p) \<and> bc_slice K (conn_buff c') = drop n (bc_slice K (conn_buff c))
         | Err e \<Rightarrow> r = Err (Encoding e) \<and> c' = c
         | Panic \<Rightarrow> r = Panic \<and> c' = c))"
  using bytes_impl.parse_packet_fst[OF assms(1), of c] bytes_impl.parse_packet_unparsed[OF assms(1), of c]
    bytes_impl.parse_packet_keeps[OF assms(1), of c] bytes_impl.parse_packet_same[OF assms(1), of c] assms(2)
  by (auto simp: parse_result_def split: option.splits res.splits)

text \<open>A connection that has received an init packet and the first byte of the next one.\<close>

definition received :: "(u8 list, script) connection" where
  "received = (script_conn [] 1)\<lparr>conn_buff := packet_bytes sample_init @ [7]\<rparr>"

theorem parse_packet_branches_witness:
  "conn_socket (snd (parse_packet bytes_list received)) = conn_socket received \<and>
   conn_addr (snd (parse_packet bytes_list received)) = conn_addr received \<and>
    (case frame_length (bc_slice bytes_list (conn_buff received)) of
       None \<Rightarrow> fst (parse_packet bytes_list received) = Ok None \<and>
         snd (parse_packet bytes_list received) = received
     | Some n \<Rightarrow> (case fst (decode_packet list_buf (bc_slice bytes_list (conn_buff received))) of
           Ok p \<Rightarrow> fst (parse_packet bytes_list received) = Ok (Some p) \<and>
             bc_slice bytes_list (conn_buff (snd (parse_packet bytes_list received))) =
               drop n (bc_slice bytes_list (conn_buff received))
         | Err e \<Rightarrow> fst (parse_packet bytes_list received) = Err (Encoding e) \<and>
             snd (parse_packet bytes_list received) = received
         | Panic \<Rightarrow> fst (parse_packet bytes_list received) = Panic \<and>
             snd (parse_packet bytes_list received) = received))"
  by (rule parse_packet_branches[OF bytes_list_crate.bytes_impl_axioms prod.collapse[symmetric]])

text \<open>
  C20. \<open>read_packet\<close> hands out the packet of the first frame of the stream: of the bytes left in the
  buffer followed by those it took from the socket. What follows the frame stays in the buffer, no
  byte of the stream is lost or read twice, and nothing is written.
\<close>
theorem read_packet_next_frame:
  assumes "tcp_impl K T rx tx" and "read_packet K T c = Some (Ok p, c')"
  shows "\<exists>new n. rx (conn_socket c') = rx (conn_socket c) @ new
     \<and> tx (conn_socket c') = tx (conn_socket c)
     \<and> frame_length (bc_slice K (conn_buff c) @ new) = Some n
     \<and> fst (decode_packet list_buf (bc_slice K (conn_buff c) @ new)) = Ok p
     \<and> bc_slice K (conn_buff c') = drop n (bc_slice K (conn_buff c) @ new)"
  using tcp_impl.read_packet_step[OF assms]
  by (auto simp: tcp_impl.stream_step_def[OF assms(1)] first_packet_eq)

lemma script_parse:
  "fst (parse_packet bytes_list c) = fst (parse_result (conn_buff c))"
  "conn_buff (snd (parse_packet bytes_list c)) = snd (parse_result (conn_buff c))"
  using bytes_list_crate.parse_packet_fst[of c] bytes_list_crate.parse_packet_unparsed[of c]
  by simp_all

text \<open>The two halves of an init packet, one read each.\<close>

definition two_reads :: "(u8 list, script) connection" where
  "two_reads = script_conn [take 12 (packet_bytes sample_init), drop 12 (packet_bytes sample_init)] 100"

lemma sample_init_framed: "framed sample_init"
  by (simp add: sample_init_def framed_def)

lemma sample_init_length: "length (packet_bytes sample_init) = 22"
  by (simp add: length_packet_bytes sample_init_sized) (simp add: sample_init_def)

definition after_reads :: "(u8 list, script) connection" where
  "after_reads = two_reads\<lparr>conn_socket := \<lparr>scr_in = [], scr_rx = packet_bytes sample_init, scr_tx = [], scr_max = 100\<rparr>\<rparr>"

lemma parse_result_complete: "parse_result (packet_bytes sample_init) = (Ok (Some sample_init), [])"
  using first_packet_bytes[OF sample_init_wf sample_init_framed, of "[]"]
  by (auto simp: first_packet_def split: prod.splits res.splits option.splits)

lemma two_reads_run: "read_packet bytes_list script_tcp two_reads = Some (Ok sample_init, after_reads)"
proof -
  let ?bs = "packet_bytes sample_init"
  have short: "parse_result bs = (Ok None, bs)" if "length bs < 20" for bs
    using that by (simp add: parse_result_def frame_length_def)
  let ?c1 = "two_reads\<lparr>conn_socket := \<lparr>scr_in = [drop 12 ?bs], scr_rx = take 12 ?bs, scr_tx = [], scr_max = 100\<rparr>,
     conn_buff := take 12 ?bs\<rparr>"
  let ?c2 = "after_reads\<lparr>conn_buff := ?bs\<rparr>"
  have "read_socket bytes_list script_tcp two_reads = Some (Ok (), ?c1)"
    and "read_socket bytes_list script_tcp ?c1 = Some (Ok (), ?c2)"
    by (simp_all add: read_socket_def two_reads_def script_conn_def script_read_def zoom_def io_def
        sample_init_length after_reads_def abind_def)
  moreover have "fst (parse_packet bytes_list two_reads) = Ok None" "fst (parse_packet bytes_list ?c1) = Ok None"
    by (simp_all add: script_parse short two_reads_def script_conn_def sample_init_length)
  moreover have "fst (parse_packet bytes_list ?c2) = Ok (Some sample_init)"
    and "snd (parse_packet bytes_list ?c2) = after_reads"
    using script_parse[of ?c2]
    by (simp_all add: parse_result_complete parse_packet_def)
       (simp add: after_reads_def two_reads_def script_conn_def)
  ultimately show ?thesis
    by (simp add: bytes_list_crate.read_packet_cases)
qed

theorem read_packet_next_frame_witness:
  "\<exists>new n. scr_rx (conn_socket after_reads) = scr_rx (conn_socket two_reads) @ new
     \<and> scr_tx (conn_socket after_reads) = scr_tx (conn_socket two_reads)
     \<and> frame_length (bc_slice bytes_list (conn_buff two_reads) @ new) = Some n
     \<and> fst (decode_packet list_buf (bc_slice bytes_list (conn_buff two_reads) @ new)) = Ok sample_init
     \<and> bc_slice bytes_list (conn_buff after_reads) = drop n (bc_slice bytes_list (conn_buff two_reads) @ new)"
  by (rule read_packet_next_frame[OF script_socket.tcp_impl_axioms two_reads_run])

text \<open>
  C14. How the stream is cut into reads does not matter. Two connections that start with the same
  bytes in their buffers, have taken initial parts of the same stream \<open>bs\<close> from their sockets and
  have each read \<open>n\<close> packets, have read the same packets, and what they have not parsed agrees.
\<close>
theorem chunking_independent:
  assumes "tcp_impl K T rx tx" and "tcp_impl K2 T2 rx2 tx2"
    and "read_packets K T n c = Some (Ok ps, c')" and "read_packets K2 T2 n d = Some (Ok qs, d')"
    and "bc_slice K (conn_buff c) = bc_slice K2 (conn_buff d)"
    and "rx (conn_socket c') = rx (conn_socket c) @ new" and "bs = new @ ahead"
    and "rx2 (conn_socket d') = rx2 (conn_socket d) @ new2" and "bs = new2 @ ahead2"
  shows "ps = qs \<and> bc_slice K (conn_buff c') @ ahead = bc_slice K2 (conn_buff d') @ ahead2"
proof -
  have "packets n (bc_slice K (conn_buff c) @ new) = Some (ps, bc_slice K (conn_buff c'))"
    using tcp_impl.read_packets_stream[OF assms(1,3)] assms(6) by auto
  from packets_append[OF this, of ahead] assms(7)
  have 1: "packets n (bc_slice K (conn_buff c) @ bs) = Some (ps, bc_slice K (conn_buff c') @ ahead)"
    by simp
  have "packets n (bc_slice K2 (conn_buff d) @ new2) = Some (qs, bc_slice K2 (conn_buff d'))"
    using tcp_impl.read_packets_stream[OF assms(2,4)] assms(8) by auto
  from packets_append[OF this, of ahead2] assms(5,9)
  have "packets n (bc_slice K (conn_buff c) @ bs) = Some (qs, bc_slice K2 (conn_buff d') @ ahead2)"
    by simp
  with 1 show ?thesis by simp
qed

definition one_read :: "(u8 list, script) connection" where
  "one_read = script_conn [packet_bytes sample_init] 100"

definition after_one_read :: "(u8 list, script) connection" where
  "after_one_read = one_read\<lparr>conn_socket := \<lparr>scr_in = [], scr_rx = packet_bytes sample_init, scr_tx = [], scr_max = 100\<rparr>\<rparr>"

lemma one_read_run: "read_packet bytes_list script_tcp one_read = Some (Ok sample_init, after_one_read)"
proof -
  let ?c1 = "after_one_read\<lparr>conn_buff := packet_bytes sample_init\<rparr>"
  have "packet_bytes sample_init \<noteq> []" using sample_init_length by auto
  then have "read_socket bytes_list script_tcp one_read = Some (Ok (), ?c1)"
    by (simp add: read_socket_def one_read_def script_conn_def script_read_def zoom_def io_def
        after_one_read_def abind_def)
  moreover have "fst (parse_packet bytes_list one_read) = Ok None"
    by (simp add: script_parse one_read_def script_conn_def parse_result_def frame_length_def)
  moreover have "fst (parse_packet bytes_list ?c1) = Ok (Some sample_init)"
    and "snd (parse_packet bytes_list ?c1) = after_one_read"
    using script_parse[of ?c1]
    by (simp_all add: parse_result_complete parse_packet_def)
       (simp add: after_one_read_def one_read_def script_conn_def)
  ultimately show ?thesis by (simp add: bytes_list_crate.read_packet_cases)
qed

lemma read_packets_one:
  "read_packet K T c = Some (Ok p, c') \<Longrightarrow> read_packets K T 1 c = Some (Ok [p], c')"
  by simp

theorem chunking_independent_witness:
  "[sample_init] = [sample_init] \<and>
   bc_slice bytes_list (conn_buff after_reads) @ [] = bc_slice bytes_list (conn_buff after_one_read) @ []"
  by (rule chunking_independent[OF script_socket.tcp_impl_axioms script_socket.tcp_impl_axioms
        read_packets_one[OF two_reads_run] read_packets_one[OF one_read_run],
        where new = "packet_bytes sample_init" and ?new2.0 = "packet_bytes sample_init" and
          bs = "packet_bytes sample_init"])
     (simp_all add: after_reads_def two_reads_def after_one_read_def one_read_def script_conn_def)

text \<open>
  C8. What one end encodes and sends the other end reads. On a connection that delivers what the
  peer has sent, in whatever pieces, the reads of \<open>length ps\<close> packets come back and give exactly the
  packets \<open>ps\<close> whose encodings, one after the other, are what the buffer holds and what is still to be
  delivered; what was sent behind them is what is left of both. The sender may use another buffer
  crate. (A packet is one that the decoder can produce, with the size of its type in its header.)
\<close>
theorem stream_roundtrip:
  assumes "tcp_peer K T rx tx todo" and "bytes_impl K2"
    and "\<forall>p \<in> set ps. wf_packet p \<and> framed p" and "map (encoded K2) ps = map Ok sent"
    and "bc_slice K (conn_buff c) @ todo (conn_socket c) = concat sent @ rest"
  shows "\<exists>c'. read_packets K T (length ps) c = Some (Ok ps, c')
     \<and> bc_slice K (conn_buff c') @ todo (conn_socket c') = rest"
proof (rule tcp_peer.read_packets_deliver[OF assms(1,3)])
  have "sent = map packet_bytes ps"
    using assms(3,4)
  proof (induction ps arbitrary: sent)
    case (Cons p ps)
    then obtain bs more where sent: "sent = bs # more" "encoded K2 p = Ok bs" "map (encoded K2) ps = map Ok more"
      by (cases sent) auto
    moreover from Cons.prems(1) have "framed p" "sized_packet p" by (simp_all add: wf_packet_sized)
    then have "encoded K2 p = Ok (packet_bytes p)"
      by (intro bytes_impl.encoded_bytes[OF assms(2)]) (simp_all add: framed_room)
    ultimately show ?case using Cons by simp
  qed simp
  with assms(5) show "bc_slice K (conn_buff c) @ todo (conn_socket c) = concat (map packet_bytes ps) @ rest"
    by simp
qed

text \<open>An init packet in two pieces, read by the other end.\<close>

theorem stream_roundtrip_witness:
  "\<exists>c'. read_packets bytes_list script_tcp (length [sample_init]) two_reads = Some (Ok [sample_init], c')
     \<and> bc_slice bytes_list (conn_buff c') @ script_todo (conn_socket c') = []"
proof (rule stream_roundtrip[OF script_peer.tcp_peer_axioms bytes_list_crate.bytes_impl_axioms,
      where sent = "[packet_bytes sample_init]"])
  show "\<forall>p \<in> set [sample_init]. wf_packet p \<and> framed p"
    by (simp add: sample_init_wf sample_init_framed)
  show "map (encoded bytes_list) [sample_init] = map Ok [packet_bytes sample_init]"
    using bytes_list_crate.encoded_bytes[OF sample_init_sized] by (simp add: sample_init_def usize_max_def)
  show "bc_slice bytes_list (conn_buff two_reads) @ script_todo (conn_socket two_reads) =
      concat [packet_bytes sample_init] @ []"
    using sample_init_length by (simp add: two_reads_def script_conn_def script_todo_def)
qed

text \<open>
  A read of a packet that fails loses nothing: what it took from the socket is in the buffer
  behind what was there. The error is either that of the frame at the front of the buffer or, where
  no frame is complete, one of the socket: an I/O error, \<open>ConnectionClose\<close> between frames or
  \<open>ConnectionReset\<close> inside one.
\<close>
theorem read_packet_error_keeps:
  assumes "tcp_impl K T rx tx" and "read_packet K T c = Some (Err e, c')"
  shows "\<exists>new. rx (conn_socket c') = rx (conn_socket c) @ new
     \<and> bc_slice K (conn_buff c') = bc_slice K (conn_buff c) @ new
     \<and> (fst (parse_packet K c') = Err e
        \<or> fst (parse_packet K c') = Ok None \<and>
          (e = Io \<or> e = Encoding (if bc_slice K (conn_buff c') = [] then ConnectionClose else ConnectionReset)))"
proof -
  have K: "bytes_impl K" using assms(1) by (rule tcp_impl.axioms)
  show ?thesis
    using tcp_impl.read_packet_step[OF assms]
    unfolding tcp_impl.stream_step_def[OF assms(1)] bytes_impl.parse_None[OF K, symmetric]
      bytes_impl.parse_packet_fst[OF K, symmetric]
    by auto
qed

text \<open>A peer that closes in the middle of a packet.\<close>

definition cut_off :: "(u8 list, script) connection" where
  "cut_off = (script_conn [] 1)\<lparr>conn_socket :=
     \<lparr>scr_in = [], scr_rx = [1, 2, 3], scr_tx = [], scr_max = 1\<rparr>, conn_buff := [1, 2, 3]\<rparr>"

lemma cut_run:
  "read_packet bytes_list script_tcp (script_conn [[1, 2, 3]] 1) =
     Some (Err (Encoding ConnectionReset),
cut_off)"
proof -
  have "fst (parse_packet bytes_list c) = Ok None" if "length (conn_buff c) < 20"
    for c :: "(u8 list, script) connection"
    using that by (simp add: script_parse parse_result_def frame_length_def)
  then show ?thesis
    by (simp add: bytes_list_crate.read_packet_cases read_socket_def script_conn_def script_read_def
        zoom_def io_def abind_def cut_off_def)
qed

theorem read_packet_error_keeps_witness:
  "\<exists>new. scr_rx (conn_socket cut_off) = scr_rx (conn_socket (script_conn [[1, 2, 3]] 1)) @ new
     \<and> bc_slice bytes_list (conn_buff cut_off) = bc_slice bytes_list (conn_buff (script_conn [[1, 2, 3]] 1)) @ new
     \<and> (fst (parse_packet bytes_list cut_off) = Err (Encoding ConnectionReset)
        \<or> fst (parse_packet bytes_list cut_off) = Ok None \<and>
          (Encoding ConnectionReset = Io \<or> Encoding ConnectionReset = Encoding (if bc_slice bytes_list (conn_buff cut_off) = [] then ConnectionClose else ConnectionReset)))"
  by (rule read_packet_error_keeps[OF script_socket.tcp_impl_axioms cut_run])

text \<open>
  C21. Reading a packet always comes back where every read of the socket does: with a packet, an
  error or a panic. (Each read that is not the end of the stream adds a byte, and no 65,556 bytes
  are without a complete frame.)
\<close>
theorem read_packet_terminates:
  assumes "tcp_impl K T rx tx" and "\<And>s b. tcp_read_buf T (s, b) \<noteq> None"
  shows "\<exists>r c'. read_packet K T c = Some (r, c')"
  by (rule tcp_impl.read_packet_returns[OF assms])

theorem read_packet_terminates_witness:
  "\<exists>r c'. read_packet bytes_list script_tcp (script_conn [[1], [2, 3], []] 1) = Some (r, c')"
  by (rule read_packet_terminates[OF script_socket.tcp_impl_axioms script_live])

text \<open>
  A frame that is complete but does not decode is never skipped: \<open>read_packet\<close> reports the same
  error again at every call, without touching the socket, and leaves the connection as it was.
\<close>
theorem bad_frame_is_permanent:
  assumes "bytes_impl K" and "fst (parse_packet K c) = Err e"
  shows "read_packet K T c = Some (Err e, c) \<and> e = Encoding BadUtf8
     \<and> read_packets K T (Suc n) c = Some (Err e, c)"
proof -
  have run: "read_packet K T c = Some (Err e, c)"
    using assms(2) by (simp add: bytes_impl.read_packet_cases[OF assms(1)])
  moreover from assms have "e = Encoding BadUtf8"
    by (auto simp: bytes_impl.parse_packet_fst dest: parse_error_utf8)
  ultimately show ?thesis by simp
qed

text \<open>A capture packet whose name is not UTF-8.\<close>

definition bad_capture :: "(u8 list, script) connection" where
  "bad_capture = (script_conn [] 1)\<lparr>conn_buff := header_bytes guid_default 10 32 @ replicate 32 0xFF\<rparr>"

lemma bad_capture_parse: "fst (parse_packet bytes_list bad_capture) = Err (Encoding BadUtf8)"
proof -
  have "\<not> utf8_valid (replicate 32 0xFF)" by code_simp
  then have "decode_data list_buf 10 32 (replicate 32 0xFF @ []) = (Err BadUtf8, [])"
    by (simp only: decode_data_def) (simp add: COSTUME_NAME_SIZE_def del: append_Nil2)
  then show ?thesis
    by (simp add: script_parse parse_result_def bad_capture_def frame_length_header header_run)
qed

theorem bad_frame_is_permanent_witness:
  "read_packet bytes_list script_tcp bad_capture = Some (Err (Encoding BadUtf8), bad_capture)
     \<and> Encoding BadUtf8 = Encoding BadUtf8
     \<and> read_packets bytes_list script_tcp (Suc 5) bad_capture = Some (Err (Encoding BadUtf8), bad_capture)"
  by (rule bad_frame_is_permanent[OF bytes_list_crate.bytes_impl_axioms bad_capture_parse])

text \<open>
  Writing a packet to a socket that takes it in one piece sends exactly its wire format, once,
  and leaves the receiving side of the connection alone.
\<close>
theorem write_packet_sends_format:
  assumes "tcp_impl K T rx tx" and "sized_packet p" and "20 + get_size (pkt_data p) \<le> usize_max"
    and "tcp_write T (packet_bytes p) (conn_socket c) = Some (Ok (length (packet_bytes p)), s1)"
    and "tcp_flush T s1 = Some (Ok (), s2)"
  shows "write_packet K T p c = Some (Ok (), c\<lparr>conn_socket := s2\<rparr>)
     \<and> tx s2 = tx (conn_socket c) @ packet_bytes p \<and> rx s2 = rx (conn_socket c)"
  using tcp_impl.write_packet_once[OF assms] by blast

theorem write_packet_sends_format_witness:
  "write_packet bytes_list script_tcp sample_init (script_conn [] 100) =
      Some (Ok (), (script_conn [] 100)\<lparr>conn_socket :=
        \<lparr>scr_in = [], scr_rx = [], scr_tx = packet_bytes sample_init, scr_max = 100\<rparr>\<rparr>)
     \<and> scr_tx \<lparr>scr_in = [], scr_rx = [], scr_tx = packet_bytes sample_init, scr_max = 100\<rparr> =
         scr_tx (conn_socket (script_conn [] 100)) @ packet_bytes sample_init
     \<and> scr_rx \<lparr>scr_in = [], scr_rx = [], scr_tx = packet_bytes sample_init, scr_max = 100\<rparr> =
         scr_rx (conn_socket (script_conn [] 100))"
  by (rule write_packet_sends_format[OF script_socket.tcp_impl_axioms sample_init_sized])
     (simp_all add: script_write_def script_conn_def sample_init_length,
      simp add: sample_init_def usize_max_def)

text \<open>
  C36. How \<open>write_packet\<close> writes. Each turn of its loop offers the socket the whole packet, from its
  first byte, whatever the turns before got through, until the counts add up to its length; so the
  socket is left with one initial part of the packet for each turn. A socket that takes all of it
  gets it once. One that takes a first part and then enough gets the first bytes twice, and, where
  the second write was not whole either, the last ones never.
\<close>
theorem write_packet_restarts:
  assumes "tcp_impl K T rx tx" and "sized_packet p" and "20 + get_size (pkt_data p) \<le> usize_max"
    and "write_packet K T p c = Some (Ok (), c')"
  shows "(\<exists>ns s1. pushes T (packet_bytes p) ns (conn_socket c) = Some s1
        \<and> tcp_flush T s1 = Some (Ok (), conn_socket c')
        \<and> tx (conn_socket c') = tx (conn_socket c) @ concat (map (\<lambda>n. take n (packet_bytes p)) ns)
        \<and> (\<forall>n \<in> set ns. n \<le> length (packet_bytes p)) \<and> length (packet_bytes p) \<le> sum_list ns
        \<and> sum_list (butlast ns) < length (packet_bytes p))
     \<and> (\<forall>n s1. tcp_write T (packet_bytes p) (conn_socket c) = Some (Ok n, s1) \<longrightarrow>
          (if n = length (packet_bytes p)
           then tx (conn_socket c') = tx (conn_socket c) @ packet_bytes p
           else \<forall>m s2. tcp_write T (packet_bytes p) s1 = Some (Ok m, s2) \<longrightarrow>
             length (packet_bytes p) \<le> n + m \<longrightarrow>
             tx (conn_socket c') =
               tx (conn_socket c) @ take n (packet_bytes p) @ take m (packet_bytes p)))
     \<and> rx (conn_socket c') = rx (conn_socket c) \<and> conn_buff c' = conn_buff c"
proof (intro conjI allI impI)
  note w = tcp_impl.write_packet_written[OF assms(1,4,2,3)]
  have len: "0 < length (packet_bytes p)" using length_packet_bytes[OF assms(2)] by simp
  from w(1) obtain ns s1 where
    ns: "pushes T (packet_bytes p) ns (conn_socket c) = Some s1" "turns (packet_bytes p) 0 ns"
      "tcp_flush T s1 = Some (Ok (), conn_socket c')"
      "tx (conn_socket c') = tx (conn_socket c) @ rewritten (packet_bytes p) ns"
    by (auto simp: written_def)
  with len show "\<exists>ns s1. pushes T (packet_bytes p) ns (conn_socket c) = Some s1
        \<and> tcp_flush T s1 = Some (Ok (), conn_socket c')
        \<and> tx (conn_socket c') = tx (conn_socket c) @ concat (map (\<lambda>n. take n (packet_bytes p)) ns)
        \<and> (\<forall>n \<in> set ns. n \<le> length (packet_bytes p)) \<and> length (packet_bytes p) \<le> sum_list ns
        \<and> sum_list (butlast ns) < length (packet_bytes p)"
    by (intro exI[of _ ns] exI[of _ s1]) (auto simp: turns_def rewritten_def)
  fix n t assume first: "tcp_write T (packet_bytes p) (conn_socket c) = Some (Ok n, t)"
  show "if n = length (packet_bytes p)
        then tx (conn_socket c') = tx (conn_socket c) @ packet_bytes p
        else \<forall>m s2. tcp_write T (packet_bytes p) t = Some (Ok m, s2) \<longrightarrow>
          length (packet_bytes p) \<le> n + m \<longrightarrow>
          tx (conn_socket c') = tx (conn_socket c) @ take n (packet_bytes p) @ take m (packet_bytes p)"
  proof (cases "n = length (packet_bytes p)")
    case True
    with written_whole[OF w(1) _ first[unfolded True]] len show ?thesis by auto
  next
    case False
    have "tx (conn_socket c') = tx (conn_socket c) @ take n (packet_bytes p) @ take m (packet_bytes p)"
      if second: "tcp_write T (packet_bytes p) t = Some (Ok m, s2)"
        and enough: "length (packet_bytes p) \<le> n + m" for m s2
    proof -
      have "n < length (packet_bytes p)"
        using tcp_impl.write_law[OF assms(1) first] False by simp
      with first second enough ns(1,2) have "ns = [n, m]" by (rule two_turns)
      with ns(4) show ?thesis by (simp add: rewritten_def)
    qed
    with False show ?thesis by simp
  qed
next
  show "rx (conn_socket c') = rx (conn_socket c)" "conn_buff c' = conn_buff c"
    using tcp_impl.write_packet_written[OF assms(1,4,2,3)] by simp_all
qed

text \<open>An init packet through a socket that takes 12 bytes at a time: 24 bytes, not 22.\<close>

definition torn :: "(u8 list, script) connection" where
  "torn = (script_conn [] 12)\<lparr>conn_socket := \<lparr>scr_in = [], scr_rx = [],
     scr_tx = take 12 (packet_bytes sample_init) @ take 12 (packet_bytes sample_init), scr_max = 12\<rparr>\<rparr>"

lemma torn_write:
  "write_packet bytes_list script_tcp sample_init (script_conn [] 12) = Some (Ok (), torn)"
proof -
  let ?bs = "packet_bytes sample_init"
  have enc: "encoded bytes_list sample_init = Ok ?bs"
    by (rule bytes_list_crate.encoded_bytes[OF sample_init_sized]) (simp add: sample_init_def usize_max_def)
  have "write_loop script_tcp ?bs s = Some (Ok (), s\<lparr>scr_tx := scr_tx s @ take 12 ?bs @ take 12 ?bs\<rparr>)"
    if "scr_max s = 12" for s
    using that
    by (simp add: write_loop_def count_loop.simps[of _ _ 0] count_loop.simps[of _ _ 12]
        count_loop.simps[of _ _ 24] script_write_def sample_init_length io_def abind_def)
  with enc show ?thesis
    by (simp add: write_packet_def abind_def[of "\<lambda>c. Some _"] script_conn_def torn_def)
qed

theorem write_packet_restarts_witness:
  "(\<exists>ns s1. pushes script_tcp (packet_bytes sample_init) ns (conn_socket (script_conn [] 12)) = Some s1
      \<and> length (packet_bytes sample_init) \<le> sum_list ns
      \<and> sum_list (butlast ns) < length (packet_bytes sample_init))
   \<and> scr_tx (conn_socket torn) = scr_tx (conn_socket (script_conn [] 12)) @
       take 12 (packet_bytes sample_init) @ take 12 (packet_bytes sample_init)"
proof -
  have size: "20 + get_size (pkt_data sample_init) \<le> usize_max"
    by (simp add: sample_init_def usize_max_def)
  note all = write_packet_restarts[OF script_socket.tcp_impl_axioms sample_init_sized size torn_write]
  have first: "tcp_write script_tcp (packet_bytes sample_init) (conn_socket (script_conn [] 12)) =
      Some (Ok 12, (conn_socket (script_conn [] 12))\<lparr>scr_tx := take 12 (packet_bytes sample_init)\<rparr>)"
    by (simp add: script_write_def script_conn_def sample_init_length)
  have second: "tcp_write script_tcp (packet_bytes sample_init)
        ((conn_socket (script_conn [] 12))\<lparr>scr_tx := take 12 (packet_bytes sample_init)\<rparr>) =
      Some (Ok 12, conn_socket torn)"
    by (simp add: script_write_def script_conn_def sample_init_length torn_def)
  from all[THEN conjunct2, THEN conjunct1, rule_format, OF first] second
  have "scr_tx (conn_socket torn) = scr_tx (conn_socket (script_conn [] 12)) @
       take 12 (packet_bytes sample_init) @ take 12 (packet_bytes sample_init)"
    by (simp add: sample_init_length)
  with all[THEN conjunct1] show ?thesis by blast
qed

end
