(* ===== verification/Udp.thy ===== *)
theory Udp
  imports Connection_Facts
begin

text \<open>
  The UDP side of a client, \<open>src/net/udp_conn.rs\<close>: one socket for the one peer it will talk to,
  pending until the peer's port is known. It parses its datagrams as a byte stream, the same way
  the TCP connection does. The socket is tokio's, with a contract over the datagrams received and
  sent.
\<close>

section \<open>The socket\<close>

type_synonym datagram = "u8 list \<times> socket_addr"

record 'u udp =
  udp_recv_from :: "nat \<Rightarrow> (datagram, unit, 'u) async"
  udp_send_to :: "u8 list \<Rightarrow> socket_addr \<Rightarrow> (nat, unit, 'u) async"
  udp_local_addr :: "'u \<Rightarrow> socket_addr option"

section \<open>The connection\<close>

datatype udp_sender_status = Pending ip_addr | Connected socket_addr

record ('b, 'u) udp_connection =
  udp_socket :: 'u
  udp_buff :: 'b
  send_addr :: udp_sender_status

definition udp_connection_new :: "'b bytes_crate \<Rightarrow> 'u \<Rightarrow> ip_addr \<Rightarrow> ('b, 'u) udp_connection" where
  "udp_connection_new K stream a =
     \<lparr>udp_socket = stream, udp_buff = bc_with_capacity K 1024, send_addr = Pending a\<rparr>"

definition from_connection :: "'b bytes_crate \<Rightarrow> 'u \<Rightarrow> socket_addr \<Rightarrow> ('b, 'u) udp_connection" where
  "from_connection K stream a =
     \<lparr>udp_socket = stream, udp_buff = bc_with_capacity K 1024, send_addr = Connected a\<rparr>"

definition udp_parse_packet ::
  "'b bytes_crate \<Rightarrow> (packet option, smo_error, ('b, 'u) udp_connection) prog" where
  "udp_parse_packet K c = apsnd (\<lambda>b. c\<lparr>udp_buff := b\<rparr>) (parse_buffer K (udp_buff c))"

definition is_client_udp :: "('b, 'u) udp_connection \<Rightarrow> bool" where
  "is_client_udp c = (case send_addr c of Connected a \<Rightarrow> True | _ \<Rightarrow> False)"

definition set_client_port :: "u16 \<Rightarrow> ('b, 'u) udp_connection \<Rightarrow> ('b, 'u) udp_connection" where
  "set_client_port port c =
     c\<lparr>send_addr := Connected (case send_addr c of
         Pending ip \<Rightarrow> socket_addr_new ip port
       | Connected a \<Rightarrow> socket_addr_new (addr_ip a) port)\<rparr>"

text \<open>A datagram from the expected address goes into the buffer; any other is dropped.\<close>

definition udp_accept ::
  "'b bytes_crate \<Rightarrow> socket_addr \<Rightarrow> datagram \<Rightarrow> (unit, smo_error, ('b, 'u) udp_connection) async" where
  "udp_accept K expected_addr = (\<lambda>(bs, a).
     if a = expected_addr
     then zoom udp_buff (\<lambda>b c. c\<lparr>udp_buff := b\<rparr>) (sync (\<lambda>e. e) (primu (put_slice (bc_put K) bs)))
     else aret ())"

text \<open>
  \<open>recv_from\<close> fills a buffer of 100 bytes; what it does not hold of the datagram is lost. While the
  connection is pending, the future is never resolved.
\<close>

definition udp_read_socket ::
  "'b bytes_crate \<Rightarrow> 'u udp \<Rightarrow> (unit, smo_error, ('b, 'u) udp_connection) async" where
  "udp_read_socket K U c =
     (case send_addr c of
        Connected expected_addr \<Rightarrow>
          abind (zoom udp_socket (\<lambda>u c. c\<lparr>udp_socket := u\<rparr>) (io (udp_recv_from U 100)))
            (udp_accept K expected_addr) c
      | Pending ip \<Rightarrow> apending c)"

definition udp_read_packet ::
  "'b bytes_crate \<Rightarrow> 'u udp \<Rightarrow> (packet, smo_error, ('b, 'u) udp_connection) async" where
  "udp_read_packet K U = retry (sync (\<lambda>e. e) (udp_parse_packet K)) (udp_read_socket K U)"

text \<open>\<open>last_write.unwrap()\<close>: an error of the socket is a panic.\<close>

definition unwrapped :: "('a, unit, 's) async \<Rightarrow> ('a, smo_error, 's) async" where
  "unwrapped m s = map_option (\<lambda>(r, s'). (case r of Ok a \<Rightarrow> Ok a | Err u \<Rightarrow> Panic | Panic \<Rightarrow> Panic, s')) (m s)"

definition udp_write_packet ::
  "'b bytes_crate \<Rightarrow> 'u udp \<Rightarrow> packet \<Rightarrow> (unit, smo_error, ('b, 'u) udp_connection) async" where
  "udp_write_packet K U p c =
     (case send_addr c of
        Connected a \<Rightarrow>
          abind (\<lambda>c. Some (encoded K p, c)) (\<lambda>bs.
            zoom udp_socket (\<lambda>u c. c\<lparr>udp_socket := u\<rparr>)
              (count_loop (unwrapped (udp_send_to U bs a)) (length bs) 0)) c
      | Pending ip \<Rightarrow> athrow UdpNotInit c)"

section \<open>The contract of the socket\<close>

text \<open>
  \<open>got\<close> is what has arrived and been taken off the socket, \<open>sent\<close> what was sent. A datagram is sent
  whole or not at all; one that does not fit the reader's buffer is cut.
\<close>

locale udp_impl = bytes_impl K for K :: "'b bytes_crate" +
  fixes U :: "'u udp" and got :: "'u \<Rightarrow> datagram list" and sent :: "'u \<Rightarrow> datagram list"
  assumes recv_law: "udp_recv_from U n u = Some (Ok (bs, a), u') \<Longrightarrow>
      \<exists>d. got u' = got u @ [(d, a)] \<and> bs = take n d \<and> sent u' = sent u"
    and recv_fail: "udp_recv_from U n u = Some (Err e, u') \<Longrightarrow> got u' = got u \<and> sent u' = sent u"
    and send_law: "udp_send_to U bs a u = Some (Ok n, u') \<Longrightarrow>
      n = length bs \<and> got u' = got u \<and> sent u' = sent u @ [(bs, a)]"
    and send_fail: "udp_send_to U bs a u = Some (Err e, u') \<Longrightarrow> got u' = got u \<and> sent u' = sent u"

text \<open>The bytes a connection takes from datagrams: the first 100 of each of its peer's.\<close>

definition accepted :: "socket_addr \<Rightarrow> datagram list \<Rightarrow> u8 list" where
  "accepted a ds = concat (map (\<lambda>(d, b). if b = a then take 100 d else []) ds)"

lemma accepted_simps [simp]:
  "accepted a [] = []"
  "accepted a ((d, b) # ds) = (if b = a then take 100 d else []) @ accepted a ds"
  "accepted a (ds @ es) = accepted a ds @ accepted a es"
  by (simp_all add: accepted_def)

lemma unwrapped_simps [simp]:
  "m s = Some (Ok a, s') \<Longrightarrow> unwrapped m s = Some (Ok a, s')"
  "m s = Some (Err u, s') \<Longrightarrow> unwrapped m s = Some (Panic, s')"
  "m s = Some (Panic, s') \<Longrightarrow> unwrapped m s = Some (Panic, s')"
  "m s = None \<Longrightarrow> unwrapped m s = None"
  by (simp_all add: unwrapped_def)

section \<open>Parsing and reading\<close>

lemma udp_parse_keeps [simp]:
  "udp_socket (snd (udp_parse_packet K c)) = udp_socket c"
  "send_addr (snd (udp_parse_packet K c)) = send_addr c"
  by (simp_all add: udp_parse_packet_def)

context bytes_impl
begin

lemma udp_parse_Some:
  assumes "udp_parse_packet K c = (Ok (Some p), c')"
  shows "first_packet (bc_slice K (udp_buff c)) = Some (p, bc_slice K (udp_buff c'))"
proof -
  obtain r b where out: "parse_buffer K (udp_buff c) = (r, b)" by fastforce
  with parse_buffer_result[of "udp_buff c"]
  have "parse_result (bc_slice K (udp_buff c)) = (r, bc_slice K b)" by (simp add: eq_commute)
  with out assms show ?thesis by (auto simp: first_packet_def udp_parse_packet_def)
qed

lemma udp_parse_same:
  assumes "udp_parse_packet K c = (r, c')" and "\<nexists>p. r = Ok (Some p)"
  shows "c' = c"
  using parse_buffer_result[of "udp_buff c"] assms
  by (cases "parse_buffer K (udp_buff c)") (auto simp: udp_parse_packet_def)

lemma udp_parse_fst: "fst (udp_parse_packet K c) = fst (parse_result (bc_slice K (udp_buff c)))"
  using parse_buffer_result[of "udp_buff c"] by (metis fst_apsnd udp_parse_packet_def)

end

context udp_impl
begin

lemma udp_read_socket_Ok:
  assumes "udp_read_socket K U c = Some (Ok u, c')"
  obtains a d b where "send_addr c = Connected a" and "send_addr c' = Connected a"
    and "got (udp_socket c') = got (udp_socket c) @ [(d, b)]"
    and "sent (udp_socket c') = sent (udp_socket c)"
    and "bc_slice K (udp_buff c') = bc_slice K (udp_buff c) @ accepted a [(d, b)]"
proof (cases "send_addr c")
  case (Connected a)
  with assms have "abind (zoom udp_socket (\<lambda>u c. c\<lparr>udp_socket := u\<rparr>) (io (udp_recv_from U 100)))
      (udp_accept K a) c = Some (Ok u, c')"
    by (simp add: udp_read_socket_def)
  then obtain out s1 where
    sock: "zoom udp_socket (\<lambda>u c. c\<lparr>udp_socket := u\<rparr>) (io (udp_recv_from U 100)) c = Some (Ok out, s1)"
    and tail: "udp_accept K a out s1 = Some (Ok u, c')"
    by (rule abind_OkE)
  obtain bs b where out: "out = (bs, b)" by fastforce
  from sock out obtain s where recv: "udp_recv_from U 100 (udp_socket c) = Some (Ok (bs, b), s)"
    and s1: "s1 = c\<lparr>udp_socket := s\<rparr>"
    by (auto simp: zoom_def)
  from tail out s1 have rest: "udp_accept K a (bs, b) (c\<lparr>udp_socket := s\<rparr>) = Some (Ok u, c')" by simp
  from recv_law[OF recv] obtain d where d: "got s = got (udp_socket c) @ [(d, b)]" "bs = take 100 d"
    "sent s = sent (udp_socket c)"
    by auto
  show thesis
  proof (cases "b = a")
    case True
    with rest obtain buf where put: "put_slice (bc_put K) bs (udp_buff c) = Some buf"
      and c': "c' = c\<lparr>udp_socket := s, udp_buff := buf\<rparr>"
      by (auto simp: udp_accept_def zoom_def sync_eq primu_eq_Ok)
    have "bc_slice K buf = bc_slice K (udp_buff c) @ bs"
      using put.put_slice_law[of bs "udp_buff c"] put
      by (auto simp: page_put_def page_of_def split: if_splits)
    with that[of a d b] Connected d c' True show thesis by simp
  next
    case False
    with rest have "c' = c\<lparr>udp_socket := s\<rparr>" by (auto simp: udp_accept_def)
    with that[of a d b] Connected d False show thesis by simp
  qed
qed (use assms in \<open>simp add: udp_read_socket_def\<close>)

lemma udp_read_packet_log:
  assumes "udp_read_packet K U c = Some (r, c')"
  shows "\<forall>p. r = Ok p \<longrightarrow> (\<exists>ds. got (udp_socket c') = got (udp_socket c) @ ds
     \<and> sent (udp_socket c') = sent (udp_socket c) \<and> send_addr c' = send_addr c
     \<and> (ds \<noteq> [] \<longrightarrow> (\<exists>a. send_addr c = Connected a))
     \<and> first_packet (bc_slice K (udp_buff c) @
          (case send_addr c of Connected a \<Rightarrow> accepted a ds | Pending ip \<Rightarrow> []))
        = Some (p, bc_slice K (udp_buff c')))"
  using assms unfolding udp_read_packet_def
proof (induction rule: retry_induct)
  case (found c p c')
  then have out: "udp_parse_packet K c = (Ok (Some p), c')" by (simp add: sync_eq)
  from udp_parse_Some[OF out] udp_parse_keeps[of K c] out show ?case
    by (auto intro!: exI[of _ "[]"] split: udp_sender_status.splits)
next
  case (again c c0 c1 r c')
  then have "udp_parse_packet K c = (Ok None, c0)" by (simp add: sync_eq)
  then have "c0 = c" by (rule udp_parse_same) simp
  with again.hyps(2) obtain a d b where s: "send_addr c = Connected a" "send_addr c1 = Connected a"
      "got (udp_socket c1) = got (udp_socket c) @ [(d, b)]"
      "sent (udp_socket c1) = sent (udp_socket c)"
      "bc_slice K (udp_buff c1) = bc_slice K (udp_buff c) @ accepted a [(d, b)]"
    using udp_read_socket_Ok by blast
  show ?case
  proof (intro allI impI)
    fix p assume "r = Ok p"
    with again.IH s obtain ds where "got (udp_socket c') = got (udp_socket c) @ ((d, b) # ds)"
      "sent (udp_socket c') = sent (udp_socket c)" "send_addr c' = send_addr c"
      "first_packet (bc_slice K (udp_buff c) @ accepted a ((d, b) # ds)) =
          Some (p, bc_slice K (udp_buff c'))"
      by auto
    with s(1) show "\<exists>ds. got (udp_socket c') = got (udp_socket c) @ ds
       \<and> sent (udp_socket c') = sent (udp_socket c) \<and> send_addr c' = send_addr c
       \<and> (ds \<noteq> [] \<longrightarrow> (\<exists>a. send_addr c = Connected a))
       \<and> first_packet (bc_slice K (udp_buff c) @
            (case send_addr c of Connected a \<Rightarrow> accepted a ds | Pending ip \<Rightarrow> []))
          = Some (p, bc_slice K (udp_buff c'))"
      by (intro exI[of _ "(d, b) # ds"]) simp
  qed
qed simp_all

end

section \<open>Writing\<close>

context udp_impl
begin

lemma udp_write_run:
  assumes "sized_packet p" and "20 + get_size (pkt_data p) \<le> usize_max" and "send_addr c = Connected a"
  shows "udp_write_packet K U p c = zoom udp_socket (\<lambda>u c. c\<lparr>udp_socket := u\<rparr>)
     (count_loop (unwrapped (udp_send_to U (packet_bytes p) a)) (length (packet_bytes p)) 0) c"
  using assms(3) encoded_bytes[OF assms(1,2)]
  by (simp add: udp_write_packet_def abind_def[of "\<lambda>c. Some _"])

text \<open>A write that succeeds was one datagram.\<close>

lemma udp_write_Ok:
  assumes "udp_write_packet K U p c = Some (Ok u, c')"
    and "sized_packet p" and "20 + get_size (pkt_data p) \<le> usize_max"
  obtains a s where "send_addr c = Connected a" and "c' = c\<lparr>udp_socket := s\<rparr>"
    and "sent s = sent (udp_socket c) @ [(packet_bytes p, a)]" and "got s = got (udp_socket c)"
proof (cases "send_addr c")
  case (Connected a)
  let ?bs = "packet_bytes p"
  have len: "0 < length ?bs" using length_packet_bytes[OF assms(2)] by simp
  from assms(1) udp_write_run[OF assms(2,3) Connected] obtain s where
    loop: "count_loop (unwrapped (udp_send_to U ?bs a)) (length ?bs) 0 (udp_socket c) = Some (Ok (), s)"
    and c': "c' = c\<lparr>udp_socket := s\<rparr>"
    by (auto simp: zoom_def)
  obtain q s1 where first: "udp_send_to U ?bs a (udp_socket c) = Some (q, s1)"
    using loop len by (cases "udp_send_to U ?bs a (udp_socket c)") (auto simp: count_loop.simps[of _ _ 0])
  show thesis
  proof (cases q)
    case (Ok n)
    with send_law first have n: "n = length ?bs" and logs: "got s1 = got (udp_socket c)"
      "sent s1 = sent (udp_socket c) @ [(?bs, a)]"
      by auto
    from first Ok n have "unwrapped (udp_send_to U ?bs a) (udp_socket c) = Some (Ok (length ?bs), s1)"
      by simp
    with len have "count_loop (unwrapped (udp_send_to U ?bs a)) (length ?bs) 0 (udp_socket c) = Some (Ok (), s1)"
      by (rule count_loop_once)
    with loop have "s = s1" by simp
    with that[OF Connected c'] logs show thesis by simp
  next
    case (Err e)
    with first have "unwrapped (udp_send_to U ?bs a) (udp_socket c) = Some (Panic, s1)" by simp
    with len have "count_loop (unwrapped (udp_send_to U ?bs a)) (length ?bs) 0 (udp_socket c) = Some (Panic, s1)"
      by (rule count_loop_fails(2))
    with loop show thesis by simp
  next
    case Panic
    with first have "unwrapped (udp_send_to U ?bs a) (udp_socket c) = Some (Panic, s1)" by simp
    with len have "count_loop (unwrapped (udp_send_to U ?bs a)) (length ?bs) 0 (udp_socket c) = Some (Panic, s1)"
      by (rule count_loop_fails(2))
    with loop show thesis by simp
  qed
qed (use assms in \<open>simp add: udp_write_packet_def\<close>)

end

section \<open>A mailbox\<close>

text \<open>
  A socket as a value: the datagrams still to come, those received and sent, and whether sending
  works. A read with nothing to come is never resolved.
\<close>

record mailbox =
  mb_in :: "datagram list"
  mb_got :: "datagram list"
  mb_sent :: "datagram list"
  mb_up :: bool

definition mb_recv :: "nat \<Rightarrow> (datagram, unit, mailbox) async" where
  "mb_recv n u = (case mb_in u of
       [] \<Rightarrow> None
     | (d, a) # rest \<Rightarrow> Some (Ok (take n d, a), u\<lparr>mb_in := rest, mb_got := mb_got u @ [(d, a)]\<rparr>))"

definition mb_send :: "u8 list \<Rightarrow> socket_addr \<Rightarrow> (nat, unit, mailbox) async" where
  "mb_send bs a u =
     (if mb_up u then Some (Ok (length bs), u\<lparr>mb_sent := mb_sent u @ [(bs, a)]\<rparr>) else Some (Err (), u))"

definition mailbox_udp :: "mailbox udp" where
  "mailbox_udp = \<lparr>udp_recv_from = mb_recv, udp_send_to = mb_send,
     udp_local_addr = (\<lambda>_. Some (SocketV4 0 51888))\<rparr>"

lemma mailbox_udp_ops [simp]:
  "udp_recv_from mailbox_udp = mb_recv" "udp_send_to mailbox_udp = mb_send"
  "udp_local_addr mailbox_udp u = Some (SocketV4 0 51888)"
  by (simp_all add: mailbox_udp_def)

interpretation mailbox_socket: udp_impl bytes_list mailbox_udp mb_got mb_sent
  by unfold_locales (auto simp: mb_recv_def mb_send_def split: list.splits if_splits)

definition mb_conn :: "datagram list \<Rightarrow> bool \<Rightarrow> udp_sender_status \<Rightarrow> (u8 list, mailbox) udp_connection" where
  "mb_conn ds up st = \<lparr>udp_socket = \<lparr>mb_in = ds, mb_got = [], mb_sent = [], mb_up = up\<rparr>,
     udp_buff = [], send_addr = st\<rparr>"

section \<open>What the connection promises\<close>

text \<open>
  C37. A packet read over UDP is the first frame of what was left in the buffer and the first 100
  bytes of each datagram of the peer, in the order they arrived. Datagrams from any other address
  leave no trace, nothing is sent, and the peer stays the same.
\<close>
theorem udp_reads_peer_frames:
  assumes "udp_impl K U got sent" and "udp_read_packet K U c = Some (Ok p, c')"
    and "send_addr c = Connected a"
  shows "\<exists>ds n. got (udp_socket c') = got (udp_socket c) @ ds
     \<and> sent (udp_socket c') = sent (udp_socket c) \<and> send_addr c' = Connected a
     \<and> frame_length (bc_slice K (udp_buff c) @ accepted a ds) = Some n
     \<and> fst (decode_packet list_buf (bc_slice K (udp_buff c) @ accepted a ds)) = Ok p
     \<and> bc_slice K (udp_buff c') = drop n (bc_slice K (udp_buff c) @ accepted a ds)"
proof -
  from udp_impl.udp_read_packet_log[OF assms(1,2)] assms(3) obtain ds
    where "got (udp_socket c') = got (udp_socket c) @ ds" "sent (udp_socket c') = sent (udp_socket c)"
      "send_addr c' = Connected a"
      "first_packet (bc_slice K (udp_buff c) @ accepted a ds) = Some (p, bc_slice K (udp_buff c'))"
    by auto
  then show ?thesis by (auto simp: first_packet_eq)
qed

text \<open>A stranger's datagram, then the peer's.\<close>

definition peer :: socket_addr where "peer = SocketV4 1 9000"
definition stranger :: socket_addr where "stranger = SocketV4 1 9001"

definition udp_before :: "(u8 list, mailbox) udp_connection" where
  "udp_before = mb_conn [([1, 2], stranger), (packet_bytes sample_init, peer)] True (Connected peer)"

definition udp_after :: "(u8 list, mailbox) udp_connection" where
  "udp_after = (mb_conn [] True (Connected peer))\<lparr>udp_socket := \<lparr>mb_in = [],
     mb_got = [([1, 2], stranger), (packet_bytes sample_init, peer)], mb_sent = [], mb_up = True\<rparr>\<rparr>"

lemma udp_two_run:
  "udp_read_packet bytes_list mailbox_udp
     udp_before =
   Some (Ok sample_init, udp_after)"
proof -
  have parse: "parse_buffer bytes_list b = parse_result b" for b
    using bytes_list_crate.parse_buffer_result[of b] by (simp add: apsnd_def map_prod_def split: prod.splits)
  have empty: "parse_result [] = (Ok None, [])" by (simp add: parse_result_def frame_length_def)
  show ?thesis
    by (simp add: udp_read_packet_def retry.simps[of _ _ udp_before] udp_before_def udp_after_def mb_conn_def sync_def
        retry.simps[of _ _ "\<lparr>udp_socket = _, udp_buff = _, send_addr = _\<rparr>"] udp_parse_packet_def
        parse empty udp_read_socket_def zoom_def io_def mb_recv_def udp_accept_def peer_def
        stranger_def primu_def bytes_mut_put_def sample_init_length usize_max_def
        parse_result_complete abind_def)
qed

theorem udp_reads_peer_frames_witness:
  "\<exists>ds n. mb_got (udp_socket udp_after) =
     mb_got (udp_socket udp_before) @ ds
     \<and> mb_sent (udp_socket udp_after) =
       mb_sent (udp_socket udp_before)
     \<and> send_addr udp_after = Connected peer
     \<and> frame_length (bc_slice bytes_list (udp_buff udp_before)
         @ accepted peer ds) = Some n
     \<and> fst (decode_packet list_buf (bc_slice bytes_list (udp_buff udp_before)
         @ accepted peer ds)) = Ok sample_init
     \<and> bc_slice bytes_list (udp_buff udp_after) =
         drop n (bc_slice bytes_list (udp_buff udp_before)
         @ accepted peer ds)"
  by (rule udp_reads_peer_frames[OF mailbox_socket.udp_impl_axioms udp_two_run]) (simp add: udp_before_def mb_conn_def)

text \<open>
  Writing to a connected peer, where the socket sends, is one datagram with exactly the packet's
  wire format, to the peer's address; the parsing side is left alone.
\<close>
theorem udp_write_one_datagram:
  assumes "udp_impl K U got sent" and "sized_packet p" and "20 + get_size (pkt_data p) \<le> usize_max"
    and "send_addr c = Connected a"
    and "udp_send_to U (packet_bytes p) a (udp_socket c) = Some (Ok n, u)"
  shows "udp_write_packet K U p c = Some (Ok (), c\<lparr>udp_socket := u\<rparr>)
     \<and> sent u = sent (udp_socket c) @ [(packet_bytes p, a)] \<and> got u = got (udp_socket c)"
proof -
  from udp_impl.send_law[OF assms(1,5)] have n: "n = length (packet_bytes p)"
    and logs: "got u = got (udp_socket c) \<and> sent u = sent (udp_socket c) @ [(packet_bytes p, a)]"
    by auto
  have "0 < length (packet_bytes p)" using length_packet_bytes[OF assms(2)] by simp
  moreover have "unwrapped (udp_send_to U (packet_bytes p) a) (udp_socket c) = Some (Ok (length (packet_bytes p)), u)"
    using assms(5) n by simp
  ultimately have "count_loop (unwrapped (udp_send_to U (packet_bytes p) a)) (length (packet_bytes p)) 0
      (udp_socket c) = Some (Ok (), u)"
    by (rule count_loop_once)
  with logs show ?thesis by (simp add: udp_impl.udp_write_run[OF assms(1-4)])
qed

lemma sample_init_room: "20 + get_size (pkt_data sample_init) \<le> usize_max"
  by (simp add: sample_init_def usize_max_def)

theorem udp_write_one_datagram_witness:
  "udp_write_packet bytes_list mailbox_udp sample_init udp_before = Some (Ok (), udp_before\<lparr>udp_socket :=
      (udp_socket udp_before)\<lparr>mb_sent := [(packet_bytes sample_init, peer)]\<rparr>\<rparr>)
    \<and> mb_sent ((udp_socket udp_before)\<lparr>mb_sent := [(packet_bytes sample_init, peer)]\<rparr>) =
        mb_sent (udp_socket udp_before) @ [(packet_bytes sample_init, peer)]
    \<and> mb_got ((udp_socket udp_before)\<lparr>mb_sent := [(packet_bytes sample_init, peer)]\<rparr>) =
        mb_got (udp_socket udp_before)"
  by (rule udp_write_one_datagram[OF mailbox_socket.udp_impl_axioms sample_init_sized sample_init_room])
     (simp_all add: udp_before_def mb_conn_def mb_send_def)

text \<open>
  An error of the UDP socket while sending is not an error of \<open>write_packet\<close>: the \<open>unwrap\<close> makes
  it a panic.
\<close>
theorem udp_send_error_panics:
  assumes "udp_impl K U got sent" and "sized_packet p" and "20 + get_size (pkt_data p) \<le> usize_max"
    and "send_addr c = Connected a"
    and "udp_send_to U (packet_bytes p) a (udp_socket c) = Some (Err e, u)"
  shows "udp_write_packet K U p c = Some (Panic, c\<lparr>udp_socket := u\<rparr>) \<and> sent u = sent (udp_socket c)"
proof -
  have "0 < length (packet_bytes p)" using length_packet_bytes[OF assms(2)] by simp
  moreover have "unwrapped (udp_send_to U (packet_bytes p) a) (udp_socket c) = Some (Panic, u)"
    using assms(5) by simp
  ultimately have "count_loop (unwrapped (udp_send_to U (packet_bytes p) a)) (length (packet_bytes p)) 0
      (udp_socket c) = Some (Panic, u)"
    by (rule count_loop_fails)
  with udp_impl.send_fail[OF assms(1,5)] show ?thesis by (simp add: udp_impl.udp_write_run[OF assms(1-4)])
qed

theorem udp_send_error_panics_witness:
  "udp_write_packet bytes_list mailbox_udp sample_init (mb_conn [] False (Connected peer)) =
     Some (Panic, (mb_conn [] False (Connected peer))\<lparr>udp_socket := udp_socket (mb_conn [] False (Connected peer))\<rparr>)
   \<and> mb_sent (udp_socket (mb_conn [] False (Connected peer))) = mb_sent (udp_socket (mb_conn [] False (Connected peer)))"
  by (rule udp_send_error_panics[OF mailbox_socket.udp_impl_axioms sample_init_sized sample_init_room])
     (simp_all add: mb_conn_def mb_send_def)

text \<open>
  Until the client has told its port the UDP side is closed: writing a packet is the error
  \<open>UdpNotInit\<close> and sends nothing, and reading waits for ever. Telling the port opens it to the
  client's own IP address at that port, and to nothing else.
\<close>
theorem udp_pending_until_port:
  assumes "bytes_impl K" and "send_addr c = Pending ip" and "frame_length (bc_slice K (udp_buff c)) = None"
  shows "udp_write_packet K U p c = Some (Err UdpNotInit, c) \<and> udp_read_packet K U c = None
     \<and> \<not> is_client_udp c
     \<and> is_client_udp (set_client_port port c)
     \<and> send_addr (set_client_port port c) = Connected (socket_addr_new ip port)
     \<and> set_client_port port2 (set_client_port port c) = set_client_port port2 c"
proof -
  obtain r c' where out: "udp_parse_packet K c = (r, c')" by fastforce
  with bytes_impl.udp_parse_fst[OF assms(1), of c] assms(3) have r: "r = Ok None"
    by (simp add: parse_result_def)
  with bytes_impl.udp_parse_same[OF assms(1) out] have "c' = c" by simp
  with out r assms(2) have "udp_read_packet K U c = None"
    by (simp add: udp_read_packet_def retry.simps[of _ _ c] sync_def udp_read_socket_def)
  with assms(2) show ?thesis
    by (simp add: udp_write_packet_def is_client_udp_def set_client_port_def)
qed

theorem udp_pending_until_port_witness:
  "udp_write_packet bytes_list mailbox_udp sample_init (mb_conn [] True (Pending (V4 1))) =
       Some (Err UdpNotInit, mb_conn [] True (Pending (V4 1)))
     \<and> udp_read_packet bytes_list mailbox_udp (mb_conn [] True (Pending (V4 1))) = None
     \<and> \<not> is_client_udp (mb_conn [] True (Pending (V4 1)))
     \<and> is_client_udp (set_client_port 9000 (mb_conn [] True (Pending (V4 1))))
     \<and> send_addr (set_client_port 9000 (mb_conn [] True (Pending (V4 1)))) = Connected (socket_addr_new (V4 1) 9000)
     \<and> set_client_port 7 (set_client_port 9000 (mb_conn [] True (Pending (V4 1)))) =
         set_client_port 7 (mb_conn [] True (Pending (V4 1)))"
  by (rule udp_pending_until_port[OF bytes_list_crate.bytes_impl_axioms])
     (simp_all add: mb_conn_def frame_length_def)

text \<open>
  A datagram longer than 100 bytes is cut, and the packet in it is lost: the reader keeps its
  first 100 bytes as the beginning of a packet that is still to be completed.
\<close>
theorem long_datagram_is_cut:
  assumes "udp_impl K U got sent" and "wf_packet p" and "framed p" and "100 < length (packet_bytes p)"
    and "send_addr c = Connected a" and "bc_slice K (udp_buff c) = []"
    and "udp_read_socket K U c = Some (Ok (), c')"
    and "got (udp_socket c') = got (udp_socket c) @ [(packet_bytes p, a)]"
  shows "bc_slice K (udp_buff c') = take 100 (packet_bytes p) \<and> fst (udp_parse_packet K c') = Ok None"
proof -
  have K: "bytes_impl K" using assms(1) by (rule udp_impl.axioms)
  from udp_impl.udp_read_socket_Ok[OF assms(1,7)] obtain a' d b where
    "send_addr c = Connected a'" "got (udp_socket c') = got (udp_socket c) @ [(d, b)]"
    "bc_slice K (udp_buff c') = bc_slice K (udp_buff c) @ accepted a' [(d, b)]"
    by blast
  with assms(5,6,8) have cut: "bc_slice K (udp_buff c') = take 100 (packet_bytes p)" by simp
  have "frame_length (take 100 (packet_bytes p)) = None"
  proof -
    obtain g t n where hdr: "packet_bytes p = header_bytes g t n @ data_bytes (pkt_data p)" "wf_guid g"
      and n: "unat n = get_size (pkt_data p)"
      using assms(2,3) by (auto simp: packet_bytes_def wf_packet_def framed_def)
    have len: "length (header_bytes g t n) = 20" by (rule length_header_bytes[OF hdr(2)])
    have "length (data_bytes (pkt_data p)) = unat n"
      using n assms(2) by (simp add: length_data_bytes wf_data_sized wf_packet_def)
    with assms(4) hdr len frame_length_header[OF hdr(2), of t n "take 80 (data_bytes (pkt_data p))"]
    show ?thesis by simp
  qed
  then show ?thesis
    by (simp add: cut bytes_impl.udp_parse_fst[OF K] parse_result_def)
qed

definition big_packet :: packet where
  "big_packet = \<lparr>pkt_id = guid_default, data_size = 200, pkt_data = Unhandled 99 (replicate 200 7)\<rparr>"

lemma big_packet_ok: "wf_packet big_packet" "framed big_packet" "100 < length (packet_bytes big_packet)"
proof -
  show wf: "wf_packet big_packet" and "framed big_packet"
    by (simp_all add: big_packet_def wf_packet_def framed_def)
  show "100 < length (packet_bytes big_packet)"
    by (simp add: length_packet_bytes[OF wf_packet_sized[OF wf]]) (simp add: big_packet_def)
qed

theorem long_datagram_is_cut_witness:
  "bc_slice bytes_list (udp_buff ((mb_conn [] True (Connected peer))\<lparr>udp_socket := \<lparr>mb_in = [],
       mb_got = [(packet_bytes big_packet, peer)], mb_sent = [], mb_up = True\<rparr>,
       udp_buff := take 100 (packet_bytes big_packet)\<rparr>)) = take 100 (packet_bytes big_packet)
   \<and> fst (udp_parse_packet bytes_list ((mb_conn [] True (Connected peer))\<lparr>udp_socket := \<lparr>mb_in = [],
       mb_got = [(packet_bytes big_packet, peer)], mb_sent = [], mb_up = True\<rparr>,
       udp_buff := take 100 (packet_bytes big_packet)\<rparr>)) = Ok None"
  by (rule long_datagram_is_cut[OF mailbox_socket.udp_impl_axioms big_packet_ok, of
        "mb_conn [(packet_bytes big_packet, peer)] True (Connected peer)" peer])
     (simp_all add: mb_conn_def udp_read_socket_def zoom_def io_def mb_recv_def udp_accept_def
       primu_def sync_def bytes_mut_put_def usize_max_def abind_def)

end
