(* ===== verification/HashColl.thy ===== *)
theory HashColl
  imports SmoPrelude "HOL-Library.AList" "HOL-Library.Multiset"
begin

text \<open>
  \<open>std::collections::HashMap\<close> and \<open>HashSet\<close>. A map is its entries together with the order in which
  it iterates over them. That order is Rust's to choose (the hasher is seeded at random), so it is a
  field the map is created with, an arbitrary function: whatever is proved here holds for every
  order, and the operations still compute. \<open>map_laws\<close> states the interface the components rely on.
\<close>

section \<open>Maps\<close>

record ('k, 'v) hmap =
  hm_rank :: "'k list \<Rightarrow> 'k \<Rightarrow> nat"
  hm_entries :: "('k \<times> 'v) list"

definition hm_new :: "('k list \<Rightarrow> 'k \<Rightarrow> nat) \<Rightarrow> ('k, 'v) hmap" where
  "hm_new rank = \<lparr>hm_rank = rank, hm_entries = []\<rparr>"

definition hm_get :: "('k, 'v) hmap \<Rightarrow> 'k \<Rightarrow> 'v option" where
  "hm_get m = map_of (hm_entries m)"

definition hm_insert :: "'k \<Rightarrow> 'v \<Rightarrow> ('k, 'v) hmap \<Rightarrow> ('k, 'v) hmap" where
  "hm_insert k v m = m\<lparr>hm_entries := AList.update k v (hm_entries m)\<rparr>"

definition hm_remove :: "'k \<Rightarrow> ('k, 'v) hmap \<Rightarrow> ('k, 'v) hmap" where
  "hm_remove k m = m\<lparr>hm_entries := AList.delete k (hm_entries m)\<rparr>"

definition hm_clear :: "('k, 'v) hmap \<Rightarrow> ('k, 'v) hmap" where
  "hm_clear m = m\<lparr>hm_entries := []\<rparr>"

definition hm_len :: "('k, 'v) hmap \<Rightarrow> nat" where
  "hm_len m = length (hm_entries m)"

definition hm_iter :: "('k, 'v) hmap \<Rightarrow> ('k \<times> 'v) list" where
  "hm_iter m = sort_key (\<lambda>(k, v). hm_rank m (map fst (hm_entries m)) k) (hm_entries m)"

definition hm_keys :: "('k, 'v) hmap \<Rightarrow> 'k list" where
  "hm_keys m = map fst (hm_iter m)"

definition hm_values :: "('k, 'v) hmap \<Rightarrow> 'v list" where
  "hm_values m = map snd (hm_iter m)"

text \<open>The invariant of the type: no key has two entries.\<close>

definition hm_ok :: "('k, 'v) hmap \<Rightarrow> bool" where
  "hm_ok m \<longleftrightarrow> distinct (map fst (hm_entries m))"

section \<open>The interface\<close>

locale map_laws =
  fixes ok :: "'m \<Rightarrow> bool" and get :: "'m \<Rightarrow> 'k \<Rightarrow> 'v option"
    and insert' :: "'k \<Rightarrow> 'v \<Rightarrow> 'm \<Rightarrow> 'm" and remove' :: "'k \<Rightarrow> 'm \<Rightarrow> 'm"
    and len :: "'m \<Rightarrow> nat" and iter :: "'m \<Rightarrow> ('k \<times> 'v) list"
  assumes ok_insert: "ok m \<Longrightarrow> ok (insert' k v m)"
    and ok_remove: "ok m \<Longrightarrow> ok (remove' k m)"
    and get_insert: "get (insert' k v m) = (get m)(k \<mapsto> v)"
    and get_remove: "get (remove' k m) = (get m)(k := None)"
    and iter_distinct: "ok m \<Longrightarrow> distinct (map fst (iter m))"
    and iter_get: "ok m \<Longrightarrow> map_of (iter m) = get m"
    and len_iter: "len m = length (iter m)"

context map_laws
begin

lemma iter_mem: "ok m \<Longrightarrow> (k, v) \<in> set (iter m) \<longleftrightarrow> get m k = Some v"
  using iter_get[of m] iter_distinct[of m] by (metis map_of_eq_Some_iff)

lemma keys_dom: "ok m \<Longrightarrow> set (map fst (iter m)) = dom (get m)"
  using iter_get[of m] by (metis dom_map_of_conv_image_fst set_map)

lemma finite_dom: "ok m \<Longrightarrow> finite (dom (get m))"
  using keys_dom[of m] by (metis List.finite_set)

lemma len_card: "ok m \<Longrightarrow> len m = card (dom (get m))"
  using keys_dom[of m] iter_distinct[of m] len_iter[of m] by (metis distinct_card length_map)

lemma len_insert_new:
  "ok m \<Longrightarrow> get m k = None \<Longrightarrow> len (insert' k v m) = Suc (len m)"
  using len_card[of m] len_card[of "insert' k v m"] finite_dom[of m]
  by (simp add: ok_insert get_insert domIff)

lemma len_insert_old:
  "ok m \<Longrightarrow> get m k = Some w \<Longrightarrow> len (insert' k v m) = len m"
  using len_card[of m] len_card[of "insert' k v m"]
  by (simp add: ok_insert get_insert insert_absorb domI)

lemma len_remove_le: "ok m \<Longrightarrow> len (remove' k m) \<le> len m"
  using len_card[of m] len_card[of "remove' k m"] finite_dom[of m]
  by (simp add: ok_remove get_remove card_Diff1_le)

end

lemma mset_hm_iter [simp]: "mset (hm_iter m) = mset (hm_entries m)"
  by (simp add: hm_iter_def)

lemma set_hm_iter [simp]: "set (hm_iter m) = set (hm_entries m)"
  by (simp add: hm_iter_def)

lemma distinct_hm_iter: "hm_ok m \<Longrightarrow> distinct (map fst (hm_iter m))"
  unfolding hm_ok_def
  by (rule mset_eq_imp_distinct_iff[THEN iffD2, of _ "map fst (hm_entries m)"]) simp_all

lemma map_of_hm_iter: "hm_ok m \<Longrightarrow> map_of (hm_iter m) = hm_get m"
  unfolding hm_get_def using distinct_hm_iter[of m]
  by (intro map_of_inject_set[THEN iffD2]) (simp_all add: hm_ok_def)

interpretation hm: map_laws hm_ok hm_get hm_insert hm_remove hm_len hm_iter
proof unfold_locales
  fix m :: "('k, 'v) hmap" and k v
  show "hm_len m = length (hm_iter m)"
    by (simp add: hm_len_def hm_iter_def)
qed (auto simp: hm_ok_def hm_insert_def hm_remove_def hm_get_def distinct_update distinct_delete
    update_conv' delete_conv' distinct_hm_iter map_of_hm_iter[unfolded hm_get_def hm_ok_def]
    distinct_hm_iter[unfolded hm_ok_def])

lemma hm_new_simps [simp]:
  "hm_ok (hm_new rank)" "hm_get (hm_new rank) = Map.empty" "hm_len (hm_new rank) = 0"
  "hm_iter (hm_new rank) = []"
  by (simp_all add: hm_new_def hm_ok_def hm_get_def hm_len_def hm_iter_def fun_eq_iff)

lemma hm_clear_simps [simp]:
  "hm_ok (hm_clear m)" "hm_get (hm_clear m) = Map.empty" "hm_len (hm_clear m) = 0"
  by (simp_all add: hm_clear_def hm_ok_def hm_get_def hm_len_def fun_eq_iff)

declare hm.ok_insert [simp, intro] hm.ok_remove [simp, intro] hm.get_insert [simp] hm.get_remove [simp]

lemma hm_values_mem: "hm_ok m \<Longrightarrow> v \<in> set (hm_values m) \<longleftrightarrow> (\<exists>k. hm_get m k = Some v)"
  using hm.iter_mem[of m] by (force simp: hm_values_def simp del: set_hm_iter)

lemma hm_keys_set: "hm_ok m \<Longrightarrow> set (hm_keys m) = dom (hm_get m)"
  using hm.keys_dom[of m] by (simp add: hm_keys_def del: set_hm_iter)

lemma hm_keys_distinct: "hm_ok m \<Longrightarrow> distinct (hm_keys m)"
  by (simp add: hm_keys_def distinct_hm_iter)

lemma length_hm_values [simp]: "length (hm_values m) = hm_len m"
  by (simp add: hm_values_def hm.len_iter)

section \<open>Sets\<close>

text \<open>A set is a map to units, as in the standard library.\<close>

type_synonym 'k hset = "('k, unit) hmap"

definition hs_insert :: "'k \<Rightarrow> 'k hset \<Rightarrow> 'k hset" where
  "hs_insert k s = hm_insert k () s"

definition hs_contains :: "'k hset \<Rightarrow> 'k \<Rightarrow> bool" where
  "hs_contains s k = (hm_get s k \<noteq> None)"

definition hs_difference :: "'k hset \<Rightarrow> 'k hset \<Rightarrow> 'k list" where
  "hs_difference s t = filter (\<lambda>k. \<not> hs_contains t k) (hm_keys s)"

definition hs_set :: "'k hset \<Rightarrow> 'k set" where
  "hs_set s = {k. hs_contains s k}"

lemma hs_set_simps [simp]:
  "hs_set (hm_new rank) = {}" "hs_set (hm_clear s) = {}"
  "hs_set (hs_insert k s) = insert k (hs_set s)"
  by (auto simp: hs_set_def hs_contains_def hs_insert_def)

lemma hs_contains_set: "hs_contains s k \<longleftrightarrow> k \<in> hs_set s"
  by (simp add: hs_set_def)

lemma hs_insert_ok [simp]: "hm_ok s \<Longrightarrow> hm_ok (hs_insert k s)"
  by (simp add: hs_insert_def)

lemma set_hs_difference [simp]: "hm_ok s \<Longrightarrow> set (hs_difference s t) = hs_set s - hs_set t"
  by (auto simp: hs_difference_def hm_keys_set hs_set_def hs_contains_def)

lemma distinct_hs_difference: "hm_ok s \<Longrightarrow> distinct (hs_difference s t)"
  by (simp add: hs_difference_def hm_keys_distinct)

end
