(* ===== verification/Settings.thy ===== *)
theory Settings
  imports Connection HashColl
begin

text \<open>
  The settings of the server, \<open>src/settings.rs\<close>, and their defaults. A fresh hash set takes the
  order it will iterate in from its environment, here the argument \<open>ranks\<close>. Reading and writing the
  JSON file is the business of \<open>serde_json\<close> and of the file system.
\<close>

text \<open>The iteration orders of the hash sets a value is created with.\<close>

record ranks =
  guid_rank :: "guid list \<Rightarrow> guid \<Rightarrow> nat"
  ip_rank :: "ip_addr list \<Rightarrow> ip_addr \<Rightarrow> nat"
  shine_rank :: "i32 list \<Rightarrow> i32 \<Rightarrow> nat"

record server_settings =
  address :: ip_addr
  port :: u16
  max_players :: u16

datatype flip_pov_settings = Both | PovPlayer | Others

record flip_settings =
  flip_enabled :: bool
  flip_players :: "guid hset"
  pov :: flip_pov_settings

record scenario_settings =
  merge_enabled :: bool

record ban_list_settings =
  ban_enabled :: bool
  ban_players :: "guid hset"
  ban_ips :: "ip_addr hset"

record discord_settings =
  token :: "rstring option"
  prefix :: rstring
  log_channel :: "rstring option"

record persist_shine =
  persist_enabled :: bool
  filename :: rstring

record settings =
  server :: server_settings
  flip :: flip_settings
  scenario :: scenario_settings
  ban_list :: ban_list_settings
  discord :: discord_settings
  persist_shines :: persist_shine

section \<open>Defaults\<close>

definition server_settings_default :: server_settings where
  "server_settings_default = \<lparr>address = V4 0, port = 1027, max_players = 8\<rparr>"

definition flip_pov_settings_default :: flip_pov_settings where
  "flip_pov_settings_default = Both"

definition flip_settings_default :: "ranks \<Rightarrow> flip_settings" where
  "flip_settings_default R =
     \<lparr>flip_enabled = True, flip_players = hm_new (guid_rank R), pov = flip_pov_settings_default\<rparr>"

definition scenario_settings_default :: scenario_settings where
  "scenario_settings_default = \<lparr>merge_enabled = False\<rparr>"

definition ban_list_settings_default :: "ranks \<Rightarrow> ban_list_settings" where
  "ban_list_settings_default R =
     \<lparr>ban_enabled = False, ban_players = hm_new (guid_rank R), ban_ips = hm_new (ip_rank R)\<rparr>"

definition discord_settings_default :: discord_settings where
  "discord_settings_default = \<lparr>token = None, prefix = str_lit ''$'', log_channel = None\<rparr>"

definition persist_shine_default :: persist_shine where
  "persist_shine_default = \<lparr>persist_enabled = False, filename = str_lit ''./moons.json''\<rparr>"

definition settings_default :: "ranks \<Rightarrow> settings" where
  "settings_default R =
     \<lparr>server = server_settings_default, flip = flip_settings_default R,
      scenario = scenario_settings_default, ban_list = ban_list_settings_default R,
      discord = discord_settings_default, persist_shines = persist_shine_default\<rparr>"

end
