(* ===== verification/Cmds.thy ===== *)
theory Cmds
  imports Udp Settings
begin

text \<open>
  What the tasks of the server share and say to each other: the client and its data
  (\<open>src/client.rs\<close>, the types), the commands (\<open>src/cmds.rs\<close>), the memory behind the \<open>Arc\<close>s and the
  operations of tokio's channels and tasks.

  An \<open>Arc<RwLock<ClientData>>\<close> is an address into \<open>cells\<close>; cloning it copies the address, so that the
  coordinator's map and the client's task share the data. The program has one set of settings and
  one shine bag, so these are fields, and the handle of the settings in \<open>ClientData\<close> is left out. Taking a lock is immediate: each handler is modelled as it
  runs when no other task holds the lock it asks for.
\<close>

section \<open>Clients\<close>

type_synonym chan = nat

record client_data =
  cd_name :: rstring
  shine_sync :: "i32 hset"
  cd_scenario :: u8
  is_2d :: bool
  is_seeking :: bool
  last_game_packet :: "packet option"
  speedrun_start :: bool
  loaded_save :: bool
  time :: u64
  cd_costume :: costume

text \<open>\<open>#[derive(Default)]\<close>.\<close>

definition client_data_default :: "ranks \<Rightarrow> client_data" where
  "client_data_default R =
     \<lparr>cd_name = [], shine_sync = hm_new (shine_rank R), cd_scenario = 0, is_2d = False,
      is_seeking = False, last_game_packet = None, speedrun_start = False, loaded_save = False,
      time = 0, cd_costume = costume_default\<rparr>"

record ('b, 's, 'u) client =
  display_name :: rstring
  cli_data :: nat
  cli_guid :: guid
  alive :: bool
  conn :: "('b, 's) connection"
  udp_conn :: "('b, 'u) udp_connection"
  to_coord :: chan
  from_server :: chan

section \<open>Commands\<close>

datatype player_select = SelectPlayer string | AllPlayers

text \<open>\<open>FromStr for PlayerSelect\<close> cannot fail; \<open>FromStr for FlipValues\<close> is not implemented.\<close>

definition player_select_from_str :: "string \<Rightarrow> (player_select, 'e) res" where
  "player_select_from_str s = Ok (if s = ''*'' then AllPlayers else SelectPlayer s)"

datatype flip_values = FlipBoth | FlipPlayer | FlipOthers

definition flip_values_from_str :: "string \<Rightarrow> (flip_values, 'e) res" where
  "flip_values_from_str s = Panic"

datatype scenario_command = Merge "bool option"

datatype tag_command =
    TagTime player_select u16 u8
  | TagSeeking player_select bool
  | TagStart u8 string

datatype flip_command =
    FlipList
  | FlipAdd guid
  | FlipRemove guid
  | FlipSet bool
  | FlipPov flip_values

datatype shine_command =
    ShineList
  | ShineClear
  | ShineSync
  | ShineSend u32 player_select

datatype cli_command =
    SendAll string
  | Send string string i8 "player_select list"
  | Ban "player_select list"
  | Crash "player_select list"
  | Rejoin "player_select list"
  | Scenario scenario_command
  | TagCmd tag_command
  | MaxPlayers u16
  | ListPlayers
  | Flip flip_command
  | ShineCmd shine_command
  | LoadSettings

datatype ('b, 's, 'u) server_command =
    NewPlayer "('b, 's, 'u) client" packet chan
  | DisconnectPlayer guid
  | Shutdown

datatype ('b, 's, 'u) command =
    PacketCmd packet
  | CliCmd cli_command
  | ServerCmd "('b, 's, 'u) server_command"

section \<open>Shared memory\<close>

record 'x shared =
  cells :: "nat \<Rightarrow> client_data"
  next_cell :: nat
  shine_bag :: "i32 hset"
  sh_settings :: settings
  runtime :: 'x

definition update_cell :: "nat \<Rightarrow> (client_data \<Rightarrow> client_data) \<Rightarrow> 'x shared \<Rightarrow> 'x shared" where
  "update_cell a f w = w\<lparr>cells := (cells w)(a := f (cells w a))\<rparr>"

text \<open>\<open>Arc::new(RwLock::new(data))\<close>.\<close>

definition new_cell :: "client_data \<Rightarrow> 'x shared \<Rightarrow> nat \<times> 'x shared" where
  "new_cell d w = (next_cell w, w\<lparr>cells := (cells w)(next_cell w := d), next_cell := Suc (next_cell w)\<rparr>)"

lemma update_cell_simps [simp]:
  "cells (update_cell a f w) a = f (cells w a)"
  "b \<noteq> a \<Longrightarrow> cells (update_cell a f w) b = cells w b"
  "next_cell (update_cell a f w) = next_cell w" "shine_bag (update_cell a f w) = shine_bag w"
  "sh_settings (update_cell a f w) = sh_settings w" "runtime (update_cell a f w) = runtime w"
  by (simp_all add: update_cell_def)

section \<open>Channels and tasks\<close>

text \<open>
  The tasks that are spawned: a client's event loop, and the delayed shine sync of the coordinator.
  \<open>rt_send\<close> waits for room in the channel, and fails when the receiver is gone; \<open>rt_recv\<close> waits for
  a message, and has none when all senders are gone; \<open>rt_pick\<close> is the branch of a \<open>select!\<close> that
  wins.
\<close>

datatype ('b, 's, 'u) task =
    ClientTask "('b, 's, 'u) client"
  | DelayedSync chan guid nat

datatype source = FromTcp | FromUdp | FromServer

record ('b, 's, 'u, 'x) tokio =
  rt_channel :: "nat \<Rightarrow> 'x shared \<Rightarrow> chan \<times> 'x shared"
  rt_send :: "chan \<Rightarrow> ('b, 's, 'u) command \<Rightarrow> (unit, unit, 'x shared) async"
  rt_recv :: "chan \<Rightarrow> (('b, 's, 'u) command option, unit, 'x shared) async"
  rt_spawn :: "('b, 's, 'u) task \<Rightarrow> 'x shared \<Rightarrow> 'x shared"
  rt_pick :: "'x shared \<Rightarrow> source"

text \<open>The conversion of a \<open>SendError\<close> by \<open>?\<close>.\<close>

definition send ::
  "('b, 's, 'u, 'x) tokio \<Rightarrow> chan \<Rightarrow> ('b, 's, 'u) command \<Rightarrow> (unit, smo_error, 'x shared) async" where
  "send rt ch cmd w = map_option (apfst (map_err (\<lambda>_. SendChannel))) (rt_send rt ch cmd w)"

text \<open>
  \<open>log\<close> is what this task has sent, and where; \<open>tasks\<close> is what it has spawned. A send that succeeds
  has put its message into the channel, one that fails has put nothing anywhere.
\<close>

locale tokio_impl =
  fixes rt :: "('b, 's, 'u, 'x) tokio"
    and log :: "'x shared \<Rightarrow> (chan \<times> ('b, 's, 'u) command) list"
    and tasks :: "'x shared \<Rightarrow> ('b, 's, 'u) task list"
  assumes send_ok: "rt_send rt ch cmd w = Some (Ok u, w') \<Longrightarrow>
      log w' = log w @ [(ch, cmd)] \<and> tasks w' = tasks w"
    and send_err: "rt_send rt ch cmd w = Some (Err u, w') \<Longrightarrow> log w' = log w \<and> tasks w' = tasks w"
    and recv_law: "rt_recv rt ch w = Some (q, w') \<Longrightarrow> log w' = log w \<and> tasks w' = tasks w"
    and send_no_panic: "rt_send rt ch cmd w \<noteq> Some (Panic, w')"
    and spawn_law: "log (rt_spawn rt t w) = log w" "tasks (rt_spawn rt t w) = tasks w @ [t]"
    and channel_law: "rt_channel rt n w = (ch, w') \<Longrightarrow> log w' = log w \<and> tasks w' = tasks w"
    and log_memory: "log (update_cell a f w) = log w" "log (w\<lparr>shine_bag := b\<rparr>) = log w"
      "log (w\<lparr>cells := h, next_cell := m\<rparr>) = log w"
      "tasks (update_cell a f w) = tasks w" "tasks (w\<lparr>shine_bag := b\<rparr>) = tasks w"
      "tasks (w\<lparr>cells := h, next_cell := m\<rparr>) = tasks w"

text \<open>A runtime in which no other task changes the shared memory while this one waits.\<close>

locale tokio_quiet = tokio_impl +
  assumes send_quiet: "rt_send rt ch cmd w = Some (r, w') \<Longrightarrow>
      cells w' = cells w \<and> next_cell w' = next_cell w \<and> shine_bag w' = shine_bag w
      \<and> sh_settings w' = sh_settings w"
    and spawn_quiet: "cells (rt_spawn rt t w) = cells w" "shine_bag (rt_spawn rt t w) = shine_bag w"
      "next_cell (rt_spawn rt t w) = next_cell w" "sh_settings (rt_spawn rt t w) = sh_settings w"
    and channel_quiet: "rt_channel rt n w = (ch, w') \<Longrightarrow> cells w' = cells w \<and> next_cell w' = next_cell w
      \<and> shine_bag w' = shine_bag w \<and> sh_settings w' = sh_settings w"

lemma send_eq [simp]:
  "send rt ch cmd w = Some (Ok u, w') \<longleftrightarrow> rt_send rt ch cmd w = Some (Ok u, w')"
  "send rt ch cmd w = Some (Err e, w') \<longleftrightarrow> e = SendChannel \<and> rt_send rt ch cmd w = Some (Err (), w')"
  "send rt ch cmd w = Some (Panic, w') \<longleftrightarrow> rt_send rt ch cmd w = Some (Panic, w')"
  "send rt ch cmd w = None \<longleftrightarrow> rt_send rt ch cmd w = None"
  by (auto simp: send_def)

text \<open>Several sends in a row, ended by the first that fails.\<close>

definition send_each ::
  "('b, 's, 'u, 'x) tokio \<Rightarrow> (chan \<times> ('b, 's, 'u) command) list \<Rightarrow> (unit, smo_error, 'x shared) async" where
  "send_each rt = for_each (\<lambda>(ch, cmd). send rt ch cmd)"

lemma send_each_simps [simp]:
  "send_each rt [] = aret ()"
  "send_each rt ((ch, cmd) # ms) = abind (send rt ch cmd) (\<lambda>_. send_each rt ms)"
  by (simp_all add: send_each_def)

lemma send_each_append: "send_each rt (ms @ ns) = abind (send_each rt ms) (\<lambda>_. send_each rt ns)"
  unfolding send_each_def by (rule for_each_append)

text \<open>From here on, a send that returns has succeeded.\<close>

definition never_refuses :: "('b, 's, 'u, 'x) tokio \<Rightarrow> 'x shared \<Rightarrow> bool" where
  "never_refuses rt w \<longleftrightarrow> (\<exists>P. P w \<and>
     (\<forall>ch cmd w r w'. P w \<longrightarrow> rt_send rt ch cmd w = Some (r, w') \<longrightarrow> r = Ok () \<and> P w'))"

lemma never_refuses_send:
  assumes "never_refuses rt w" and "rt_send rt ch cmd w = Some (r, w')"
  shows "r = Ok () \<and> never_refuses rt w'"
proof -
  from assms(1) obtain P where P: "P w"
    and step: "\<And>ch cmd w r w'. P w \<Longrightarrow> rt_send rt ch cmd w = Some (r, w') \<Longrightarrow> r = Ok () \<and> P w'"
    unfolding never_refuses_def by metis
  from step[OF P assms(2)] have "r = Ok ()" "P w'" by simp_all
  then show ?thesis
    unfolding never_refuses_def using step by (intro conjI exI[of _ P]) simp_all
qed

lemma never_refuses_each:
  "never_refuses rt w \<Longrightarrow> send_each rt ms w = Some (r, w') \<Longrightarrow> r = Ok () \<and> never_refuses rt w'"
proof (induction ms arbitrary: w)
  case (Cons m ms)
  obtain ch cmd where "m = (ch, cmd)" by fastforce
  with Cons.prems have "abind (send rt ch cmd) (\<lambda>_. send_each rt ms) w = Some (r, w')" by simp
  then show ?case
  proof (cases rule: abind_cases)
    case (ok u w1)
    from never_refuses_send[OF Cons.prems(1)] ok(1) have "never_refuses rt w1" by auto
    with Cons.IH ok(2) show ?thesis by blast
  qed (auto dest: never_refuses_send[OF Cons.prems(1)])
qed auto

definition same_memory :: "'x shared \<Rightarrow> 'x shared \<Rightarrow> bool" where
  "same_memory w w' \<longleftrightarrow> cells w' = cells w \<and> next_cell w' = next_cell w \<and> shine_bag w' = shine_bag w
     \<and> sh_settings w' = sh_settings w"

lemma same_memory_refl [simp]: "same_memory w w"
  by (simp add: same_memory_def)

lemma same_memory_trans: "same_memory w w' \<Longrightarrow> same_memory w' w'' \<Longrightarrow> same_memory w w''"
  by (simp add: same_memory_def)

context tokio_impl
begin

text \<open>What such a row leaves in the channels: all of it, or what comes before the failed send.\<close>

lemma send_each_log:
  "send_each rt ms w = Some (r, w') \<Longrightarrow>
   tasks w' = tasks w \<and>
   (r = Ok () \<and> log w' = log w @ ms \<or>
    r = Err SendChannel \<and> (\<exists>k < length ms. log w' = log w @ take k ms))"
proof (induction ms arbitrary: w)
  case (Cons m ms)
  obtain ch cmd where m: "m = (ch, cmd)" by fastforce
  from Cons.prems m have "abind (send rt ch cmd) (\<lambda>_. send_each rt ms) w = Some (r, w')" by simp
  then show ?case
  proof (cases rule: abind_cases)
    case (ok u w1)
    from ok(1) have "log w1 = log w @ [m] \<and> tasks w1 = tasks w" using m by (auto dest: send_ok)
    with Cons.IH[OF ok(2)] show ?thesis
      by (auto intro: exI[of _ "Suc _"])
  next
    case (err e)
    then show ?thesis by (auto dest!: send_err intro!: exI[of _ 0])
  next
    case panic
    then show ?thesis by (simp add: send_no_panic)
  qed
qed simp

end

context tokio_quiet
begin

lemma rt_send_memory: "rt_send rt ch cmd w = Some (r, w') \<Longrightarrow> same_memory w w'"
  unfolding same_memory_def by (rule send_quiet)

lemma send_memory: "send rt ch cmd w = Some (r, w') \<Longrightarrow> same_memory w w'"
  by (cases r) (auto dest: rt_send_memory)

lemma send_each_memory: "send_each rt ms w = Some (r, w') \<Longrightarrow> same_memory w w'"
proof (induction ms arbitrary: w)
  case (Cons m ms)
  obtain ch cmd where m: "m = (ch, cmd)" by fastforce
  from Cons.prems m have "abind (send rt ch cmd) (\<lambda>_. send_each rt ms) w = Some (r, w')" by simp
  then show ?case
    by (cases rule: abind_cases) (auto intro: same_memory_trans rt_send_memory Cons.IH)
qed simp

end

section \<open>A runtime\<close>

text \<open>
  Channels as one list of messages not yet received, each channel with its capacity; a channel may
  be closed. Sending to a full channel waits for ever, as does receiving from an empty one: nobody
  else runs.
\<close>

record ('b, 's, 'u) post =
  po_log :: "(chan \<times> ('b, 's, 'u) command) list"
  po_queue :: "(chan \<times> ('b, 's, 'u) command) list"
  po_cap :: "chan \<Rightarrow> nat"
  po_next :: chan
  po_closed :: "chan list"
  po_tasks :: "('b, 's, 'u) task list"
  po_pick :: source

definition on_runtime :: "('x \<Rightarrow> 'x) \<Rightarrow> 'x shared \<Rightarrow> 'x shared" where
  "on_runtime f w = w\<lparr>runtime := f (runtime w)\<rparr>"

lemma on_runtime_simps [simp]:
  "runtime (on_runtime f w) = f (runtime w)" "cells (on_runtime f w) = cells w"
  "next_cell (on_runtime f w) = next_cell w" "shine_bag (on_runtime f w) = shine_bag w"
  "sh_settings (on_runtime f w) = sh_settings w"
  by (simp_all add: on_runtime_def)

definition queued :: "chan \<Rightarrow> ('b, 's, 'u) post \<Rightarrow> ('b, 's, 'u) command list" where
  "queued ch x = map snd (filter (\<lambda>(c, _). c = ch) (po_queue x))"

definition post_send ::
  "chan \<Rightarrow> ('b, 's, 'u) command \<Rightarrow> (unit, unit, ('b, 's, 'u) post shared) async" where
  "post_send ch cmd w =
     (if ch \<in> set (po_closed (runtime w)) then Some (Err (), w)
      else if length (queued ch (runtime w)) < po_cap (runtime w) ch
      then Some (Ok (), on_runtime (\<lambda>x. x\<lparr>po_log := po_log x @ [(ch, cmd)],
             po_queue := po_queue x @ [(ch, cmd)]\<rparr>) w)
      else None)"

fun take_first :: "chan \<Rightarrow> (chan \<times> 'a) list \<Rightarrow> ('a \<times> (chan \<times> 'a) list) option" where
  "take_first ch [] = None"
| "take_first ch ((c, m) # ms) =
     (if c = ch then Some (m, ms) else map_option (apsnd ((#) (c, m))) (take_first ch ms))"

definition post_recv ::
  "chan \<Rightarrow> (('b, 's, 'u) command option, unit, ('b, 's, 'u) post shared) async" where
  "post_recv ch w =
     (case take_first ch (po_queue (runtime w)) of
        Some (m, q) \<Rightarrow> Some (Ok (Some m), on_runtime (\<lambda>x. x\<lparr>po_queue := q\<rparr>) w)
      | None \<Rightarrow> if ch \<in> set (po_closed (runtime w)) then Some (Ok None, w) else None)"

definition post_tokio :: "('b, 's, 'u, ('b, 's, 'u) post) tokio" where
  "post_tokio = \<lparr>
     rt_channel = (\<lambda>n w. (po_next (runtime w), on_runtime (\<lambda>x. x\<lparr>po_next := Suc (po_next x),
        po_cap := (po_cap x)(po_next x := n)\<rparr>) w)),
     rt_send = post_send,
     rt_recv = post_recv,
     rt_spawn = (\<lambda>t. on_runtime (\<lambda>x. x\<lparr>po_tasks := po_tasks x @ [t]\<rparr>)),
     rt_pick = (\<lambda>w. po_pick (runtime w)) \<rparr>"

lemma post_tokio_ops [simp]:
  "rt_send post_tokio = post_send" "rt_recv post_tokio = post_recv"
  "rt_spawn post_tokio t w = on_runtime (\<lambda>x. x\<lparr>po_tasks := po_tasks x @ [t]\<rparr>) w"
  "rt_pick post_tokio w = po_pick (runtime w)"
  "rt_channel post_tokio n w = (po_next (runtime w), on_runtime (\<lambda>x. x\<lparr>po_next := Suc (po_next x),
        po_cap := (po_cap x)(po_next x := n)\<rparr>) w)"
  by (simp_all add: post_tokio_def)

interpretation post_runtime: tokio_quiet post_tokio "\<lambda>w. po_log (runtime w)" "\<lambda>w. po_tasks (runtime w)"
  by unfold_locales (auto simp: post_send_def post_recv_def split: if_splits option.splits)

text \<open>A row of messages through open channels with room for all of it.\<close>

definition sent_all ::
  "(chan \<times> ('b, 's, 'u) command) list \<Rightarrow> ('b, 's, 'u) post shared \<Rightarrow> ('b, 's, 'u) post shared" where
  "sent_all ms = on_runtime (\<lambda>x. x\<lparr>po_log := po_log x @ ms, po_queue := po_queue x @ ms\<rparr>)"

lemma sent_all_simps [simp]:
  "cells (sent_all ms w) = cells w" "shine_bag (sent_all ms w) = shine_bag w"
  "sh_settings (sent_all ms w) = sh_settings w" "next_cell (sent_all ms w) = next_cell w"
  "po_log (runtime (sent_all ms w)) = po_log (runtime w) @ ms"
  "po_tasks (runtime (sent_all ms w)) = po_tasks (runtime w)"
  by (simp_all add: sent_all_def)

lemma post_send_each:
  "po_closed (runtime w) = [] \<Longrightarrow> (\<And>ch. length (queued ch (runtime w)) + length ms \<le> po_cap (runtime w) ch) \<Longrightarrow>
   send_each post_tokio ms w = Some (Ok (), sent_all ms w)"
proof (induction ms arbitrary: w)
  case Nil
  show ?case by (simp add: sent_all_def on_runtime_def)
next
  case (Cons m ms)
  obtain ch cmd where m: "m = (ch, cmd)" by fastforce
  let ?w = "sent_all [m] w"
  have len: "length (queued c (runtime ?w)) \<le> Suc (length (queued c (runtime w)))" for c
    by (simp add: queued_def sent_all_def)
  have "length (queued ch (runtime w)) < po_cap (runtime w) ch" using Cons.prems(2)[of ch] by simp
  then have "send post_tokio ch cmd w = Some (Ok (), ?w)"
    using Cons.prems(1) by (simp add: post_send_def m sent_all_def)
  moreover have "send_each post_tokio ms ?w = Some (Ok (), sent_all ms ?w)"
  proof (rule Cons.IH)
    show "po_closed (runtime ?w) = []" using Cons.prems(1) by (simp add: sent_all_def)
    show "length (queued c (runtime ?w)) + length ms \<le> po_cap (runtime ?w) c" for c
      using Cons.prems(2)[of c] len[of c] by (simp add: sent_all_def)
  qed
  moreover have "sent_all ms ?w = sent_all (m # ms) w"
    by (simp add: sent_all_def on_runtime_def)
  ultimately show ?case by (simp add: m)
qed

end
