(* ===== verification/Client.thy ===== *)
theory Client
  imports Cmds
begin

text \<open>
  The task of one client, \<open>src/client.rs\<close>: the handshake, the event loop over its three sources
  (the TCP connection, the UDP connection, the channel from the coordinator), and what each event
  does to the client, to its shared data and to its two connections.

  A handler works on the client, which its task owns, and on the shared memory.
\<close>

type_synonym ('b, 's, 'u, 'x) cstate = "('b, 's, 'u) client \<times> 'x shared"

text \<open>Calls on a part of this state.\<close>

definition on_conn ::
  "('a, 'e, ('b, 's) connection) async \<Rightarrow> ('a, 'e, ('b, 's, 'u, 'x) cstate) async" where
  "on_conn = zoom (\<lambda>(c, w). conn c) (\<lambda>k (c, w). (c\<lparr>conn := k\<rparr>, w))"

definition on_udp ::
  "('a, 'e, ('b, 'u) udp_connection) async \<Rightarrow> ('a, 'e, ('b, 's, 'u, 'x) cstate) async" where
  "on_udp = zoom (\<lambda>(c, w). udp_conn c) (\<lambda>k (c, w). (c\<lparr>udp_conn := k\<rparr>, w))"

definition on_shared :: "('a, 'e, 'x shared) async \<Rightarrow> ('a, 'e, ('b, 's, 'u, 'x) cstate) async" where
  "on_shared = zoom snd (\<lambda>w (c, _). (c, w))"

text \<open>A call on a value this function owns; on an error the value is dropped.\<close>

definition locally :: "('a, 'e, 't) async \<Rightarrow> 't \<Rightarrow> ('a \<times> 't, 'e, 's) async" where
  "locally m t s = (case m t of
       None \<Rightarrow> None
     | Some (Ok a, t') \<Rightarrow> Some (Ok (a, t'), s)
     | Some (Err e, t') \<Rightarrow> Some (Err e, s)
     | Some (Panic, t') \<Rightarrow> Some (Panic, s))"

section \<open>Packets from the player\<close>

definition cap_stage :: rstring where
  "cap_stage = str_lit ''CapWorldHomeStage''"

text \<open>The \<open>match\<close> of \<open>handle_packet\<close>: what it changes, and whether the packet goes on.\<close>

definition note_packet :: "packet \<Rightarrow> ('b, 's, 'u, 'x) cstate \<Rightarrow> bool \<times> ('b, 's, 'u, 'x) cstate" where
  "note_packet p = (\<lambda>(c, w). case pkt_data p of
       Costume cost \<Rightarrow>
         (True, c, update_cell (cli_data c) (\<lambda>d. d\<lparr>cd_costume := cost, loaded_save := True\<rparr>) w)
     | Game flat scenario_num stage \<Rightarrow>
         (True, c, update_cell (cli_data c) (\<lambda>d.
            let d = d\<lparr>is_2d := flat, cd_scenario := scenario_num, last_game_packet := Some p\<rparr> in
            if stage = cap_stage \<and> scenario_num = 0
            then d\<lparr>speedrun_start := True, shine_sync := hm_clear (shine_sync d)\<rparr> else d) w)
     | Tag update_type is_it seconds minutes \<Rightarrow>
         (True, c, update_cell (cli_data c) (\<lambda>d. case update_type of
              Time \<Rightarrow> d\<lparr>time := ucast seconds + ucast minutes * 60\<rparr>
            | State \<Rightarrow> d\<lparr>is_seeking := is_it\<rparr>) w)
     | Shine shine_id _ \<Rightarrow>
         (True, c, update_cell (cli_data c) (\<lambda>d.
            if loaded_save d then d\<lparr>shine_sync := hs_insert shine_id (shine_sync d)\<rparr> else d) w)
     | UdpInit p \<Rightarrow> (False, c\<lparr>udp_conn := set_client_port p (udp_conn c)\<rparr>, w)
     | _ \<Rightarrow> (True, c, w))"

definition handle_packet ::
  "('b, 's, 'u, 'x) tokio \<Rightarrow> packet \<Rightarrow> (unit, smo_error, ('b, 's, 'u, 'x) cstate) async" where
  "handle_packet rt p s =
     (let (send_to_coord, s') = note_packet p s in
      if send_to_coord then on_shared (send rt (to_coord (fst s')) (PacketCmd p)) s'
      else aret () s')"

definition recv_packet ::
  "'b bytes_crate \<Rightarrow> ('b, 'n, 's) tcp \<Rightarrow> (packet, smo_error, ('b, 's, 'u, 'x) cstate) async" where
  "recv_packet K T = on_conn (read_packet K T)"

definition client_parse_packet :: "'b bytes_crate \<Rightarrow> (packet, smo_error, ('b, 's, 'u) client) prog" where
  "client_parse_packet K c =
     (case parse_packet K (conn c) of
        (Err e, k) \<Rightarrow> (Err e, c\<lparr>conn := k\<rparr>)
      | (Ok (Some t), k) \<Rightarrow> (Ok t, c\<lparr>conn := k\<rparr>)
      | (Ok None, k) \<Rightarrow> (Err (Encoding NotEnoughData), c\<lparr>conn := k\<rparr>)
      | (Panic, k) \<Rightarrow> (Panic, c\<lparr>conn := k\<rparr>))"

section \<open>Packets to the player\<close>

text \<open>
  A packet of the client's own is not sent back. Positions go over UDP once it is open, all else
  over TCP.
\<close>

definition send_packet ::
  "'b bytes_crate \<Rightarrow> ('b, 'n, 's) tcp \<Rightarrow> 'u udp \<Rightarrow> packet \<Rightarrow>
   (unit, smo_error, ('b, 's, 'u, 'x) cstate) async" where
  "send_packet K T U p s =
     (if pkt_id p \<noteq> cli_guid (fst s) then
        (if is_client_udp (udp_conn (fst s)) then
           (case pkt_data p of
              Player pos rot weights act sub_act \<Rightarrow> on_udp (udp_write_packet K U p) s
            | Cap pos rot cap_out cap_anim \<Rightarrow> on_udp (udp_write_packet K U p) s
            | _ \<Rightarrow> on_conn (write_packet K T p) s)
         else on_conn (write_packet K T p) s)
      else aret () s)"

text \<open>Any command that is not a packet is \<open>todo!()\<close>.\<close>

definition handle_command ::
  "'b bytes_crate \<Rightarrow> ('b, 'n, 's) tcp \<Rightarrow> 'u udp \<Rightarrow> ('b, 's, 'u) command \<Rightarrow>
   (unit, smo_error, ('b, 's, 'u, 'x) cstate) async" where
  "handle_command K T U cmd = (case cmd of
       PacketCmd p \<Rightarrow> (\<lambda>(c, w).
         if pkt_id p = cli_guid c then
           (case pkt_data p of
              Disconnect \<Rightarrow> aret () (c\<lparr>alive := False\<rparr>, w)
            | _ \<Rightarrow> aret () (c, w))
         else send_packet K T U p (c, w))
     | _ \<Rightarrow> apanic)"

section \<open>The event loop\<close>

datatype origin = Internal | External

datatype ('b, 's, 'u) client_event =
    PacketEvent packet
  | CommandEvent "('b, 's, 'u) command"

text \<open>An error of \<open>rt_recv\<close> does not exist; \<open>None\<close> is a closed channel.\<close>

definition recv_command ::
  "('b, 's, 'u, 'x) tokio \<Rightarrow> (('b, 's, 'u) command option, smo_error, ('b, 's, 'u, 'x) cstate) async" where
  "recv_command rt s = on_shared (\<lambda>w. map_option (apfst (map_err (\<lambda>_. RecvChannel))) (rt_recv rt (from_server (fst s)) w)) s"

definition read_event ::
  "'b bytes_crate \<Rightarrow> ('b, 'n, 's) tcp \<Rightarrow> 'u udp \<Rightarrow> ('b, 's, 'u, 'x) tokio \<Rightarrow>
   (origin \<times> ('b, 's, 'u) client_event, smo_error, ('b, 's, 'u, 'x) cstate) async" where
  "read_event K T U rt s =
     (case rt_pick rt (snd s) of
        FromTcp \<Rightarrow> abind (on_conn (read_packet K T)) (\<lambda>p. aret (External, PacketEvent p)) s
      | FromUdp \<Rightarrow> abind (on_udp (udp_read_packet K U)) (\<lambda>p. aret (External, PacketEvent p)) s
      | FromServer \<Rightarrow> abind (recv_command rt) (\<lambda>cmd. case cmd of
            None \<Rightarrow> athrow RecvChannel
          | Some c \<Rightarrow> aret (Internal, CommandEvent c)) s)"

fun handle_event ::
  "'b bytes_crate \<Rightarrow> ('b, 'n, 's) tcp \<Rightarrow> 'u udp \<Rightarrow> ('b, 's, 'u, 'x) tokio \<Rightarrow>
   origin \<times> ('b, 's, 'u) client_event \<Rightarrow> (unit, smo_error, ('b, 's, 'u, 'x) cstate) async" where
  "handle_event K T U rt (External, PacketEvent p) = handle_packet rt p"
| "handle_event K T U rt (Internal, PacketEvent p) = send_packet K T U p"
| "handle_event K T U rt (_, CommandEvent c) = handle_command K T U c"

text \<open>
  One turn of \<open>while self.alive\<close>: whether the loop goes on. A closed connection or channel breaks it;
  any other error, of reading as of handling, is logged and the loop goes on.
\<close>

definition client_turn ::
  "'b bytes_crate \<Rightarrow> ('b, 'n, 's) tcp \<Rightarrow> 'u udp \<Rightarrow> ('b, 's, 'u, 'x) tokio \<Rightarrow>
   (bool, smo_error, ('b, 's, 'u, 'x) cstate) async" where
  "client_turn K T U rt s =
     (case read_event K T U rt s of
        None \<Rightarrow> None
      | Some (Ok ev, s) \<Rightarrow> abind (atry (handle_event K T U rt ev)) (\<lambda>_. aret True) s
      | Some (Err e, s) \<Rightarrow>
          if e = Encoding ConnectionClose \<or> e = Encoding ConnectionReset \<or> e = RecvChannel
          then aret False (apfst (\<lambda>c. c\<lparr>alive := False\<rparr>) s)
          else aret True s
      | Some (Panic, s) \<Rightarrow> apanic s)"

partial_function (option) client_loop ::
  "'b bytes_crate \<Rightarrow> ('b, 'n, 's) tcp \<Rightarrow> 'u udp \<Rightarrow> ('b, 's, 'u, 'x) tokio \<Rightarrow>
   (unit, smo_error, ('b, 's, 'u, 'x) cstate) async" where
  "client_loop K T U rt s =
     (if alive (fst s)
      then abind (client_turn K T U rt) (\<lambda>go s. if go then client_loop K T U rt s else aret () s) s
      else aret () s)"

definition client_disconnect ::
  "('b, 'n, 's) tcp \<Rightarrow> ('b, 's, 'u, 'x) tokio \<Rightarrow> (unit, smo_error, ('b, 's, 'u, 'x) cstate) async" where
  "client_disconnect T rt s =
     abind (on_shared (send rt (to_coord (fst s)) (ServerCmd (DisconnectPlayer (cli_guid (fst s)))))) (\<lambda>_.
     abind (on_conn (zoom conn_socket (\<lambda>k c. c\<lparr>conn_socket := k\<rparr>) (io (tcp_shutdown T)))) (\<lambda>_.
     aret ())) s"

definition handle_events ::
  "'b bytes_crate \<Rightarrow> ('b, 'n, 's) tcp \<Rightarrow> 'u udp \<Rightarrow> ('b, 's, 'u, 'x) tokio \<Rightarrow>
   (unit, smo_error, ('b, 's, 'u, 'x) cstate) async" where
  "handle_events K T U rt =
     abind (client_loop K T U rt) (\<lambda>_. abind (client_disconnect T rt) (\<lambda>_. aret ()))"

section \<open>The handshake\<close>

text \<open>
  \<open>bind\<close> opens a UDP socket. The results of \<open>expect\<close> and of \<open>Packet::new\<close> are values or panics.
\<close>

definition the_or_panic :: "'a option \<Rightarrow> ('a, 'e, 's) async" where
  "the_or_panic x = (case x of None \<Rightarrow> apanic | Some a \<Rightarrow> aret a)"

definition from_res :: "('a, 'e) res \<Rightarrow> ('a, 'e, 's) async" where
  "from_res r s = Some (r, s)"

text \<open>From the reply on: what becomes of the new client.\<close>

definition admit ::
  "'b bytes_crate \<Rightarrow> ('b, 'n, 's) tcp \<Rightarrow> ranks \<Rightarrow> chan \<Rightarrow> chan \<Rightarrow> u16 \<Rightarrow> ('b, 'u) udp_connection \<Rightarrow>
   packet \<Rightarrow> ('b, 's) connection \<Rightarrow> (('b, 's, 'u) command, smo_error, 'x shared) async" where
  "admit K T R coord ch udp_port udp connect k =
     (case pkt_data connect of
        Connect c_type max_player name \<Rightarrow>
          abind (from_res (packet_new guid_default (UdpInit udp_port))) (\<lambda>udp_init.
          abind (locally (write_packet K T udp_init) k) (\<lambda>(_, k).
          abind (\<lambda>w. let (a, w) = new_cell ((client_data_default R)\<lparr>cd_name := name\<rparr>) w in aret a w) (\<lambda>a.
          aret (ServerCmd (NewPlayer
            \<lparr>display_name = trim_nul name, cli_data = a, cli_guid = pkt_id connect, alive = True,
             conn = k, udp_conn = udp, to_coord = coord, from_server = ch\<rparr>
            connect ch)))))
      | _ \<Rightarrow> athrow (ClientInit BadHandshake))"

definition initialize_client ::
  "'b bytes_crate \<Rightarrow> ('b, 'n, 's) tcp \<Rightarrow> 'u udp \<Rightarrow> (socket_addr \<Rightarrow> ('u, unit, 'x shared) async) \<Rightarrow>
   ('b, 's, 'u, 'x) tokio \<Rightarrow> ranks \<Rightarrow> 'n \<Rightarrow> chan \<Rightarrow> u16 \<Rightarrow> (unit, smo_error, 'x shared) async" where
  "initialize_client K T U bind rt R stream coord udp_port =
     abind (\<lambda>w. let (ch, w) = rt_channel rt 10 w in aret ch w) (\<lambda>ch.
     abind (the_or_panic (tcp_peer_addr T stream)) (\<lambda>tcp_sock_addr.
     abind (agets (\<lambda>w. max_players (server (sh_settings w)))) (\<lambda>max.
     abind (from_res (connection_new K T stream)) (\<lambda>k.
     abind (from_res (packet_new guid_default (Init max))) (\<lambda>init.
     abind (locally (write_packet K T init) k) (\<lambda>(_, k).
     abind (io (bind (socket_addr_new (V4 0) udp_port))) (\<lambda>u.
     abind (the_or_panic (udp_local_addr U u)) (\<lambda>local_udp_addr.
     abind (locally (read_packet K T) k) (\<lambda>(connect, k).
     abind (admit K T R coord ch (addr_port local_udp_addr)
              (udp_connection_new K u (addr_ip tcp_sock_addr)) connect k) (\<lambda>new_player.
     send rt coord new_player))))))))))"

end
