(* ===== verification/Client_Facts.thy ===== *)
theory Client_Facts
  imports Client
begin

text \<open>
  What a client's task does: which events reach the coordinator, what they leave in the shared data,
  which way packets go out, how the task ends, and the handshake. \<open>client_task\<close> gathers the contracts
  the task relies on: the buffer crate, both sockets and the runtime.
\<close>

locale client_task = tcp: tcp_impl K T rx tx + udp: udp_impl K U got sent + rtm: tokio_impl rt log tasks
  for K :: "'b bytes_crate" and T :: "('b, 'n, 's) tcp" and rx tx :: "'s \<Rightarrow> u8 list"
    and U :: "'u udp" and got sent :: "'u \<Rightarrow> datagram list"
    and rt :: "('b, 's, 'u, 'x) tokio"
    and log :: "'x shared \<Rightarrow> (chan \<times> ('b, 's, 'u) command) list"
    and tasks :: "'x shared \<Rightarrow> ('b, 's, 'u) task list"

interpretation script_client: client_task bytes_list script_tcp scr_rx scr_tx mailbox_udp mb_got mb_sent
    post_tokio "\<lambda>w. po_log (runtime w)" "\<lambda>w. po_tasks (runtime w)"
  by (intro client_task.intro script_socket.tcp_impl_axioms mailbox_socket.udp_impl_axioms
      post_runtime.tokio_impl_axioms)

section \<open>Calls on parts of the state\<close>

lemma on_conn_Some:
  "on_conn m (c, w) = Some (r, s) \<longleftrightarrow> (\<exists>k. m (conn c) = Some (r, k) \<and> s = (c\<lparr>conn := k\<rparr>, w))"
  by (auto simp: on_conn_def zoom_def)

lemma on_udp_Some:
  "on_udp m (c, w) = Some (r, s) \<longleftrightarrow> (\<exists>k. m (udp_conn c) = Some (r, k) \<and> s = (c\<lparr>udp_conn := k\<rparr>, w))"
  by (auto simp: on_udp_def zoom_def)

lemma on_shared_Some:
  "on_shared m (c, w) = Some (r, s) \<longleftrightarrow> (\<exists>w'. m w = Some (r, w') \<and> s = (c, w'))"
  by (auto simp: on_shared_def zoom_def)

lemmas on_part = on_conn_Some on_udp_Some on_shared_Some

section \<open>What a packet changes\<close>

text \<open>The part of \<open>note_packet\<close> in the client's data, and the resets among the game packets.\<close>

definition is_reset :: "packet \<Rightarrow> bool" where
  "is_reset p \<longleftrightarrow> (\<exists>flat. pkt_data p = Game flat 0 cap_stage)"

definition is_udp_init :: "packet \<Rightarrow> bool" where
  "is_udp_init p \<longleftrightarrow> (\<exists>n. pkt_data p = UdpInit n)"

lemma note_packet_state:
  assumes "note_packet p (c, w) = (go, c', w')"
  shows "go \<longleftrightarrow> \<not> is_udp_init p" and "cli_guid c' = cli_guid c" and "to_coord c' = to_coord c"
    and "conn c' = conn c" and "cli_data c' = cli_data c" and "alive c' = alive c"
    and "from_server c' = from_server c" and "runtime w' = runtime w" and "shine_bag w' = shine_bag w"
    and "a \<noteq> cli_data c \<Longrightarrow> cells w' a = cells w a"
  using assms by (auto simp: note_packet_def is_udp_init_def split: packet_data.splits)

text \<open>The seconds and minutes of a tag packet do not overflow the clock.\<close>

lemma tag_time: "unat (ucast (s :: u8) + ucast (m :: u16) * 60 :: u64) = unat s + 60 * unat m"
proof -
  have "unat s < 2 ^ 8" and "unat m < 2 ^ 16"
    using unsigned_less[where 'a = nat, of s] unsigned_less[where 'a = nat, of m] by simp_all
  then show ?thesis by (simp add: unat_word_ariths unsigned_ucast_eq take_bit_nat_eq_self)
qed

lemma note_packet_cell:
  assumes "note_packet p (c, w) = (go, c', w')"
  shows "w' = w\<lparr>cells := (cells w)(cli_data c := cells w' (cli_data c))\<rparr>"
    and "c' = (case pkt_data p of UdpInit q \<Rightarrow> c\<lparr>udp_conn := set_client_port q (udp_conn c)\<rparr> | _ \<Rightarrow> c)"
  using assms by (auto simp: note_packet_def update_cell_def split: packet_data.splits)

context tokio_impl
begin

lemma log_update_cell [simp]: "log (update_cell a f w) = log w" "tasks (update_cell a f w) = tasks w"
  by (simp_all add: log_memory)

lemma note_packet_log:
  "note_packet p (c, w) = (go, c', w') \<Longrightarrow> log w' = log w \<and> tasks w' = tasks w"
  by (auto simp: note_packet_def split: packet_data.splits)

lemma handle_packet_log:
  assumes "handle_packet rt p (c, w) = Some (r, (c', w'))"
  shows "r \<noteq> Panic \<and> cli_guid c' = cli_guid c \<and> to_coord c' = to_coord c \<and> conn c' = conn c
     \<and> alive c' = alive c \<and> from_server c' = from_server c \<and> tasks w' = tasks w
     \<and> (log w' = log w @ (if r = Ok () \<and> \<not> is_udp_init p then [(to_coord c, PacketCmd p)] else []))
     \<and> (r = Ok () \<or> r = Err SendChannel)"
proof -
  obtain go c1 w1 where np: "note_packet p (c, w) = (go, c1, w1)" by (cases "note_packet p (c, w)") auto
  note st = note_packet_state[OF np] note_packet_log[OF np]
  show ?thesis
  proof (cases go)
    case True
    with assms np obtain w2 where w2: "send rt (to_coord c1) (PacketCmd p) w1 = Some (r, w2)"
      and s: "c' = c1" "w' = w2"
      by (auto simp: handle_packet_def on_part)
    from w2 st s True show ?thesis
      by (cases r) (auto dest: send_ok send_err simp: send_no_panic)
  next
    case False
    with assms np st show ?thesis by (auto simp: handle_packet_def)
  qed
qed

end

section \<open>Which way a packet goes out\<close>

definition movement :: "packet \<Rightarrow> bool" where
  "movement p = (case pkt_data p of
       Player pos rot weights act sub_act \<Rightarrow> True
     | Cap pos rot cap_out cap_anim \<Rightarrow> True
     | _ \<Rightarrow> False)"

lemma send_packet_cases:
  "send_packet K T U p s =
     (if pkt_id p = cli_guid (fst s) then Some (Ok (), s)
      else if movement p \<and> is_client_udp (udp_conn (fst s)) then on_udp (udp_write_packet K U p) s
      else on_conn (write_packet K T p) s)"
  by (auto simp: send_packet_def movement_def split: packet_data.splits)

lemma send_packet_keeps:
  assumes "send_packet K T U p (c, w) = Some (r, (c', w'))"
  shows "w' = w" and "cli_guid c' = cli_guid c" and "to_coord c' = to_coord c" and "alive c' = alive c"
    and "cli_data c' = cli_data c" and "from_server c' = from_server c"
  using assms by (auto simp: send_packet_cases on_part split: if_splits)

lemma handle_command_keeps:
  assumes "handle_command K T U cmd (c, w) = Some (r, (c', w'))"
  shows "w' = w" and "cli_guid c' = cli_guid c" and "to_coord c' = to_coord c"
    and "cli_data c' = cli_data c" and "from_server c' = from_server c"
  using assms send_packet_keeps[of K T U _ c w r c' w']
  by (auto simp: handle_command_def split: command.splits if_splits packet_data.splits)

section \<open>The event loop\<close>

context client_task
begin

lemma recv_command_log:
  assumes "recv_command rt (c, w) = Some (r, (c', w'))"
  shows "c' = c" and "log w' = log w" and "tasks w' = tasks w"
  using assms by (auto simp: recv_command_def on_part dest: rtm.recv_law)

lemma read_event_keeps:
  assumes "read_event K T U rt (c, w) = Some (r, (c', w'))"
  shows "cli_guid c' = cli_guid c \<and> to_coord c' = to_coord c \<and> alive c' = alive c
     \<and> from_server c' = from_server c \<and> log w' = log w \<and> tasks w' = tasks w"
proof (cases "rt_pick rt w")
  case FromTcp
  with assms show ?thesis
    by (auto simp: read_event_def on_part elim!: abind_cases)
next
  case FromUdp
  with assms show ?thesis
    by (auto simp: read_event_def on_part elim!: abind_cases)
next
  case FromServer
  with assms have "abind (recv_command rt) (\<lambda>cmd. case cmd of None \<Rightarrow> athrow RecvChannel
      | Some c \<Rightarrow> aret (Internal, CommandEvent c)) (c, w) = Some (r, (c', w'))"
    by (simp add: read_event_def)
  then show ?thesis
    by (cases rule: abind_cases) (auto dest: recv_command_log split: option.splits)
qed

text \<open>
  The task's part of the conversation with the coordinator: it only passes packets on, none of them
  a UDP handshake.
\<close>

definition relays :: "('b, 's, 'u, 'x) cstate \<Rightarrow> ('b, 's, 'u, 'x) cstate \<Rightarrow> bool" where
  "relays s s' \<longleftrightarrow> cli_guid (fst s') = cli_guid (fst s) \<and> to_coord (fst s') = to_coord (fst s)
     \<and> from_server (fst s') = from_server (fst s) \<and> tasks (snd s') = tasks (snd s)
     \<and> (\<exists>ps. log (snd s') = log (snd s) @ map (\<lambda>p. (to_coord (fst s), PacketCmd p)) ps
           \<and> (\<forall>p \<in> set ps. \<not> is_udp_init p))"

lemma relays_refl: "relays s s"
  by (auto simp: relays_def intro!: exI[of _ "[]"])

lemma relays_trans:
  assumes "relays s1 s2" and "relays s2 s3"
  shows "relays s1 s3"
proof -
  from assms(1) obtain ps where ps: "log (snd s2) = log (snd s1) @ map (\<lambda>p. (to_coord (fst s1), PacketCmd p)) ps"
    "\<forall>p \<in> set ps. \<not> is_udp_init p" by (auto simp: relays_def)
  from assms(2) obtain qs where "log (snd s3) = log (snd s2) @ map (\<lambda>p. (to_coord (fst s2), PacketCmd p)) qs"
    "\<forall>p \<in> set qs. \<not> is_udp_init p" by (auto simp: relays_def)
  with ps assms show ?thesis
    by (auto simp: relays_def intro!: exI[of _ "ps @ qs"])
qed

lemma read_event_relays: "read_event K T U rt s = Some (r, s') \<Longrightarrow> relays s s'"
  using read_event_keeps[of "fst s" "snd s" r "fst s'" "snd s'"]
  by (auto simp: relays_def intro!: exI[of _ "[]"])

lemma handle_event_relays: "handle_event K T U rt ev s = Some (r, s') \<Longrightarrow> relays s s'"
proof -
  assume run: "handle_event K T U rt ev s = Some (r, s')"
  obtain c w c' w' where [simp]: "s = (c, w)" "s' = (c', w')" by (cases s, cases s')
  show "relays s s'"
  proof (cases "\<exists>p. ev = (External, PacketEvent p)")
    case True
    then obtain p where p: "ev = (External, PacketEvent p)" by blast
    with run have "handle_packet rt p (c, w) = Some (r, (c', w'))" by simp
    from rtm.handle_packet_log[OF this] show ?thesis
      unfolding relays_def
      by (auto intro!: exI[of _ "if r = Ok () \<and> \<not> is_udp_init p then [p] else []"])
  next
    case False
    then have "w' = w \<and> cli_guid c' = cli_guid c \<and> to_coord c' = to_coord c \<and> from_server c' = from_server c"
      using run send_packet_keeps[of K T U _ c w r c' w'] handle_command_keeps[of K T U _ c w r c' w']
      by (cases ev rule: prod.exhaust; cases "fst ev"; cases "snd ev") auto
    then show ?thesis by (auto simp: relays_def intro!: exI[of _ "[]"])
  qed
qed

lemma client_turn_relays:
  assumes "client_turn K T U rt s = Some (r, s')"
  shows "relays s s' \<and> (\<forall>e. r \<noteq> Err e)"
proof -
  obtain q s1 where ev: "read_event K T U rt s = Some (q, s1)"
    using assms by (cases "read_event K T U rt s") (auto simp: client_turn_def)
  note r1 = read_event_relays[OF ev]
  show ?thesis
  proof (cases q)
    case (Ok e)
    with ev assms have "abind (atry (handle_event K T U rt e)) (\<lambda>_. aret True) s1 = Some (r, s')"
      by (simp add: client_turn_def)
    then obtain q2 where h: "handle_event K T U rt e s1 = Some (q2, s')" and "\<forall>e. r \<noteq> Err e"
      by (cases rule: abind_cases) (auto simp: atry_eq)
    with relays_trans[OF r1 handle_event_relays[OF h]] show ?thesis by blast
  next
    case (Err e)
    with ev assms have "s' = s1 \<or> s' = apfst (\<lambda>c. c\<lparr>alive := False\<rparr>) s1" and "\<forall>e. r \<noteq> Err e"
      by (auto simp: client_turn_def split: if_splits)
    moreover have "relays s1 (apfst (\<lambda>c. c\<lparr>alive := False\<rparr>) s1)"
      by (cases s1) (auto simp: relays_def intro!: exI[of _ "[]"])
    ultimately show ?thesis using relays_trans[OF r1] r1 by blast
  next
    case Panic
    with ev assms r1 show ?thesis by (simp add: client_turn_def)
  qed
qed

end

text \<open>An invariant of the turns is one of the loop.\<close>

lemma client_loop_invariant:
  assumes "client_loop K T U rt s = Some (r, s')" and "I s"
    and "\<And>s q s'. alive (fst s) \<Longrightarrow> I s \<Longrightarrow> client_turn K T U rt s = Some (q, s') \<Longrightarrow>
      I s' \<and> (\<forall>e. q \<noteq> Err e)"
  shows "I s' \<and> (\<forall>e. r \<noteq> Err e)"
proof -
  have "K' = K \<longrightarrow> T' = T \<longrightarrow> U' = U \<longrightarrow> rt' = rt \<longrightarrow> I s \<longrightarrow> I (snd y) \<and> (\<forall>e. fst y \<noteq> Err e)"
    if "client_loop K' T' U' rt' s = Some y" for K' T' U' rt' s y
  proof (rule client_loop.raw_induct[where P = "\<lambda>K' T' U' rt' s y. K' = K \<longrightarrow> T' = T \<longrightarrow> U' = U \<longrightarrow>
        rt' = rt \<longrightarrow> I s \<longrightarrow> I (snd y) \<and> (\<forall>e. fst y \<noteq> Err e)", OF _ that], intro impI)
    fix F K' T' U' rt' s y
    assume step: "\<And>K' T' U' rt' s y. F K' T' U' rt' s = Some y \<Longrightarrow> K' = K \<longrightarrow> T' = T \<longrightarrow> U' = U \<longrightarrow>
        rt' = rt \<longrightarrow> I s \<longrightarrow> I (snd y) \<and> (\<forall>e. fst y \<noteq> Err e)"
      and body: "(if alive (fst s)
          then abind (client_turn K' T' U' rt') (\<lambda>go s. if go then F K' T' U' rt' s else aret () s) s
          else aret () s) = Some y"
      and eqs: "K' = K" "T' = T" "U' = U" "rt' = rt" and I: "I s"
    show "I (snd y) \<and> (\<forall>e. fst y \<noteq> Err e)"
    proof (cases "alive (fst s)")
      case True
      with body have "abind (client_turn K T U rt) (\<lambda>go s. if go then F K T U rt s else aret () s) s =
          Some (fst y, snd y)"
        unfolding eqs by simp
      then show ?thesis
      proof (cases rule: abind_cases)
        case (ok go s1)
        with assms(3)[OF True I] have "I s1" by blast
        with ok(2) step[of K T U rt s1 y] show ?thesis by (cases go) auto
      qed (use assms(3)[OF True I] in auto)
    qed (use body I in auto)
  qed
  with assms(1,2) show ?thesis by fastforce
qed

context client_task
begin

lemma client_loop_relays:
  "client_loop K T U rt s = Some (r, s') \<Longrightarrow> relays s s' \<and> (\<forall>e. r \<noteq> Err e)"
  by (rule client_loop_invariant[where I = "relays s"])
     (auto intro: relays_refl relays_trans dest: client_turn_relays)

lemma handle_events_log:
  assumes "handle_events K T U rt (c, w) = Some (Ok u, (c', w'))"
  shows "\<exists>ps. log w' = log w @ map (\<lambda>p. (to_coord c, PacketCmd p)) ps @
        [(to_coord c, ServerCmd (DisconnectPlayer (cli_guid c)))]
     \<and> (\<forall>p \<in> set ps. \<not> is_udp_init p)"
proof -
  from assms obtain s1 where loop: "client_loop K T U rt (c, w) = Some (Ok (), s1)"
    and bye: "client_disconnect T rt s1 = Some (Ok (), (c', w'))"
    by (auto simp: handle_events_def abind_eq_Ok)
  obtain c1 w1 where [simp]: "s1 = (c1, w1)" by fastforce
  from client_loop_relays[OF loop] obtain ps where ps: "cli_guid c1 = cli_guid c" "to_coord c1 = to_coord c"
    "log w1 = log w @ map (\<lambda>p. (to_coord c, PacketCmd p)) ps" "\<forall>p \<in> set ps. \<not> is_udp_init p"
    by (auto simp: relays_def)
  from bye obtain w2 where "rt_send rt (to_coord c1) (ServerCmd (DisconnectPlayer (cli_guid c1))) w1 = Some (Ok (), w2)"
    and "w' = w2"
    by (auto simp: client_disconnect_def abind_eq_Ok on_part)
  with rtm.send_ok[OF this(1)] ps show ?thesis by auto
qed

end

section \<open>The handshake\<close>

lemma locally_Ok:
  "locally m t s = Some (Ok x, s') \<longleftrightarrow> (\<exists>a t'. x = (a, t') \<and> m t = Some (Ok a, t') \<and> s' = s)"
  "locally m t s = Some (Err e, s') \<longleftrightarrow> (\<exists>t'. m t = Some (Err e, t') \<and> s' = s)"
  by (auto simp: locally_def split: option.splits res.splits)

lemma packet_new_small:
  "packet_new guid_default (Init n) = Ok \<lparr>pkt_id = guid_default, data_size = 2, pkt_data = Init n\<rparr>"
  "packet_new guid_default (UdpInit n) = Ok \<lparr>pkt_id = guid_default, data_size = 2, pkt_data = UdpInit n\<rparr>"
  by (simp_all add: packet_new_def)

abbreviation init_packet :: "u16 \<Rightarrow> packet" where
  "init_packet n \<equiv> \<lparr>pkt_id = guid_default, data_size = 2, pkt_data = Init n\<rparr>"

abbreviation udp_init_packet :: "u16 \<Rightarrow> packet" where
  "udp_init_packet n \<equiv> \<lparr>pkt_id = guid_default, data_size = 2, pkt_data = UdpInit n\<rparr>"

lemma handshake_packets:
  "sized_packet (init_packet n)" "sized_packet (udp_init_packet n)"
  "20 + get_size (pkt_data (init_packet n)) \<le> usize_max"
  "20 + get_size (pkt_data (udp_init_packet n)) \<le> usize_max"
  by (simp_all add: sized_packet_def usize_max_def)

lemma from_res_Some [simp]: "from_res r s = Some (q, s') \<longleftrightarrow> r = q \<and> s' = s"
  by (auto simp: from_res_def)

lemma the_or_panic_Ok [simp]:
  "the_or_panic x s = Some (Ok a, s') \<longleftrightarrow> x = Some a \<and> s' = s"
  "the_or_panic x s \<noteq> Some (Err e, s')"
  by (auto simp: the_or_panic_def split: option.splits)

text \<open>The steps of a handshake that succeeds.\<close>

lemma admit_Ok:
  assumes "admit K T R coord ch n udp connect k w = Some (Ok cmd, w')"
  obtains c_type m name k' a where "pkt_data connect = Connect c_type m name"
    and "write_packet K T (udp_init_packet n) k = Some (Ok (), k')"
    and "(a, w') = new_cell ((client_data_default R)\<lparr>cd_name := name\<rparr>) w"
    and "cmd = ServerCmd (NewPlayer
            \<lparr>display_name = trim_nul name, cli_data = a, cli_guid = pkt_id connect, alive = True,
             conn = k', udp_conn = udp, to_coord = coord, from_server = ch\<rparr> connect ch)"
  using assms
  by (auto simp: admit_def packet_new_small abind_eq_Ok locally_Ok new_cell_def split: packet_data.splits)

context tokio_impl
begin

lemma admit_log: "admit K T R coord ch n udp connect k w = Some (r, w') \<Longrightarrow> log w' = log w"
  by (auto simp: admit_def packet_new_small locally_def new_cell_def Let_def
      split: packet_data.splits option.splits res.splits
      elim!: abind_cases)
     (metis log_memory(3))

end

section \<open>What the task promises\<close>

text \<open>
  C11. A packet from the player goes to the coordinator exactly once and unchanged, except the UDP
  handshake, which is kept from it and opens the UDP side to the announced port. Where the
  coordinator is gone nothing is sent and the error is \<open>SendChannel\<close>. The task never panics here,
  and the TCP connection, the guid and the channels stay as they are.
\<close>
theorem packet_forwarded_once:
  assumes "tokio_impl rt log tasks" and "handle_packet rt p (c, w) = Some (r, (c', w'))"
  shows "(r = Ok () \<and> log w' = log w @ (if is_udp_init p then [] else [(to_coord c, PacketCmd p)])
      \<or> r = Err SendChannel \<and> \<not> is_udp_init p \<and> log w' = log w)
     \<and> (\<forall>n. pkt_data p = UdpInit n \<longrightarrow> udp_conn c' = set_client_port n (udp_conn c))
     \<and> (\<not> is_udp_init p \<longrightarrow> udp_conn c' = udp_conn c)
     \<and> conn c' = conn c \<and> cli_guid c' = cli_guid c \<and> to_coord c' = to_coord c \<and> alive c' = alive c"
proof -
  have "(\<forall>n. pkt_data p = UdpInit n \<longrightarrow> udp_conn c' = set_client_port n (udp_conn c))
     \<and> (\<not> is_udp_init p \<longrightarrow> udp_conn c' = udp_conn c)"
    using assms(2)
    by (auto simp: handle_packet_def note_packet_def is_udp_init_def on_part split: packet_data.splits)
  moreover have "is_udp_init p \<Longrightarrow> r = Ok ()"
    using assms(2) by (auto simp: handle_packet_def note_packet_def is_udp_init_def)
  ultimately show ?thesis using tokio_impl.handle_packet_log[OF assms] by auto
qed

definition sample_ranks :: ranks where
  "sample_ranks = \<lparr>guid_rank = \<lambda>_ _. 0, ip_rank = \<lambda>_ _. 0, shine_rank = \<lambda>_ _. 0\<rparr>"

type_synonym test_post = "(u8 list, script, mailbox) post"

definition sample_world :: "test_post shared" where
  "sample_world = \<lparr>cells = \<lambda>_. client_data_default sample_ranks, next_cell = 1,
     shine_bag = hm_new (shine_rank sample_ranks), sh_settings = settings_default sample_ranks,
     runtime = \<lparr>po_log = [], po_queue = [], po_cap = \<lambda>_. 100, po_next = 2, po_closed = [],
       po_tasks = [], po_pick = FromTcp\<rparr>\<rparr>"

definition sample_client :: "udp_sender_status \<Rightarrow> (u8 list, script, mailbox) client" where
  "sample_client st = \<lparr>display_name = [], cli_data = 0, cli_guid = guid_default, alive = True,
     conn = script_conn [] 100, udp_conn = mb_conn [] True st, to_coord = 0, from_server = 1\<rparr>"

abbreviation sent_on :: "chan \<Rightarrow> (u8 list, script, mailbox) command \<Rightarrow> test_post shared \<Rightarrow> test_post shared" where
  "sent_on ch cmd \<equiv> sent_all [(ch, cmd)]"

definition fresh :: "(u8 list, script, mailbox) client" where
  "fresh = sample_client (Pending (V4 1))"

lemma sample_forward:
  "handle_packet post_tokio sample_init (fresh, sample_world) =
     Some (Ok (), (fresh, sent_on 0 (PacketCmd sample_init) sample_world))"
  by (simp add: handle_packet_def note_packet_def sample_init_def on_shared_def zoom_def send_def
      post_send_def fresh_def sample_client_def sample_world_def sent_all_def on_runtime_def queued_def)

theorem packet_forwarded_once_witness:
  "po_log (runtime (sent_on 0 (PacketCmd sample_init) sample_world)) = po_log (runtime sample_world) @
        [(to_coord fresh, PacketCmd sample_init)]
   \<and> \<not> is_udp_init sample_init \<and> udp_conn fresh = udp_conn fresh \<and> alive fresh = alive fresh"
proof -
  have "\<not> is_udp_init sample_init" by (simp add: is_udp_init_def sample_init_def)
  with packet_forwarded_once[OF post_runtime.tokio_impl_axioms sample_forward] show ?thesis by simp
qed

text \<open>
  C30. What a packet from the player changes, exactly. In the shared memory it is the cell of the
  player's own data and no other: a costume packet sets the costume and marks the save as loaded; a
  game packet sets 2D, scenario and the last game packet, and, into the first stage with scenario 0,
  starts a speedrun and empties the set of collected moons; a shine packet adds its moon to the set,
  once a save is loaded; a tag packet sets either the time or who seeks; everything else stays. In
  the client only the announcement of a UDP port changes something. The packet is then handed on,
  from this memory, except for that announcement.
\<close>
theorem packet_data_effect:
  assumes "handle_packet rt p (c, w) = Some (r, (c', w'))" and "d = cells w (cli_data c)"
  shows "\<exists>d' w1. w1 = w\<lparr>cells := (cells w)(cli_data c := d')\<rparr>
     \<and> cd_name d' = cd_name d
     \<and> cd_costume d' = (case pkt_data p of Costume x \<Rightarrow> x | _ \<Rightarrow> cd_costume d)
     \<and> loaded_save d' = (case pkt_data p of Costume x \<Rightarrow> True | _ \<Rightarrow> loaded_save d)
     \<and> is_2d d' = (case pkt_data p of Game flat n stage \<Rightarrow> flat | _ \<Rightarrow> is_2d d)
     \<and> cd_scenario d' = (case pkt_data p of Game flat n stage \<Rightarrow> n | _ \<Rightarrow> cd_scenario d)
     \<and> last_game_packet d' = (case pkt_data p of Game flat n stage \<Rightarrow> Some p | _ \<Rightarrow> last_game_packet d)
     \<and> speedrun_start d' = (is_reset p \<or> speedrun_start d)
     \<and> hs_set (shine_sync d') =
         (if is_reset p then {}
          else case pkt_data p of
              Shine i g \<Rightarrow> if loaded_save d then insert i (hs_set (shine_sync d)) else hs_set (shine_sync d)
            | _ \<Rightarrow> hs_set (shine_sync d))
     \<and> unat (time d') = (case pkt_data p of Tag Time it s m \<Rightarrow> unat s + 60 * unat m | _ \<Rightarrow> unat (time d))
     \<and> is_seeking d' = (case pkt_data p of Tag State it s m \<Rightarrow> it | _ \<Rightarrow> is_seeking d)
     \<and> c' = (case pkt_data p of UdpInit q \<Rightarrow> c\<lparr>udp_conn := set_client_port q (udp_conn c)\<rparr> | _ \<Rightarrow> c)
     \<and> (if is_udp_init p then r = Ok () \<and> w' = w1
        else send rt (to_coord c) (PacketCmd p) w1 = Some (r, w'))"
proof -
  obtain go c1 w1 where np: "note_packet p (c, w) = (go, c1, w1)" by (cases "note_packet p (c, w)") auto
  define d' where "d' = cells w1 (cli_data c)"
  have "c' = c1 \<and> (if is_udp_init p then r = Ok () \<and> w' = w1
        else send rt (to_coord c) (PacketCmd p) w1 = Some (r, w'))"
    using assms(1) np note_packet_state(1,3)[OF np]
    by (auto simp: handle_packet_def on_part simp del: send_eq split: if_splits)
  with np note_packet_cell[OF np] show ?thesis
    by (intro exI[of _ d'] exI[of _ w1])
       (auto simp: d'_def assms(2) note_packet_def is_reset_def Let_def tag_time
         split: packet_data.splits tag_update.splits if_splits)
qed

definition reset_packet :: packet where
  "reset_packet = sample_game\<lparr>pkt_data := Game False 0 cap_stage\<rparr>"

definition reset_world :: "test_post shared" where
  "reset_world = sent_on 0 (PacketCmd reset_packet)
     (snd (snd (note_packet reset_packet (fresh, sample_world))))"

lemma sample_reset:
  "handle_packet post_tokio reset_packet (fresh, sample_world) = Some (Ok (), (fresh, reset_world))"
  by (simp add: handle_packet_def note_packet_def on_shared_def zoom_def send_def reset_packet_def
      post_send_def fresh_def sample_client_def sample_world_def sent_all_def on_runtime_def queued_def
      update_cell_def reset_world_def)

theorem packet_data_effect_witness:
  "\<exists>d' w1. w1 = sample_world\<lparr>cells := (cells sample_world)(0 := d')\<rparr>
     \<and> hs_set (shine_sync d') = {} \<and> speedrun_start d' \<and> last_game_packet d' = Some reset_packet
     \<and> send post_tokio 0 (PacketCmd reset_packet) w1 = Some (Ok (), reset_world)"
proof -
  have "is_reset reset_packet" "\<not> is_udp_init reset_packet"
    by (auto simp: is_reset_def is_udp_init_def reset_packet_def)
  moreover have "pkt_data reset_packet = Game False 0 cap_stage" by (simp add: reset_packet_def)
  moreover have "cli_data fresh = 0" "to_coord fresh = 0" by (simp_all add: fresh_def sample_client_def)
  ultimately show ?thesis
    using packet_data_effect[OF sample_reset refl] by (simp del: send_eq) blast
qed

text \<open>
  C25. Which way a packet goes to the player. One of the player's own goes nowhere. Positions, once
  UDP is open, are one datagram with the packet's wire format to the player's address and leave TCP
  alone; every other packet is written to TCP and leaves UDP alone. Sending touches nothing shared.
\<close>
theorem send_packet_transport:
  assumes "tcp_impl K T rx tx" and "udp_impl K U got sent"
    and "sized_packet p" and "20 + get_size (pkt_data p) \<le> usize_max"
    and "send_packet K T U p (c, w) = Some (Ok (), (c', w'))"
  shows "w' = w \<and>
    (if pkt_id p = cli_guid c then c' = c
     else if movement p \<and> is_client_udp (udp_conn c) then
       conn c' = conn c \<and> (\<exists>a. send_addr (udp_conn c) = Connected a
         \<and> sent (udp_socket (udp_conn c')) = sent (udp_socket (udp_conn c)) @ [(packet_bytes p, a)])
     else udp_conn c' = udp_conn c \<and> write_packet K T p (conn c) = Some (Ok (), conn c')
       \<and> (\<exists>ns. tx (conn_socket (conn c')) = tx (conn_socket (conn c)) @
            concat (map (\<lambda>n. take n (packet_bytes p)) ns) \<and> length (packet_bytes p) \<le> sum_list ns))"
proof -
  consider (own) "pkt_id p = cli_guid c" "c' = c" "w' = w"
    | (udp) "pkt_id p \<noteq> cli_guid c" "movement p \<and> is_client_udp (udp_conn c)"
        "on_udp (udp_write_packet K U p) (c, w) = Some (Ok (), (c', w'))"
    | (tcp) "pkt_id p \<noteq> cli_guid c" "\<not> (movement p \<and> is_client_udp (udp_conn c))"
        "on_conn (write_packet K T p) (c, w) = Some (Ok (), (c', w'))"
    using assms(5) by (auto simp: send_packet_cases split: if_splits)
  then show ?thesis
  proof cases
    case udp
    then obtain k where k: "udp_write_packet K U p (udp_conn c) = Some (Ok (), k)"
      and "c' = c\<lparr>udp_conn := k\<rparr>" "w' = w"
      by (auto simp: on_part)
    with udp udp_impl.udp_write_Ok[OF assms(2) k assms(3,4)] show ?thesis by fastforce
  next
    case tcp
    then obtain k where k: "write_packet K T p (conn c) = Some (Ok (), k)"
      and "c' = c\<lparr>conn := k\<rparr>" "w' = w"
      by (auto simp: on_part)
    with tcp tcp_impl.write_packet_log[OF assms(1) k assms(3,4)] show ?thesis
      by (auto simp: rewritten_def turns_def)
  qed simp
qed

definition other_player :: packet where
  "other_player = \<lparr>pkt_id = guid_from (replicate 16 1), data_size = 0x38,
     pkt_data = Player \<lparr>vec_x = 1, vec_y = 2, vec_z = 3\<rparr> \<lparr>quat_w = 1, quat_i = 0, quat_j = 0, quat_k = 0\<rparr>
       (replicate 6 0) 7 8\<rparr>"

definition udp_open :: "(u8 list, script, mailbox) client" where
  "udp_open = sample_client (Connected peer)"

definition udp_sent :: "(u8 list, script, mailbox) client" where
  "udp_sent = udp_open\<lparr>udp_conn := (udp_conn udp_open)\<lparr>udp_socket :=
     (udp_socket (udp_conn udp_open))\<lparr>mb_sent := [(packet_bytes other_player, peer)]\<rparr>\<rparr>\<rparr>"

lemma other_player_sized: "sized_packet other_player" "20 + get_size (pkt_data other_player) \<le> usize_max"
  by (simp_all add: other_player_def sized_packet_def wf_guid_def guid_from_def usize_max_def)

lemma other_player_sent:
  "send_packet bytes_list script_tcp mailbox_udp other_player (udp_open, sample_world) =
     Some (Ok (), (udp_sent, sample_world))"
proof -
  have "0 < length (packet_bytes other_player)"
    using length_packet_bytes[OF other_player_sized(1)] by simp
  then have "udp_write_packet bytes_list mailbox_udp other_player (udp_conn udp_open) =
      Some (Ok (), udp_conn udp_sent)"
    by (subst mailbox_socket.udp_write_run[OF other_player_sized, of _ peer])
       (simp_all add: udp_open_def udp_sent_def sample_client_def mb_conn_def count_loop_once
          unwrapped_def mb_send_def)
  moreover have "pkt_id other_player \<noteq> cli_guid udp_open" "movement other_player" "is_client_udp (udp_conn udp_open)"
    by (simp_all add: other_player_def udp_open_def sample_client_def mb_conn_def is_client_udp_def
        movement_def guid_default_def guid_from_def)
  ultimately show ?thesis
    by (simp add: send_packet_cases on_part) (simp add: udp_sent_def)
qed

theorem send_packet_transport_witness:
  "sample_world = sample_world \<and>
    (if pkt_id other_player = cli_guid udp_open then udp_sent = udp_open
     else if movement other_player \<and> is_client_udp (udp_conn udp_open) then
       conn udp_sent = conn udp_open \<and> (\<exists>a. send_addr (udp_conn udp_open) = Connected a
         \<and> mb_sent (udp_socket (udp_conn udp_sent)) =
             mb_sent (udp_socket (udp_conn udp_open)) @ [(packet_bytes other_player, a)])
     else udp_conn udp_sent = udp_conn udp_open
       \<and> write_packet bytes_list script_tcp other_player (conn udp_open) = Some (Ok (), conn udp_sent)
       \<and> (\<exists>ns. scr_tx (conn_socket (conn udp_sent)) = scr_tx (conn_socket (conn udp_open)) @
            concat (map (\<lambda>n. take n (packet_bytes other_player)) ns)
          \<and> length (packet_bytes other_player) \<le> sum_list ns))"
  by (rule send_packet_transport[OF script_socket.tcp_impl_axioms mailbox_socket.udp_impl_axioms
        other_player_sized other_player_sent])

text \<open>
  A command from the coordinator that carries a packet of the client's own writes nothing
  anywhere; if it is a disconnect, the client stops. Any other packet is sent and leaves the client
  alive; and any command that is not a packet is a panic.
\<close>
theorem command_effect:
  assumes "handle_command K T U cmd (c, w) = Some (r, (c', w'))"
  shows "case cmd of
       PacketCmd p \<Rightarrow>
         if pkt_id p = cli_guid c
         then r = Ok () \<and> w' = w \<and> c' = c\<lparr>alive := alive c \<and> pkt_data p \<noteq> Disconnect\<rparr>
         else send_packet K T U p (c, w) = Some (r, (c', w')) \<and> alive c' = alive c
     | _ \<Rightarrow> r = Panic \<and> c' = c \<and> w' = w"
proof (cases cmd)
  case (PacketCmd p)
  then show ?thesis
    using assms send_packet_keeps[of K T U p c w r c' w']
    by (cases "pkt_data p") (auto simp: handle_command_def split: if_splits)
qed (use assms in \<open>auto simp: handle_command_def\<close>)

definition own_disconnect :: packet where
  "own_disconnect = \<lparr>pkt_id = guid_default, data_size = 0, pkt_data = Disconnect\<rparr>"

lemma own_disconnect_run:
  "handle_command bytes_list script_tcp mailbox_udp (PacketCmd own_disconnect) (fresh, sample_world) =
     Some (Ok (), (fresh\<lparr>alive := False\<rparr>, sample_world))"
  by (simp add: handle_command_def own_disconnect_def fresh_def sample_client_def)

theorem command_effect_witness:
  "case (PacketCmd own_disconnect :: (u8 list, script, mailbox) command) of
       PacketCmd p \<Rightarrow>
         if pkt_id p = cli_guid fresh
         then (Ok () :: (unit, smo_error) res) = Ok () \<and> sample_world = sample_world
           \<and> fresh\<lparr>alive := False\<rparr> = fresh\<lparr>alive := alive fresh \<and> pkt_data p \<noteq> Disconnect\<rparr>
         else send_packet bytes_list script_tcp mailbox_udp p (fresh, sample_world) =
             Some (Ok (), (fresh\<lparr>alive := False\<rparr>, sample_world))
           \<and> alive (fresh\<lparr>alive := False\<rparr>) = alive fresh
     | _ \<Rightarrow> (Ok () :: (unit, smo_error) res) = Panic \<and> fresh\<lparr>alive := False\<rparr> = fresh
           \<and> sample_world = sample_world"
  by (rule command_effect[OF own_disconnect_run])

text \<open>
  C26. The whole conversation of a client's task with the coordinator, when the task ends: packets,
  none of them a UDP handshake, and at the end exactly one \<open>DisconnectPlayer\<close> with the guid the
  client came with.
\<close>
theorem task_conversation:
  assumes "tcp_impl K T rx tx" and "udp_impl K U got sent" and "tokio_impl rt log tasks"
    and "handle_events K T U rt (c, w) = Some (Ok (), (c', w'))"
  shows "\<exists>ps. log w' = log w @ map (\<lambda>p. (to_coord c, PacketCmd p)) ps @
        [(to_coord c, ServerCmd (DisconnectPlayer (cli_guid c)))]
     \<and> (\<forall>p \<in> set ps. \<forall>n. pkt_data p \<noteq> UdpInit n)"
  using client_task.handle_events_log[OF client_task.intro[OF assms(1-3)] assms(4)]
  by (simp add: is_udp_init_def)

definition goodbye :: "(u8 list, script, mailbox) command" where
  "goodbye = ServerCmd (DisconnectPlayer guid_default)"

lemma fresh_closed_run:
  "handle_events bytes_list script_tcp mailbox_udp post_tokio (fresh, sample_world) =
     Some (Ok (), (fresh\<lparr>alive := False\<rparr>, sent_on 0 goodbye sample_world))"
proof -
  have "fst (parse_packet bytes_list (script_conn [] 100)) = Ok None"
    by (simp add: script_parse parse_result_def frame_length_def script_conn_def)
  then have "read_packet bytes_list script_tcp (script_conn [] 100) =
      Some (Err (Encoding ConnectionClose), script_conn [] 100)"
    by (simp add: bytes_list_crate.read_packet_cases read_socket_def script_conn_def script_read_def
        zoom_def io_def abind_def)
  then have "read_event bytes_list script_tcp mailbox_udp post_tokio (fresh, sample_world) =
      Some (Err (Encoding ConnectionClose), (fresh, sample_world))"
    by (simp add: read_event_def on_conn_def zoom_def fresh_def sample_client_def sample_world_def)
  then have "client_turn bytes_list script_tcp mailbox_udp post_tokio (fresh, sample_world) =
      Some (Ok False, (fresh\<lparr>alive := False\<rparr>, sample_world))"
    by (simp add: client_turn_def)
  moreover have "alive fresh" by (simp add: fresh_def sample_client_def)
  ultimately have "client_loop bytes_list script_tcp mailbox_udp post_tokio (fresh, sample_world) =
      Some (Ok (), (fresh\<lparr>alive := False\<rparr>, sample_world))"
    by (subst client_loop.simps) (simp add: abind_def)
  then show ?thesis
    by (simp add: handle_events_def client_disconnect_def on_shared_def on_conn_def zoom_def send_def
        post_send_def fresh_def sample_client_def sample_world_def sent_all_def goodbye_def queued_def
        abind_def io_def)
qed

theorem task_conversation_witness:
  "\<exists>ps. po_log (runtime (sent_on 0 goodbye sample_world)) = po_log (runtime sample_world) @
        map (\<lambda>p. (to_coord fresh, PacketCmd p)) ps @
        [(to_coord fresh, ServerCmd (DisconnectPlayer (cli_guid fresh)))]
     \<and> (\<forall>p \<in> set ps. \<forall>n. pkt_data p \<noteq> UdpInit n)"
  by (rule task_conversation[OF script_socket.tcp_impl_axioms mailbox_socket.udp_impl_axioms
        post_runtime.tokio_impl_axioms fresh_closed_run])

text \<open>
  C31. A player who sends one complete frame with a text field that is not UTF-8, and whose TCP side
  is the one that is always ready, keeps the task busy for ever: the frame is read, fails and stays,
  the error is logged, and the loop never ends, so the player is never disconnected.
\<close>
theorem bad_frame_livelock:
  assumes "bytes_impl K" and "\<And>w. rt_pick rt w = FromTcp" and "alive c"
    and "fst (parse_packet K (conn c)) = Err e"
  shows "client_turn K T U rt (c, w) = Some (Ok True, (c, w)) \<and> handle_events K T U rt (c, w) = None"
proof -
  have read: "read_packet K T (conn c) = Some (Err e, conn c)"
    using assms(4) by (simp add: bytes_impl.read_packet_cases[OF assms(1)])
  from assms(4) obtain e' where "e = Encoding e'" and "e' \<noteq> ConnectionClose" "e' \<noteq> ConnectionReset"
    by (auto simp: bytes_impl.parse_packet_fst[OF assms(1)] dest!: parse_error_utf8)
  with read assms(2) have turn: "client_turn K T U rt (c, w) = Some (Ok True, (c, w))"
    by (simp add: client_turn_def read_event_def on_conn_def)
  have "client_loop K T U rt (c, w) \<noteq> Some y" for y
  proof
    assume run: "client_loop K T U rt (c, w) = Some y"
    have "K' = K \<longrightarrow> T' = T \<longrightarrow> U' = U \<longrightarrow> rt' = rt \<longrightarrow> s \<noteq> (c, w)"
      if "client_loop K' T' U' rt' s = Some y" for K' T' U' rt' s y
    proof (rule client_loop.raw_induct[where P = "\<lambda>K' T' U' rt' s y. K' = K \<longrightarrow> T' = T \<longrightarrow> U' = U \<longrightarrow>
          rt' = rt \<longrightarrow> s \<noteq> (c, w)", OF _ that], intro impI notI)
      fix F K' T' U' rt' s y
      assume step: "\<And>K' T' U' rt' s y. F K' T' U' rt' s = Some y \<Longrightarrow>
          K' = K \<longrightarrow> T' = T \<longrightarrow> U' = U \<longrightarrow> rt' = rt \<longrightarrow> s \<noteq> (c, w)"
        and body: "(if alive (fst s)
            then abind (client_turn K' T' U' rt') (\<lambda>go s. if go then F K' T' U' rt' s else aret () s) s
            else aret () s) = Some y"
        and eqs: "K' = K" "T' = T" "U' = U" "rt' = rt" and s: "s = (c, w)"
      from body assms(3) turn have "F K T U rt (c, w) = Some y" unfolding eqs s by simp
      with step show False by blast
    qed
    with run show False by blast
  qed
  then have "client_loop K T U rt (c, w) = None" by (cases "client_loop K T U rt (c, w)") auto
  with turn show ?thesis by (simp add: handle_events_def)
qed

theorem bad_frame_livelock_witness:
  "client_turn bytes_list script_tcp mailbox_udp (post_tokio\<lparr>rt_pick := \<lambda>_. FromTcp\<rparr>)
       (fresh\<lparr>conn := bad_capture\<rparr>, sample_world) = Some (Ok True, (fresh\<lparr>conn := bad_capture\<rparr>, sample_world))
   \<and> handle_events bytes_list script_tcp mailbox_udp (post_tokio\<lparr>rt_pick := \<lambda>_. FromTcp\<rparr>)
       (fresh\<lparr>conn := bad_capture\<rparr>, sample_world) = None"
  by (rule bad_frame_livelock[OF bytes_list_crate.bytes_impl_axioms])
     (simp_all add: bad_capture_parse, simp add: fresh_def sample_client_def)

text \<open>The steps of a handshake that succeeds, and the silence of one that does not.\<close>

lemma handshake_steps:
  assumes ch: "rt_channel rt 10 w = (ch, w1)"
    and "initialize_client K T U bind rt R stream coord udp_port w = Some (Ok (), w')"
  obtains a k0 k1 la u2 w2 w3 connect k2 k3 ca c_type m name where "tcp_peer_addr T stream = Some a"
    and "(connection_new K T stream :: (_, smo_error) res) = Ok k0"
    and "write_packet K T (init_packet (max_players (server (sh_settings w1)))) k0 = Some (Ok (), k1)"
    and "bind (socket_addr_new (V4 0) udp_port) w1 = Some (Ok u2, w2)" and "udp_local_addr U u2 = Some la"
    and "read_packet K T k1 = Some (Ok connect, k2)" and "pkt_data connect = Connect c_type m name"
    and "write_packet K T (udp_init_packet (addr_port la)) k2 = Some (Ok (), k3)"
    and "admit K T R coord ch (addr_port la) (udp_connection_new K u2 (addr_ip a)) connect k2 w2 =
      Some (Ok (ServerCmd (NewPlayer
            \<lparr>display_name = trim_nul name, cli_data = ca, cli_guid = pkt_id connect, alive = True,
             conn = k3, udp_conn = udp_connection_new K u2 (addr_ip a), to_coord = coord, from_server = ch\<rparr>
            connect ch)), w3)"
    and "send rt coord (ServerCmd (NewPlayer
            \<lparr>display_name = trim_nul name, cli_data = ca, cli_guid = pkt_id connect, alive = True,
             conn = k3, udp_conn = udp_connection_new K u2 (addr_ip a), to_coord = coord, from_server = ch\<rparr>
            connect ch)) w3 = Some (Ok (), w')"
proof -
  let ?max = "max_players (server (sh_settings w1))"
  from assms(2)[unfolded initialize_client_def, simplified ch packet_new_small]
  obtain a k0 k1 la u2 w2 w3 connect k2 cmd where a: "tcp_peer_addr T stream = Some a"
    and k0: "(connection_new K T stream :: (_, smo_error) res) = Ok k0"
    and init: "write_packet K T (init_packet ?max) k0 = Some (Ok (), k1)"
    and bnd: "bind (socket_addr_new (V4 0) udp_port) w1 = Some (Ok u2, w2)"
    and la: "udp_local_addr U u2 = Some la"
    and read: "read_packet K T k1 = Some (Ok connect, k2)"
    and adm: "admit K T R coord ch (addr_port la) (udp_connection_new K u2 (addr_ip a)) connect k2 w2 =
        Some (Ok cmd, w3)"
    and snd: "send rt coord cmd w3 = Some (Ok (), w')"
    by (clarsimp simp: abind_eq_Ok locally_Ok ch packet_new_small Let_def)
  from adm show thesis
    by (rule admit_Ok) (use adm snd in \<open>blast intro: that[OF a k0 init bnd la read]\<close>)
qed

lemma handshake_silent:
  assumes "tokio_impl rt log tasks" and silent: "\<And>a w q w'. bind a w = Some (q, w') \<Longrightarrow> log w' = log w"
    and "initialize_client K T U bind rt R stream coord udp_port w = Some (Err e, w')"
  shows "log w' = log w"
proof -
  obtain ch w1 where ch: "rt_channel rt 10 w = (ch, w1)" by fastforce
  with assms(3)[unfolded initialize_client_def, simplified ch packet_new_small]
    tokio_impl.channel_law[OF assms(1) ch]
  show ?thesis
    by (auto simp: ch packet_new_small locally_Ok Let_def
        dest!: silent tokio_impl.admit_log[OF assms(1)] tokio_impl.send_err[OF assms(1)]
        elim!: abind_cases)
qed

lemma packet_bytes_not_Nil: "packet_bytes p \<noteq> []"
proof -
  have "le_bytes 2 (data_size p) \<noteq> []" by (metis length_le_bytes list.size(3) zero_neq_numeral)
  then show ?thesis by (simp add: packet_bytes_def header_bytes_def)
qed

text \<open>What the socket of the new player has seen by the end of a handshake, in order.\<close>

lemma handshake_socket:
  assumes "tcp_impl K T rx tx" and "tcp_peer_addr T stream = Some a"
    and "(connection_new K T stream :: (_, smo_error) res) = Ok k0"
    and "write_packet K T (init_packet limit) k0 = Some (Ok (), k1)"
    and "read_packet K T k1 = Some (Ok connect, k2)"
    and "write_packet K T (udp_init_packet pt) k2 = Some (Ok (), k3)"
  obtains new n where "conn_addr k3 = a"
    and "written T tx (packet_bytes (init_packet limit)) (tcp_buf_writer T stream) (conn_socket k1)"
    and "rx (conn_socket k2) = rx (conn_socket k1) @ new" and "tx (conn_socket k2) = tx (conn_socket k1)"
    and "frame_length new = Some n" and "fst (decode_packet list_buf new) = Ok connect"
    and "bc_slice K (conn_buff k3) = drop n new"
    and "written T tx (packet_bytes (udp_init_packet pt)) (conn_socket k2) (conn_socket k3)"
proof -
  have K: "bytes_impl K" using assms(1) by (rule tcp_impl.axioms)
  from assms(2,3) have k0: "conn_socket k0 = tcp_buf_writer T stream" "conn_addr k0 = a"
    "bc_slice K (conn_buff k0) = []"
    by (auto simp: connection_new_def bytes_impl.with_capacity_law[OF K])
  note w1 = tcp_impl.write_packet_written[OF assms(1,4) handshake_packets(1,3)]
  note w2 = tcp_impl.write_packet_written[OF assms(1,6) handshake_packets(2,4)]
  note keeps = tcp_impl.read_packet_keeps[OF assms(1,5)]
  from tcp_impl.read_packet_step[OF assms(1,5)] obtain new where
    new: "rx (conn_socket k2) = rx (conn_socket k1) @ new"
      "first_packet (bc_slice K (conn_buff k1) @ new) = Some (connect, bc_slice K (conn_buff k2))"
    by (auto simp: tcp_impl.stream_step_def[OF assms(1)])
  from new(2) w1(3) k0(3) obtain n where "frame_length new = Some n"
    "fst (decode_packet list_buf new) = Ok connect" "bc_slice K (conn_buff k2) = drop n new"
    by (auto simp: first_packet_eq)
  with that[of new n] w1 w2 keeps new(1) k0 show thesis by simp
qed

text \<open>
  C9. A handshake that succeeds: the new connection is sent the limit of players, then the server
  reads the first frame of what the player sends, which has to be a \<open>Connect\<close>, then the connection is
  sent the server's UDP port, and then the coordinator is told exactly one thing: a new player, with
  that very packet. Its guid and name are the packet's, it is alive, its TCP side is this connection
  with what was read behind the frame still in the buffer, and its UDP side is the socket with that
  port, waiting for the port of the player at the IP address of its TCP side. Each of the two packets
  arrives once if the socket takes it in one piece. A handshake that ends with an error tells the
  coordinator nothing. (Of the runtime this uses that channels keep what is sent; that opening a
  UDP socket sends nothing is a hypothesis.)
\<close>
theorem handshake_outcome:
  assumes "tcp_impl K T rx tx" and "tokio_impl rt log tasks"
    and "\<forall>a w q w'. bind a w = Some (q, w') \<longrightarrow> log w' = log w"
    and "initialize_client K T U bind rt R stream coord udp_port w = Some (r, w')"
    and "rt_channel rt 10 w = (ch, w1)" and "limit = max_players (server (sh_settings w1))"
  shows "(r = Ok () \<longrightarrow> (\<exists>cli connect c_type m name a s1 s2 new n la.
        log w' = log w @ [(coord, ServerCmd (NewPlayer cli connect ch))]
      \<and> tcp_peer_addr T stream = Some a \<and> conn_addr (conn cli) = a
      \<and> written T tx (packet_bytes (init_packet limit)) (tcp_buf_writer T stream) s1
      \<and> rx s2 = rx s1 @ new \<and> tx s2 = tx s1
      \<and> frame_length new = Some n \<and> fst (decode_packet list_buf new) = Ok connect
      \<and> bc_slice K (conn_buff (conn cli)) = drop n new
      \<and> udp_local_addr U (udp_socket (udp_conn cli)) = Some la
      \<and> written T tx (packet_bytes (udp_init_packet (addr_port la))) s2 (conn_socket (conn cli))
      \<and> (\<forall>t1 t2. tcp_write T (packet_bytes (init_packet limit)) (tcp_buf_writer T stream) =
              Some (Ok (length (packet_bytes (init_packet limit))), t1) \<longrightarrow>
          tcp_write T (packet_bytes (udp_init_packet (addr_port la))) s2 =
              Some (Ok (length (packet_bytes (udp_init_packet (addr_port la)))), t2) \<longrightarrow>
          tx (conn_socket (conn cli)) = tx (tcp_buf_writer T stream)
            @ packet_bytes (init_packet limit) @ packet_bytes (udp_init_packet (addr_port la)))
      \<and> pkt_data connect = Connect c_type m name \<and> cli_guid cli = pkt_id connect
      \<and> display_name cli = trim_nul name \<and> alive cli \<and> to_coord cli = coord \<and> from_server cli = ch
      \<and> send_addr (udp_conn cli) = Pending (addr_ip a)))
     \<and> (\<forall>e. r = Err e \<longrightarrow> log w' = log w)"
proof (cases r)
  case (Ok u)
  with assms(4) have run: "initialize_client K T U bind rt R stream coord udp_port w = Some (Ok (), w')" by simp
  obtain a k0 k1 la u2 w2 w3 connect k2 k3 ca c_type m name
    where a: "tcp_peer_addr T stream = Some a" and k0: "(connection_new K T stream :: (_, smo_error) res) = Ok k0"
      and init: "write_packet K T (init_packet limit) k0 = Some (Ok (), k1)"
      and bnd: "bind (socket_addr_new (V4 0) udp_port) w1 = Some (Ok u2, w2)" and la: "udp_local_addr U u2 = Some la"
      and read: "read_packet K T k1 = Some (Ok connect, k2)" and c: "pkt_data connect = Connect c_type m name"
      and udpi: "write_packet K T (udp_init_packet (addr_port la)) k2 = Some (Ok (), k3)"
      and adm: "admit K T R coord ch (addr_port la) (udp_connection_new K u2 (addr_ip a)) connect k2 w2 =
        Some (Ok (ServerCmd (NewPlayer
            \<lparr>display_name = trim_nul name, cli_data = ca, cli_guid = pkt_id connect, alive = True,
             conn = k3, udp_conn = udp_connection_new K u2 (addr_ip a), to_coord = coord, from_server = ch\<rparr>
            connect ch)), w3)"
      and snd: "send rt coord (ServerCmd (NewPlayer
            \<lparr>display_name = trim_nul name, cli_data = ca, cli_guid = pkt_id connect, alive = True,
             conn = k3, udp_conn = udp_connection_new K u2 (addr_ip a), to_coord = coord, from_server = ch\<rparr>
            connect ch)) w3 = Some (Ok (), w')"
    unfolding assms(6) by (rule handshake_steps[OF assms(5) run])
  have told: "log w' = log w @ [(coord, ServerCmd (NewPlayer
            \<lparr>display_name = trim_nul name, cli_data = ca, cli_guid = pkt_id connect, alive = True,
             conn = k3, udp_conn = udp_connection_new K u2 (addr_ip a), to_coord = coord, from_server = ch\<rparr>
            connect ch))]"
    using tokio_impl.channel_law[OF assms(2,5)] assms(3)[rule_format, OF bnd] tokio_impl.admit_log[OF assms(2) adm]
      tokio_impl.send_ok[OF assms(2) snd[unfolded send_eq]]
    by auto
  obtain new n where sock: "conn_addr k3 = a"
    "written T tx (packet_bytes (init_packet limit)) (tcp_buf_writer T stream) (conn_socket k1)"
    "rx (conn_socket k2) = rx (conn_socket k1) @ new" "tx (conn_socket k2) = tx (conn_socket k1)"
    "frame_length new = Some n" "fst (decode_packet list_buf new) = Ok connect"
    "bc_slice K (conn_buff k3) = drop n new"
    "written T tx (packet_bytes (udp_init_packet (addr_port la))) (conn_socket k2) (conn_socket k3)"
    by (rule handshake_socket[OF assms(1) a k0 init read udpi])
  have once: "tx (conn_socket k3) = tx (tcp_buf_writer T stream)
      @ packet_bytes (init_packet limit) @ packet_bytes (udp_init_packet (addr_port la))"
    if "tcp_write T (packet_bytes (init_packet limit)) (tcp_buf_writer T stream) =
        Some (Ok (length (packet_bytes (init_packet limit))), t1)"
      and "tcp_write T (packet_bytes (udp_init_packet (addr_port la))) (conn_socket k2) =
        Some (Ok (length (packet_bytes (udp_init_packet (addr_port la)))), t2)" for t1 t2
    using written_whole[OF sock(2) packet_bytes_not_Nil that(1)] sock(4)
      written_whole[OF sock(8) packet_bytes_not_Nil that(2)]
    by simp
  show ?thesis
    using Ok
    by (intro conjI impI allI exI[of _ "\<lparr>display_name = trim_nul name, cli_data = ca, cli_guid = pkt_id connect,
          alive = True, conn = k3, udp_conn = udp_connection_new K u2 (addr_ip a), to_coord = coord,
          from_server = ch\<rparr>"] exI[of _ connect] exI[of _ c_type] exI[of _ m] exI[of _ name] exI[of _ a]
        exI[of _ "conn_socket k1"] exI[of _ "conn_socket k2"] exI[of _ new] exI[of _ n] exI[of _ la])
       (simp_all add: told sock a c la once udp_connection_new_def)
next
  case (Err e)
  with handshake_silent[OF assms(2) assms(3)[rule_format]] assms(4) show ?thesis by simp
qed simp

text \<open>A player who introduces itself.\<close>

definition any_bind :: "socket_addr \<Rightarrow> (mailbox, unit, test_post shared) async" where
  "any_bind a = aret \<lparr>mb_in = [], mb_got = [], mb_sent = [], mb_up = True\<rparr>"

text \<open>The scripted socket, with writes that always take everything.\<close>

definition whole_tcp :: "(u8 list, socket_addr \<times> script, script) tcp" where
  "whole_tcp = script_tcp\<lparr>tcp_write := \<lambda>bs s. Some (Ok (length bs), s\<lparr>scr_tx := scr_tx s @ bs\<rparr>)\<rparr>"

interpretation whole_socket: tcp_impl bytes_list whole_tcp scr_rx scr_tx
  by unfold_locales
     (auto simp: whole_tcp_def script_read_def min_def split: list.splits)

definition peer_saying :: "packet \<Rightarrow> socket_addr \<times> script" where
  "peer_saying q = (peer, \<lparr>scr_in = [packet_bytes q], scr_rx = [], scr_tx = [], scr_max = 1\<rparr>)"

text \<open>Its connection, before and after it is heard, when \<open>out\<close> has been sent.\<close>

definition saying :: "packet \<Rightarrow> u8 list \<Rightarrow> (u8 list, script) connection" where
  "saying q out = \<lparr>conn_addr = peer,
     conn_socket = \<lparr>scr_in = [packet_bytes q], scr_rx = [], scr_tx = out, scr_max = 1\<rparr>, conn_buff = []\<rparr>"

definition heard :: "packet \<Rightarrow> u8 list \<Rightarrow> (u8 list, script) connection" where
  "heard q out = \<lparr>conn_addr = peer,
     conn_socket = \<lparr>scr_in = [], scr_rx = packet_bytes q, scr_tx = out, scr_max = 1\<rparr>, conn_buff = []\<rparr>"

lemma saying_new: "(connection_new bytes_list whole_tcp (peer_saying q) :: (_, 'e) res) = Ok (saying q [])"
  by (simp add: connection_new_def peer_saying_def saying_def whole_tcp_def)

lemma whole_written:
  assumes "sized_packet p" and "20 + get_size (pkt_data p) \<le> usize_max"
  shows "write_packet bytes_list whole_tcp p (saying q out) = Some (Ok (), saying q (out @ packet_bytes p))"
    and "write_packet bytes_list whole_tcp p (heard q out) = Some (Ok (), heard q (out @ packet_bytes p))"
  by (rule whole_socket.write_packet_once(1)[OF assms, of _ _ "conn_socket (saying q (out @ packet_bytes p))", THEN trans];
      simp add: whole_tcp_def saying_def)
     (rule whole_socket.write_packet_once(1)[OF assms, of _ _ "conn_socket (heard q (out @ packet_bytes p))", THEN trans];
      simp add: whole_tcp_def heard_def)

lemma saying_read:
  assumes "wf_packet q" and "framed q"
  shows "read_packet bytes_list whole_tcp (saying q out) = Some (Ok q, heard q out)"
proof -
  let ?k = "heard q out\<lparr>conn_buff := packet_bytes q\<rparr>"
  have complete: "parse_result (packet_bytes q) = (Ok (Some q), [])"
    using first_packet_bytes[OF assms, of "[]"]
    by (auto simp: first_packet_def split: prod.splits res.splits option.splits)
  have "packet_bytes q \<noteq> []"
    using length_packet_bytes[OF wf_packet_sized[OF assms(1)]] by auto
  then have "read_socket bytes_list whole_tcp (saying q out) = Some (Ok (), ?k)"
    by (auto simp: read_socket_def saying_def heard_def whole_tcp_def script_read_def zoom_def io_def abind_def)
  moreover have "fst (parse_packet bytes_list (saying q out)) = Ok None"
    by (simp add: script_parse saying_def parse_result_def frame_length_def)
  moreover have "fst (parse_packet bytes_list ?k) = Ok (Some q)"
    and "snd (parse_packet bytes_list ?k) = heard q out"
    using script_parse[of ?k] complete
    by (simp_all add: parse_packet_def) (simp add: heard_def)
  ultimately show ?thesis by (simp add: bytes_list_crate.read_packet_cases)
qed

definition hello :: packet where
  "hello = \<lparr>pkt_id = guid_from (replicate 16 7), data_size = 38, pkt_data = Connect FirstConnection 8 []\<rparr>"

lemma hello_wf: "wf_packet hello" "framed hello"
  by (simp_all add: hello_def wf_packet_def wf_guid_def guid_from_def framed_def wf_field_def trimmed_def field_sizes)

definition greeting :: "u8 list" where
  "greeting = packet_bytes (init_packet 8) @ packet_bytes (udp_init_packet 51888)"

text \<open>The new player, with cell 1 and channel 2.\<close>

definition hello_client :: "(u8 list, script, mailbox) client" where
  "hello_client = \<lparr>display_name = [], cli_data = 1, cli_guid = pkt_id hello, alive = True,
     conn = heard hello greeting,
     udp_conn = udp_connection_new bytes_list \<lparr>mb_in = [], mb_got = [], mb_sent = [], mb_up = True\<rparr> (addr_ip peer),
     to_coord = 0, from_server = 2\<rparr>"

definition hello_world :: "test_post shared" where
  "hello_world = sent_on 0 (ServerCmd (NewPlayer hello_client hello 2))
     (snd (new_cell (client_data_default sample_ranks) (snd (rt_channel post_tokio 10 sample_world))))"

lemma hello_run:
  "initialize_client bytes_list whole_tcp mailbox_udp any_bind post_tokio sample_ranks (peer_saying hello) 0 51888
     sample_world = Some (Ok (), hello_world)"
proof -
  have udp: "udp_local_addr mailbox_udp u = Some (SocketV4 0 51888)" for u by simp
  have read: "read_packet bytes_list whole_tcp (saying hello out) = Some (Ok hello, heard hello out)" for out
    by (rule saying_read[OF hello_wf])
  have peer: "tcp_peer_addr whole_tcp (peer_saying hello) = Some peer"
    by (simp add: whole_tcp_def peer_saying_def)
  define w1 where "w1 = snd (rt_channel post_tokio 10 sample_world :: chan \<times> test_post shared)"
  define w2 where "w2 = snd (new_cell (client_data_default sample_ranks) w1)"
  have ch: "rt_channel post_tokio 10 sample_world = (2, w1)"
    by (simp add: w1_def sample_world_def)
  have limit: "max_players (server (sh_settings w1)) = 8"
    by (simp add: w1_def sample_world_def settings_default_def server_settings_default_def)
  have cell: "new_cell (client_data_default sample_ranks\<lparr>cd_name := []\<rparr>) w1 = (1, w2)"
    by (simp add: w1_def w2_def new_cell_def sample_world_def client_data_default_def)
  have room: "send post_tokio 0 cmd w2 = Some (Ok (), sent_on 0 cmd w2)" for cmd
    by (simp add: w1_def w2_def send_def post_send_def new_cell_def sample_world_def sent_all_def on_runtime_def queued_def)
  have data: "pkt_data hello = Connect FirstConnection 8 []" by (simp add: hello_def)
  have "hello_world = sent_on 0 (ServerCmd (NewPlayer hello_client hello 2)) w2"
    by (simp add: hello_world_def w1_def w2_def)
  then show ?thesis
    by (simp add: initialize_client_def abind_def the_or_panic_def from_res_def peer saying_new packet_new_small
        locally_def whole_written[OF handshake_packets(1,3)] whole_written[OF handshake_packets(2,4)]
        any_bind_def read admit_def io_def data ch limit cell room
        hello_client_def greeting_def trim_nul_def del: post_tokio_ops(5))
qed

theorem handshake_outcome_witness:
  "\<exists>(cli :: (u8 list, script, mailbox) client) connect c_type m name s1 (s2 :: script) new n.
        po_log (runtime hello_world) = po_log (runtime sample_world) @ [(0, ServerCmd (NewPlayer cli connect 2))]
      \<and> written whole_tcp scr_tx (packet_bytes (init_packet 8)) (snd (peer_saying hello)) s1
      \<and> scr_rx s2 = scr_rx s1 @ new \<and> frame_length new = Some n
      \<and> fst (decode_packet list_buf new) = Ok connect
      \<and> pkt_data connect = Connect c_type m name \<and> cli_guid cli = pkt_id connect"
proof -
  have ch: "rt_channel post_tokio 10 sample_world = (2, snd (rt_channel post_tokio 10 sample_world))"
    by (simp add: sample_world_def)
  have limit: "8 = max_players (server (sh_settings (snd (rt_channel post_tokio 10 sample_world))))"
    by (simp add: sample_world_def settings_default_def server_settings_default_def)
  have silent: "\<forall>a w q w'. any_bind a w = Some (q, w') \<longrightarrow> po_log (runtime w') = po_log (runtime w)"
    by (simp add: any_bind_def)
  have writer: "tcp_buf_writer whole_tcp = snd" by (simp add: whole_tcp_def)
  note all = handshake_outcome[OF whole_socket.tcp_impl_axioms post_runtime.tokio_impl_axioms silent
      hello_run ch limit]
  from all[THEN conjunct1, THEN mp, OF refl] show ?thesis
    unfolding writer by (elim exE conjE) ((rule exI)+, intro conjI, assumption+)
qed

end
