(* ===== verification/Coordinator.thy ===== *)
theory Coordinator
  imports Client_Facts
begin

text \<open>
  The coordinator, \<open>src/coordinator.rs\<close>: the one task that knows every client. It keeps two maps,
  from the guid of a client to its shared data and to the channel of its task, answers the commands
  of the clients' tasks, and owns the shine bag.
\<close>

record coordinator =
  clients :: "(guid, nat) hmap"
  to_clients :: "(guid, chan) hmap"
  from_clients :: chan

type_synonym 'x costate = "coordinator \<times> 'x shared"

definition on_world :: "('a, 'e, 'x shared) async \<Rightarrow> ('a, 'e, 'x costate) async" where
  "on_world = zoom snd (\<lambda>w (co, _). (co, w))"

text \<open>\<open>Option::ok_or(SMOError::InvalidID(id))\<close>.\<close>

definition get_client :: "guid \<Rightarrow> (nat, smo_error, 'x costate) async" where
  "get_client g s = (case hm_get (clients (fst s)) g of
       None \<Rightarrow> athrow (InvalidID g) s
     | Some a \<Rightarrow> aret a s)"

definition get_channel :: "guid \<Rightarrow> (chan, smo_error, 'x costate) async" where
  "get_channel g s = (case hm_get (to_clients (fst s)) g of
       None \<Rightarrow> athrow (InvalidID g) s
     | Some ch \<Rightarrow> aret ch s)"

section \<open>Shines\<close>

text \<open>
  Sends a client the shines it misses, under the sender id \<open>g\<close>. Both locks are held to the end, so
  the two sets are read once.
\<close>

definition client_sync_shines ::
  "('b, 's, 'u, 'x) tokio \<Rightarrow> chan \<Rightarrow> guid \<Rightarrow> nat \<Rightarrow> (unit, smo_error, 'x shared) async" where
  "client_sync_shines rt to_client g a w =
     (let d = cells w a in
      if speedrun_start d then aret () w
      else for_each (\<lambda>shine_id.
             abind (from_res (packet_new g (Shine shine_id False))) (\<lambda>p. send rt to_client (PacketCmd p)))
           (hs_difference (shine_bag w) (shine_sync d)) w)"

text \<open>The body of the task spawned 15 seconds before.\<close>

definition delayed_sync ::
  "('b, 's, 'u, 'x) tokio \<Rightarrow> chan \<Rightarrow> guid \<Rightarrow> nat \<Rightarrow> (unit, smo_error, 'x shared) async" where
  "delayed_sync rt ch g a = abind (atry (client_sync_shines rt ch g a)) (\<lambda>_. aret ())"

definition sync_all_shines :: "('b, 's, 'u, 'x) tokio \<Rightarrow> (unit, smo_error, 'x costate) async" where
  "sync_all_shines rt s =
     for_each (\<lambda>(g, a) s. case hm_get (to_clients (fst s)) g of
         None \<Rightarrow> apanic s
       | Some ch \<Rightarrow> on_world (client_sync_shines rt ch guid_default a) s)
     (hm_iter (clients (fst s))) s"

section \<open>Broadcasting\<close>

definition broadcast :: "('b, 's, 'u, 'x) tokio \<Rightarrow> packet \<Rightarrow> (unit, smo_error, 'x costate) async" where
  "broadcast rt p s =
     (let p = resize p in
      for_each (\<lambda>cli. on_world (send rt cli (PacketCmd p))) (hm_values (to_clients (fst s))) s)"

definition disconnect_player :: "('b, 's, 'u, 'x) tokio \<Rightarrow> guid \<Rightarrow> (unit, smo_error, 'x costate) async" where
  "disconnect_player rt g =
     abind (amodify (apfst (\<lambda>co. co\<lparr>clients := hm_remove g (clients co)\<rparr>))) (\<lambda>_ s.
       case hm_get (to_clients (fst s)) g of
         None \<Rightarrow> aret () s
       | Some comm \<Rightarrow>
           abind (amodify (apfst (\<lambda>co. co\<lparr>to_clients := hm_remove g (to_clients co)\<rparr>))) (\<lambda>_.
           abind (from_res (packet_new g Disconnect)) (\<lambda>p.
           abind (broadcast rt p) (\<lambda>_.
           on_world (send rt comm (PacketCmd p))))) s)"

section \<open>New players\<close>

text \<open>What a new player is told about one client, itself included.\<close>

definition introduce ::
  "('b, 's, 'u, 'x) tokio \<Rightarrow> chan \<Rightarrow> u16 \<Rightarrow> guid \<times> nat \<Rightarrow> (unit, smo_error, 'x costate) async" where
  "introduce rt comm max_player = (\<lambda>(other_id, a).
     abind (agets (\<lambda>s. cells (snd s) a)) (\<lambda>other.
     abind (from_res (packet_new other_id (Connect FirstConnection max_player (cd_name other)))) (\<lambda>connect_packet.
     abind (from_res (packet_new other_id (Costume (cd_costume other)))) (\<lambda>costume_packet.
     abind (on_world (send rt comm (PacketCmd connect_packet))) (\<lambda>_.
     abind (on_world (send rt comm (PacketCmd costume_packet))) (\<lambda>_.
     case last_game_packet other of
       Some p \<Rightarrow> on_world (send rt comm (PacketCmd p))
     | None \<Rightarrow> aret ()))))))"

definition setup_player ::
  "('b, 's, 'u, 'x) tokio \<Rightarrow> chan \<Rightarrow> packet \<Rightarrow> (unit, smo_error, 'x costate) async" where
  "setup_player rt comm p =
     abind (agets (\<lambda>s. max_players (server (sh_settings (snd s))))) (\<lambda>max_player.
     abind (\<lambda>s. for_each (introduce rt comm max_player) (hm_iter (clients (fst s))) s) (\<lambda>_.
     broadcast rt p))"

text \<open>The checks of \<open>add_client\<close>, in their order.\<close>

definition can_connect :: "settings \<Rightarrow> nat \<Rightarrow> ('b, 's, 'u) client \<Rightarrow> smo_error option" where
  "can_connect set' connected cli =
     (if unat (max_players (server set')) < connected then Some (ClientInit TooManyPlayers)
      else if hs_contains (ban_players (ban_list set')) (cli_guid cli) then Some (ClientInit BannedID)
      else if hs_contains (ban_ips (ban_list set')) (addr_ip (conn_addr (conn cli)))
      then Some (ClientInit BannedIP)
      else None)"

text \<open>Which data an accepted client works on, and the maps with it in.\<close>

definition register ::
  "connection_type \<Rightarrow> chan \<Rightarrow> ('b, 's, 'u) client \<Rightarrow> coordinator \<Rightarrow> ('b, 's, 'u) client \<times> coordinator" where
  "register c_type comm cli co =
     (let g = cli_guid cli;
          (cli, co) = (case c_type of
              FirstConnection \<Rightarrow> (cli, co\<lparr>clients := hm_insert g (cli_data cli) (clients co)\<rparr>)
            | Reconnecting \<Rightarrow> (case hm_get (clients co) g of
                  Some prev_data \<Rightarrow> (cli\<lparr>cli_data := prev_data\<rparr>, co)
                | None \<Rightarrow> (cli, co\<lparr>clients := hm_insert g (cli_data cli) (clients co)\<rparr>)))
      in (cli, co\<lparr>to_clients := hm_insert g comm (to_clients co)\<rparr>))"

definition add_client ::
  "('b, 'n, 's) tcp \<Rightarrow> ('b, 's, 'u, 'x) tokio \<Rightarrow> ('b, 's, 'u) server_command \<Rightarrow>
   (unit, smo_error, 'x costate) async" where
  "add_client T rt cmd s = (case cmd of
       NewPlayer cli p comm \<Rightarrow> (case pkt_data p of
           Connect c_type max_player client_name \<Rightarrow>
             (case can_connect (sh_settings (snd s)) (hm_len (clients (fst s))) cli of
                Some e \<Rightarrow>
                  abind (on_world (\<lambda>w. map_option (apsnd snd) (client_disconnect T rt (cli, w)))) (\<lambda>_. athrow e) s
              | None \<Rightarrow>
                  (let g = cli_guid cli; (cli, co) = register c_type comm cli (fst s) in
                   abind (amodify (map_prod (\<lambda>_. co) (rt_spawn rt (ClientTask cli)))) (\<lambda>_.
                   abind (atry (setup_player rt comm p)) (\<lambda>result. case result of
                       Some e \<Rightarrow> abind (disconnect_player rt g) (\<lambda>_. athrow e)
                     | None \<Rightarrow> aret ())) s))
         | _ \<Rightarrow> apanic s)
     | _ \<Rightarrow> apanic s)"

section \<open>Commands\<close>

text \<open>The stage names of the code, the second with its spelling.\<close>

definition waterfall_stage :: rstring where
  "waterfall_stage = str_lit ''WaterfallWordHomeStage''"

definition coord_game ::
  "('b, 's, 'u, 'x) tokio \<Rightarrow> packet \<Rightarrow> u8 \<Rightarrow> rstring \<Rightarrow> (unit, smo_error, 'x costate) async" where
  "coord_game rt p scenario_num stage =
     (if stage = cap_stage \<and> scenario_num = 0 then
        abind (get_client (pkt_id p)) (\<lambda>a.
        abind (on_world (amodify (update_cell a (\<lambda>d.
                 d\<lparr>speedrun_start := True, shine_sync := hm_clear (shine_sync d)\<rparr>)))) (\<lambda>_.
        on_world (amodify (\<lambda>w. w\<lparr>shine_bag := hm_clear (shine_bag w)\<rparr>))))
      else if stage = waterfall_stage then
        abind (get_client (pkt_id p)) (\<lambda>a.
        abind (agets (\<lambda>s. speedrun_start (cells (snd s) a))) (\<lambda>was_speed_run.
        abind (on_world (amodify (update_cell a (\<lambda>d. d\<lparr>speedrun_start := False\<rparr>)))) (\<lambda>_.
        if was_speed_run then
          abind (get_channel (pkt_id p)) (\<lambda>ch.
          on_world (amodify (rt_spawn rt (DelayedSync ch (pkt_id p) a))))
        else aret ())))
      else aret ())"

text \<open>Whether the coordinator goes on.\<close>

definition coord_handle_command ::
  "('b, 'n, 's) tcp \<Rightarrow> ('b, 's, 'u, 'x) tokio \<Rightarrow> ('b, 's, 'u) command \<Rightarrow>
   (bool, smo_error, 'x costate) async" where
  "coord_handle_command T rt cmd = (case cmd of
       ServerCmd sc \<Rightarrow> (case sc of
           NewPlayer cli p comm \<Rightarrow> abind (add_client T rt sc) (\<lambda>_. aret True)
         | DisconnectPlayer g \<Rightarrow> abind (disconnect_player rt g) (\<lambda>_. aret True)
         | Shutdown \<Rightarrow> aret False)
     | PacketCmd p \<Rightarrow> (case pkt_data p of
           Costume c \<Rightarrow> abind (sync_all_shines rt) (\<lambda>_. abind (broadcast rt p) (\<lambda>_. aret True))
         | Shine shine_id is_grand \<Rightarrow>
             abind (on_world (amodify (\<lambda>w. w\<lparr>shine_bag := hs_insert shine_id (shine_bag w)\<rparr>))) (\<lambda>_.
             abind (sync_all_shines rt) (\<lambda>_. aret True))
         | Game flat scenario_num stage \<Rightarrow>
             abind (coord_game rt p scenario_num stage) (\<lambda>_. abind (broadcast rt p) (\<lambda>_. aret True))
         | _ \<Rightarrow> abind (broadcast rt p) (\<lambda>_. aret True))
     | CliCmd c \<Rightarrow> apanic)"

definition shutdown :: "('b, 's, 'u, 'x) tokio \<Rightarrow> (unit, smo_error, 'x costate) async" where
  "shutdown rt s =
     for_each (\<lambda>g. abind (atry (disconnect_player rt g)) (\<lambda>_. aret ())) (hm_keys (to_clients (fst s))) s"

text \<open>One turn of the loop: whether it goes on. An error is logged; a closed channel is asked again.\<close>

definition coord_turn ::
  "('b, 'n, 's) tcp \<Rightarrow> ('b, 's, 'u, 'x) tokio \<Rightarrow> (bool, smo_error, 'x costate) async" where
  "coord_turn T rt =
     abind (\<lambda>s. on_world (\<lambda>w. map_option (apfst (map_err (\<lambda>_. RecvChannel))) (rt_recv rt (from_clients (fst s)) w)) s)
       (\<lambda>cmd. case cmd of
          None \<Rightarrow> aret True
        | Some c \<Rightarrow> (\<lambda>s. case coord_handle_command T rt c s of
              None \<Rightarrow> None
            | Some (Ok go, s) \<Rightarrow> aret go s
            | Some (Err e, s) \<Rightarrow> aret True s
            | Some (Panic, s) \<Rightarrow> apanic s))"

partial_function (option) coord_loop ::
  "('b, 'n, 's) tcp \<Rightarrow> ('b, 's, 'u, 'x) tokio \<Rightarrow> (unit, smo_error, 'x costate) async" where
  "coord_loop T rt s = abind (coord_turn T rt) (\<lambda>go s. if go then coord_loop T rt s else aret () s) s"

definition handle_commands ::
  "('b, 'n, 's) tcp \<Rightarrow> ('b, 's, 'u, 'x) tokio \<Rightarrow> (unit, smo_error, 'x costate) async" where
  "handle_commands T rt = abind (coord_loop T rt) (\<lambda>_. shutdown rt)"

end
