(* ===== verification/Coordinator_Facts.thy ===== *)
theory Coordinator_Facts
  imports Coordinator
begin

text \<open>
  What the coordinator does: the invariant of its two maps, which also keeps its \<open>unwrap\<close> from
  panicking, who is admitted, and what each command sends to whom.
\<close>

section \<open>Calls on the shared memory\<close>

lemma on_world_run:
  "on_world m (co, w) = Some (r, s') \<longleftrightarrow> (\<exists>w'. m w = Some (r, w') \<and> s' = (co, w'))"
  by (auto simp: on_world_def zoom_def)

lemma on_world_None [simp]: "on_world m (co, w) = None \<longleftrightarrow> m w = None"
  by (auto simp: on_world_def zoom_def)

lemma on_world_abind: "on_world (abind m f) = abind (on_world m) (\<lambda>a. on_world (f a))"
proof (rule ext)
  fix s :: "'a costate"
  obtain co w where s: "s = (co, w)" by fastforce
  show "on_world (abind m f) s = abind (on_world m) (\<lambda>a. on_world (f a)) s"
  proof (cases "m w")
    case None
    then show ?thesis by (simp add: s on_world_def zoom_def)
  next
    case (Some out)
    then show ?thesis
      by (cases out; cases "fst out") (simp_all add: s on_world_def zoom_def abind_def)
  qed
qed

lemma on_world_for_each: "for_each (\<lambda>x. on_world (f x)) xs = on_world (for_each f xs)"
proof (induction xs)
  case Nil
  show ?case by (auto simp: on_world_def zoom_def fun_eq_iff)
next
  case (Cons x xs)
  then show ?case by (simp add: on_world_abind)
qed

lemma on_world_aret [simp]: "on_world (aret a) = aret a"
  by (auto simp: on_world_def zoom_def fun_eq_iff)

lemma from_res_Ok [simp]: "from_res (Ok a) = aret a"
  by (auto simp: from_res_def fun_eq_iff)

section \<open>Sends as rows of messages\<close>

definition to_all :: "('b, 's, 'u) command \<Rightarrow> chan list \<Rightarrow> (chan \<times> ('b, 's, 'u) command) list" where
  "to_all cmd chs = map (\<lambda>ch. (ch, cmd)) chs"

lemma broadcast_row:
  "broadcast rt p (co, w) =
     on_world (send_each rt (to_all (PacketCmd (resize p)) (hm_values (to_clients co)))) (co, w)"
proof -
  have "for_each (\<lambda>ch. send rt ch cmd) chs = send_each rt (to_all cmd chs)" for cmd and chs
    by (induction chs) (simp_all add: to_all_def)
  then show ?thesis by (simp add: broadcast_def Let_def on_world_for_each)
qed

definition shine_packet :: "guid \<Rightarrow> i32 \<Rightarrow> packet" where
  "shine_packet g i = \<lparr>pkt_id = g, data_size = 5, pkt_data = Shine i False\<rparr>"

lemma packet_new_shine: "packet_new g (Shine i False) = Ok (shine_packet g i)"
  by (simp add: packet_new_def shine_packet_def)

text \<open>The shines a client lacks, in the order of the bag; none during its speedrun.\<close>

definition lacking :: "'x shared \<Rightarrow> nat \<Rightarrow> i32 list" where
  "lacking w a =
     (if speedrun_start (cells w a) then [] else hs_difference (shine_bag w) (shine_sync (cells w a)))"

definition shine_row :: "'x shared \<Rightarrow> chan \<Rightarrow> guid \<Rightarrow> nat \<Rightarrow> (chan \<times> ('b, 's, 'u) command) list" where
  "shine_row w ch g a = map (\<lambda>i. (ch, PacketCmd (shine_packet g i))) (lacking w a)"

lemma client_sync_row: "client_sync_shines rt ch g a w = send_each rt (shine_row w ch g a) w"
proof -
  have "for_each (\<lambda>i. abind (from_res (packet_new g (Shine i False))) (\<lambda>p. send rt ch (PacketCmd p))) is =
      send_each rt (map (\<lambda>i. (ch, PacketCmd (shine_packet g i))) is)" for "is"
    by (induction "is") (simp_all add: packet_new_shine)
  then show ?thesis
    by (simp add: client_sync_shines_def shine_row_def lacking_def Let_def)
qed

section \<open>The maps\<close>

text \<open>Both maps know the same clients.\<close>

definition coord_ok :: "coordinator \<Rightarrow> bool" where
  "coord_ok co \<longleftrightarrow> hm_ok (clients co) \<and> hm_ok (to_clients co)
     \<and> (\<forall>g. hm_get (clients co) g = None \<longleftrightarrow> hm_get (to_clients co) g = None)"

lemma coord_ok_channel:
  "coord_ok co \<Longrightarrow> (g, a) \<in> set (hm_iter (clients co)) \<Longrightarrow> \<exists>ch. hm_get (to_clients co) g = Some ch"
  unfolding coord_ok_def by (metis hm.iter_mem not_None_eq)

lemma register_ok:
  assumes "coord_ok co" and "register c_type comm cli co = (cli', co')"
  shows "coord_ok co'" and "cli_guid cli' = cli_guid cli"
    and "hm_get (to_clients co') = (hm_get (to_clients co))(cli_guid cli \<mapsto> comm)"
    and "hm_get (clients co') = (hm_get (clients co))(cli_guid cli \<mapsto> cli_data cli')"
    and "cli_data cli' = (if c_type = Reconnecting then
           (case hm_get (clients co) (cli_guid cli) of Some a \<Rightarrow> a | None \<Rightarrow> cli_data cli)
         else cli_data cli)"
    and "hm_len (clients co') \<le> Suc (hm_len (clients co))"
    and "cli' = cli\<lparr>cli_data := cli_data cli'\<rparr>"
proof -
  have len: "hm_len (hm_insert g a (clients co)) \<le> Suc (hm_len (clients co))" for g a
    using hm.len_insert_new[of "clients co" g a] hm.len_insert_old[of "clients co" g _ a] assms(1)
    by (cases "hm_get (clients co) g") (auto simp: coord_ok_def)
  have "(hm_get (clients co'), hm_get (to_clients co')) =
      ((hm_get (clients co))(cli_guid cli \<mapsto> cli_data cli'), (hm_get (to_clients co))(cli_guid cli \<mapsto> comm))"
    and ok: "hm_ok (clients co')" "hm_ok (to_clients co')"
    and "hm_len (clients co') \<le> Suc (hm_len (clients co))"
    using assms len
    by (auto simp: register_def coord_ok_def Let_def split: connection_type.splits option.splits)
  then show 1: "hm_get (to_clients co') = (hm_get (to_clients co))(cli_guid cli \<mapsto> comm)"
    and 2: "hm_get (clients co') = (hm_get (clients co))(cli_guid cli \<mapsto> cli_data cli')"
    and "hm_len (clients co') \<le> Suc (hm_len (clients co))"
    by simp_all
  show "coord_ok co'"
    using assms(1) ok by (simp add: coord_ok_def 1 2)
  show "cli_guid cli' = cli_guid cli" "cli' = cli\<lparr>cli_data := cli_data cli'\<rparr>"
    "cli_data cli' = (if c_type = Reconnecting then
           (case hm_get (clients co) (cli_guid cli) of Some a \<Rightarrow> a | None \<Rightarrow> cli_data cli)
         else cli_data cli)"
    using assms(2) by (auto simp: register_def Let_def split: connection_type.splits option.splits)
qed

text \<open>Both maps of a known or unknown client, after it is gone.\<close>

definition without :: "guid \<Rightarrow> coordinator \<Rightarrow> coordinator" where
  "without g co =
     (if hm_get (to_clients co) g = None then co\<lparr>clients := hm_remove g (clients co)\<rparr>
      else co\<lparr>clients := hm_remove g (clients co), to_clients := hm_remove g (to_clients co)\<rparr>)"

lemma hm_remove_absent: "hm_get m g = None \<Longrightarrow> hm_get (hm_remove g m) = hm_get m"
  by auto

lemma without_ok:
  assumes "coord_ok co"
  shows "coord_ok (without g co)" and "hm_get (clients (without g co)) = (hm_get (clients co))(g := None)"
    and "hm_get (to_clients (without g co)) = (hm_get (to_clients co))(g := None)"
    and "hm_len (clients (without g co)) \<le> hm_len (clients co)"
    and "from_clients (without g co) = from_clients co"
  using assms hm.len_remove_le[of "clients co" g]
  by (auto simp: without_def coord_ok_def fun_eq_iff)

section \<open>Safety\<close>

text \<open>A handler that keeps a property of the coordinator, whatever the outcome, and does not panic.\<close>

definition safe :: "(coordinator \<Rightarrow> bool) \<Rightarrow> ('a, 'e, 'x costate) async \<Rightarrow> bool" where
  "safe I m \<longleftrightarrow> (\<forall>co w r co' w'. I co \<longrightarrow> m (co, w) = Some (r, (co', w')) \<longrightarrow> r \<noteq> Panic \<and> I co')"

text \<open>The properties of the maps that a departing client does not break.\<close>

definition coord_inv :: "(coordinator \<Rightarrow> bool) \<Rightarrow> bool" where
  "coord_inv I \<longleftrightarrow> (\<forall>co. I co \<longrightarrow> coord_ok co) \<and> (\<forall>g co. I co \<longrightarrow> I (without g co))"

named_theorems safe_rules "handlers that keep an invariant and do not panic"

lemma safeD: "safe I m \<Longrightarrow> I co \<Longrightarrow> m (co, w) = Some (r, (co', w')) \<Longrightarrow> r \<noteq> Panic \<and> I co'"
  unfolding safe_def by blast

lemma safe_abind [safe_rules]:
  assumes m: "safe I m" and f: "\<And>a. safe I (f a)"
  shows "safe I (abind m f)"
  unfolding safe_def
proof (intro allI impI)
  fix co w r co' w' assume I: "I co" and "abind m f (co, w) = Some (r, (co', w'))"
  from this(2) show "r \<noteq> Panic \<and> I co'"
  proof (cases rule: abind_cases)
    case (ok a s1)
    then obtain co1 w1 where "s1 = (co1, w1)" by fastforce
    with safeD[OF m I] ok safeD[OF f] show ?thesis by blast
  qed (use safeD[OF m I] in auto)
qed

lemma safe_aret [safe_rules]: "safe I (aret a)"
  by (simp add: safe_def)

lemma safe_athrow [safe_rules]: "safe I (athrow e)"
  by (simp add: safe_def)

lemma safe_agets [safe_rules]: "safe I (agets f)"
  by (simp add: safe_def)

lemma safe_if [safe_rules]: "safe I m \<Longrightarrow> safe I n \<Longrightarrow> safe I (if b then m else n)"
  by simp

lemma safe_atry [safe_rules]:
  assumes m: "safe I m"
  shows "safe I (atry m)"
  unfolding safe_def[of I "atry m"]
proof (intro allI impI)
  fix co w r co' w' assume I: "I co" and run: "atry m (co, w) = Some (r, co', w')"
  show "r \<noteq> Panic \<and> I co'"
    using run safeD[OF m I] by (cases r) (auto simp: atry_eq)
qed

lemma safe_on_world:
  "(\<And>w w'. m w \<noteq> Some (Panic, w')) \<Longrightarrow> safe I (on_world m)"
  by (auto simp: safe_def on_world_run)

lemma safe_amodify_world [safe_rules]: "safe I (on_world (amodify f))"
  by (rule safe_on_world) simp

lemma safe_for_each:
  "(\<And>x. x \<in> set xs \<Longrightarrow> safe I (f x)) \<Longrightarrow> safe I (for_each f xs)"
proof (induction xs)
  case Nil
  show ?case unfolding for_each.simps by (rule safe_aret)
next
  case (Cons x xs)
  then show ?case unfolding for_each.simps by (intro safe_abind) auto
qed

lemma safe_get_client [safe_rules]: "safe I (get_client g)"
  by (auto simp: safe_def get_client_def split: option.splits)

lemma safe_get_channel [safe_rules]: "safe I (get_channel g)"
  by (auto simp: safe_def get_channel_def split: option.splits)

lemma get_size_small: "packet_new g Disconnect = Ok \<lparr>pkt_id = g, data_size = 0, pkt_data = Disconnect\<rparr>"
  "packet_new g (Connect t m n) = Ok \<lparr>pkt_id = g, data_size = 38, pkt_data = Connect t m n\<rparr>"
  "packet_new g (Costume c) = Ok \<lparr>pkt_id = g, data_size = 64, pkt_data = Costume c\<rparr>"
  by (simp_all add: packet_new_def field_sizes)

definition gone_packet :: "guid \<Rightarrow> packet" where
  "gone_packet g = \<lparr>pkt_id = g, data_size = 0, pkt_data = Disconnect\<rparr>"

text \<open>The messages of a disconnect: everyone left is told, then the one who goes.\<close>

definition gone_row :: "guid \<Rightarrow> coordinator \<Rightarrow> (chan \<times> ('b, 's, 'u) command) list" where
  "gone_row g co = (case hm_get (to_clients co) g of
       None \<Rightarrow> []
     | Some ch \<Rightarrow> to_all (PacketCmd (gone_packet g)) (hm_values (to_clients (without g co)) @ [ch]))"

lemma disconnect_row:
  "disconnect_player rt g (co, w) = on_world (send_each rt (gone_row g co)) (without g co, w)"
proof (cases "hm_get (to_clients co) g")
  case None
  then show ?thesis
    by (simp add: disconnect_player_def gone_row_def without_def on_world_def zoom_def abind_def)
next
  case (Some ch)
  have "resize (gone_packet g) = gone_packet g"
    by (simp add: gone_packet_def resize_def)
  with Some show ?thesis
    by (simp add: disconnect_player_def gone_row_def without_def get_size_small flip: gone_packet_def)
       (simp add: abind_def[of "amodify _"] abind_def[of "broadcast rt _"]
          abind_def[of "on_world (send_each rt _)"] broadcast_row to_all_def send_each_append on_world_abind)
qed

context tokio_impl
begin

lemma row_no_panic: "send_each rt ms w \<noteq> Some (Panic, w')"
  using send_each_log[of ms w Panic w'] by auto

lemma safe_row [safe_rules]: "safe I (on_world (send_each rt ms))"
  by (rule safe_on_world) (rule row_no_panic)

lemma safe_send [safe_rules]: "safe I (on_world (send rt ch cmd))"
  by (rule safe_on_world) (simp add: send_no_panic)

lemma safe_broadcast [safe_rules]: "safe I (broadcast rt p)"
  by (auto simp: safe_def broadcast_row on_world_run row_no_panic)

lemma safe_disconnect [safe_rules]: "coord_inv I \<Longrightarrow> safe I (disconnect_player rt g)"
  by (auto simp: safe_def coord_inv_def disconnect_row on_world_run row_no_panic)

lemma safe_sync [safe_rules]: "safe I (on_world (client_sync_shines rt ch g a))"
  by (rule safe_on_world) (simp add: client_sync_row row_no_panic)

lemma safe_sync_all:
  assumes inv: "\<And>co. I co \<Longrightarrow> coord_ok co"
  shows "safe I (sync_all_shines rt)"
  unfolding safe_def
proof (intro allI impI)
  fix co w r co' w'
  assume I: "I co" and run: "sync_all_shines rt (co, w) = Some (r, (co', w'))"
  from inv[OF I] have ok: "coord_ok co" .
  let ?body = "\<lambda>(g, a) s. case hm_get (to_clients (fst s)) g of
         None \<Rightarrow> apanic s
       | Some ch \<Rightarrow> on_world (client_sync_shines rt ch guid_default a) s"
  have "safe (\<lambda>c. c = co) (?body x)" if "x \<in> set (hm_iter (clients co))" for x
    using coord_ok_channel[OF ok] that safe_sync[of "\<lambda>c. c = co"]
    by (cases x) (auto simp: safe_def split: option.splits; blast)
  then have "safe (\<lambda>c. c = co) (for_each ?body (hm_iter (clients co)))" by (rule safe_for_each)
  with run safeD[of "\<lambda>c. c = co"] I show "r \<noteq> Panic \<and> I co'"
    by (fastforce simp: sync_all_shines_def)
qed

lemma safe_introduce [safe_rules]: "safe I (introduce rt comm m x)"
proof -
  have "safe I (introduce rt comm m (g, a))" for g a
    unfolding introduce_def prod.case get_size_small from_res_Ok
    by (intro safe_rules; simp add: safe_send safe_aret split: option.splits)
  then show ?thesis by (cases x) simp
qed

lemma safe_setup [safe_rules]: "safe I (setup_player rt comm p)"
proof -
  have "safe I (\<lambda>s. for_each (introduce rt comm m) (hm_iter (clients (fst s))) s)" for m
    using safe_for_each[OF safe_introduce] unfolding safe_def by fastforce
  then show ?thesis unfolding setup_player_def by (intro safe_rules)
qed

lemma safe_coord_game: "safe I (coord_game rt p n stage)"
  unfolding coord_game_def by (intro safe_rules)

lemma client_disconnect_log:
  assumes "client_disconnect T rt (c, w) = Some (r, (c', w'))"
    and "\<And>s s'. tcp_shutdown T s \<noteq> Some (Panic, s')"
  shows "r \<noteq> Panic \<and> tasks w' = tasks w
     \<and> (if r = Err SendChannel then log w' = log w
        else log w' = log w @ [(to_coord c, ServerCmd (DisconnectPlayer (cli_guid c)))])
     \<and> (r = Ok () \<or> r = Err SendChannel \<or> r = Err Io)"
proof -
  let ?m = "on_shared (send rt (to_coord c) (ServerCmd (DisconnectPlayer (cli_guid c))))"
  from assms(1) have "abind ?m (\<lambda>_. abind (on_conn (zoom conn_socket (\<lambda>k c. c\<lparr>conn_socket := k\<rparr>) (io (tcp_shutdown T))))
      (\<lambda>_. aret ())) (c, w) = Some (r, (c', w'))"
    by (simp add: client_disconnect_def)
  then show ?thesis
  proof (cases rule: abind_cases)
    case (ok u s1)
    then obtain w1 where w1: "rt_send rt (to_coord c) (ServerCmd (DisconnectPlayer (cli_guid c))) w = Some (Ok (), w1)"
      "s1 = (c, w1)"
      by (auto simp: on_part)
    with ok(2) have "w' = w1" and "r = Ok () \<or> r = Err Io"
      by (cases r; auto simp: on_part zoom_def assms(2) elim!: abind_cases)+
    with send_ok[OF w1(1)] show ?thesis by auto
  qed (auto simp: on_part dest: send_err send_no_panic[THEN notE])
qed

text \<open>An accepted client, from the moment it is in the maps.\<close>

definition accepted_run ::
  "connection_type \<Rightarrow> ('b, 's, 'u) client \<Rightarrow> packet \<Rightarrow> chan \<Rightarrow> (unit, smo_error, 'x costate) async" where
  "accepted_run c_type cli p comm s =
     (let (cli', co') = register c_type comm cli (fst s) in
      abind (atry (setup_player rt comm p)) (\<lambda>result. case result of
          Some e \<Rightarrow> abind (disconnect_player rt (cli_guid cli)) (\<lambda>_. athrow e)
        | None \<Rightarrow> aret ()) (co', rt_spawn rt (ClientTask cli') (snd s)))"

lemma add_client_cases:
  assumes "pkt_data p = Connect c_type m name"
  shows "add_client T rt (NewPlayer cli p comm) (co, w) =
     (case can_connect (sh_settings w) (hm_len (clients co)) cli of
        Some e \<Rightarrow> abind (on_world (\<lambda>w. map_option (apsnd snd) (client_disconnect T rt (cli, w)))) (\<lambda>_. athrow e) (co, w)
      | None \<Rightarrow> accepted_run c_type cli p comm (co, w))"
  using assms
  by (simp add: add_client_def accepted_run_def Let_def abind_def[of "amodify _"] split: option.splits prod.splits)

lemma accepted_safe:
  assumes inv: "coord_inv I" and reg: "I (snd (register c_type comm cli co))"
    and run: "accepted_run c_type cli p comm (co, w) = Some (r, (co', w'))"
  shows "r \<noteq> Panic \<and> I co'"
proof -
  obtain cli1 co1 where c1: "register c_type comm cli co = (cli1, co1)" by fastforce
  have "safe I (abind (atry (setup_player rt comm p)) (\<lambda>result. case result of
          Some e \<Rightarrow> abind (disconnect_player rt (cli_guid cli)) (\<lambda>_. athrow e)
        | None \<Rightarrow> aret ()))"
    by (intro safe_rules) (simp split: option.splits, intro conjI allI impI safe_rules inv)
  from safeD[OF this] run reg c1 show ?thesis by (fastforce simp: accepted_run_def)
qed

lemma refused_safe:
  assumes "\<And>s s'. tcp_shutdown T s \<noteq> Some (Panic, s')"
  shows "safe I (abind (on_world (\<lambda>w. map_option (apsnd snd) (client_disconnect T rt (cli, w)))) (\<lambda>_. athrow e))"
  by (intro safe_abind safe_on_world safe_athrow) (auto dest: client_disconnect_log[OF _ assms])

lemma add_client_safe:
  assumes "\<And>s s'. tcp_shutdown T s \<noteq> Some (Panic, s')" and "pkt_data p = Connect c_type m name"
    and inv: "coord_inv I" and I: "I co"
    and reg: "can_connect (sh_settings w) (hm_len (clients co)) cli = None \<Longrightarrow>
      I (snd (register c_type comm cli co))"
    and run: "add_client T rt (NewPlayer cli p comm) (co, w) = Some (r, (co', w'))"
  shows "r \<noteq> Panic \<and> I co'"
proof (cases "can_connect (sh_settings w) (hm_len (clients co)) cli")
  case None
  with run accepted_safe[OF inv reg] show ?thesis by (simp add: add_client_cases[OF assms(2)])
next
  case (Some e)
  from safeD[OF refused_safe[where cli = cli and e = e and I = I, OF assms(1)], OF I] run Some
  show ?thesis by (simp add: add_client_cases[OF assms(2)])
qed

text \<open>The commands the other tasks send: no command line, and new players with their \<open>Connect\<close>.\<close>

end

fun from_tasks :: "('b, 's, 'u) command \<Rightarrow> bool" where
  "from_tasks (ServerCmd (NewPlayer cli p comm)) = (\<exists>t m n. pkt_data p = Connect t m n)"
| "from_tasks (CliCmd c) = False"
| "from_tasks cmd = True"

context tokio_impl
begin

lemma packet_safe:
  assumes inv: "\<And>co. I co \<Longrightarrow> coord_ok co"
  shows "safe I (coord_handle_command T rt (PacketCmd p))"
proof -
  note rules = safe_abind safe_sync_all safe_broadcast safe_aret safe_amodify_world safe_coord_game inv
  show ?thesis
    unfolding coord_handle_command_def command.case
    by (cases "pkt_data p") (simp_all only: packet_data.case; intro rules)+
qed

lemma command_safe:
  assumes "\<And>s s'. tcp_shutdown T s \<noteq> Some (Panic, s')" and "from_tasks cmd"
    and inv: "coord_inv I" and I: "I co"
    and reg: "\<And>cli p comm c_type m name. cmd = ServerCmd (NewPlayer cli p comm) \<Longrightarrow>
      pkt_data p = Connect c_type m name \<Longrightarrow>
      can_connect (sh_settings w) (hm_len (clients co)) cli = None \<Longrightarrow>
      I (snd (register c_type comm cli co))"
    and run: "coord_handle_command T rt cmd (co, w) = Some (r, (co', w'))"
  shows "r \<noteq> Panic \<and> I co'"
proof (cases cmd)
  case (PacketCmd p)
  from inv have "safe I (coord_handle_command T rt cmd)"
    unfolding PacketCmd by (intro packet_safe) (simp add: coord_inv_def)
  from safeD[OF this I run] show ?thesis .
next
  case (CliCmd c)
  with assms(2) show ?thesis by simp
next
  case (ServerCmd sc)
  show ?thesis
  proof (cases sc)
    case (NewPlayer cli p comm)
    with ServerCmd assms(2) obtain t m n where p: "pkt_data p = Connect t m n" by auto
    from run have "abind (add_client T rt sc) (\<lambda>_. aret True) (co, w) = Some (r, (co', w'))"
      by (simp add: coord_handle_command_def ServerCmd NewPlayer)
    then obtain q where "add_client T rt (NewPlayer cli p comm) (co, w) = Some (q, (co', w'))"
      and "r = Panic \<longrightarrow> q = Panic"
      unfolding NewPlayer by (cases rule: abind_cases) auto
    with add_client_safe[OF assms(1) p inv I reg[OF ServerCmd[unfolded NewPlayer] p]] show ?thesis
      by blast
  next
    case (DisconnectPlayer g)
    have "safe I (coord_handle_command T rt cmd)"
      by (simp add: coord_handle_command_def ServerCmd DisconnectPlayer safe_abind safe_aret safe_disconnect inv)
    from safeD[OF this I run] show ?thesis .
  next
    case Shutdown
    with run I show ?thesis by (auto simp: coord_handle_command_def ServerCmd)
  qed
qed

lemma coord_inv_ok: "coord_inv coord_ok"
  by (simp add: coord_inv_def without_ok)

lemma coord_inv_limit: "coord_inv (\<lambda>co. coord_ok co \<and> hm_len (clients co) \<le> n)"
  unfolding coord_inv_def using without_ok(1,4) order_trans by blast

end

section \<open>What handlers do to the world\<close>

text \<open>A handler whose effect on the shared memory and the runtime is always in \<open>Q\<close>.\<close>

definition within :: "('x shared \<Rightarrow> 'x shared \<Rightarrow> bool) \<Rightarrow> ('a, 'e, 'x costate) async \<Rightarrow> bool" where
  "within Q m \<longleftrightarrow> (\<forall>s r s'. m s = Some (r, s') \<longrightarrow> Q (snd s) (snd s'))"

lemma withinD: "within Q m \<Longrightarrow> m s = Some (r, s') \<Longrightarrow> Q (snd s) (snd s')"
  unfolding within_def by blast

lemma within_abind:
  assumes "transp Q" and m: "within Q m" and f: "\<And>a. within Q (f a)"
  shows "within Q (abind m f)"
  unfolding within_def
proof (intro allI impI)
  fix s r s' assume "abind m f s = Some (r, s')"
  then show "Q (snd s) (snd s')"
    by (cases rule: abind_cases) (auto dest: withinD[OF m] withinD[OF f] intro: transpD[OF assms(1)])
qed

lemma within_pure:
  assumes "reflp Q"
  shows "within Q (aret a)" "within Q (athrow e)" "within Q (agets f)" "within Q apanic"
    "within Q (get_client g)" "within Q (get_channel g)" "within Q (amodify (apfst f'))"
  using assms by (auto simp: within_def get_client_def get_channel_def reflp_def split: option.splits)

lemma within_if: "within Q m \<Longrightarrow> within Q n \<Longrightarrow> within Q (if b then m else n)"
  by simp

lemma within_atry: "within Q m \<Longrightarrow> within Q (atry m)"
  unfolding within_def atry_def by fastforce

lemma within_on_world: "(\<And>w r w'. m w = Some (r, w') \<Longrightarrow> Q w w') \<Longrightarrow> within Q (on_world m)"
  unfolding within_def by (auto simp: on_world_def zoom_def)

lemma within_amodify: "(\<And>w. Q w (f w)) \<Longrightarrow> within Q (on_world (amodify f))"
  by (rule within_on_world) simp

lemma within_for_each:
  assumes "reflp Q" and "transp Q" and "\<And>x. within Q (f x)"
  shows "within Q (for_each f xs)"
proof (induction xs)
  case Nil
  show ?case unfolding for_each.simps by (rule within_pure[OF assms(1)])
next
  case (Cons x xs)
  then show ?case unfolding for_each.simps by (intro within_abind assms)
qed

lemma within_option:
  "within Q n \<Longrightarrow> (\<And>y. within Q (m y)) \<Longrightarrow> within Q (\<lambda>s. case h s of None \<Rightarrow> n s | Some y \<Rightarrow> m y s)"
  unfolding within_def by (simp split: option.splits)

lemma within_choose: "(\<And>s. within Q (h s)) \<Longrightarrow> within Q (\<lambda>s. h s s)"
  unfolding within_def by blast

text \<open>The relations that hold across a send of a packet and across what comes after each other.\<close>

definition send_closed :: "('b, 's, 'u, 'x) tokio \<Rightarrow> ('x shared \<Rightarrow> 'x shared \<Rightarrow> bool) \<Rightarrow> bool" where
  "send_closed rt Q \<longleftrightarrow> reflp Q \<and> transp Q
     \<and> (\<forall>ch p w r w'. send rt ch (PacketCmd p) w = Some (r, w') \<longrightarrow> Q w w')"

lemma send_closedD:
  assumes "send_closed rt Q"
  shows "reflp Q" "transp Q" "within Q (on_world (send rt ch (PacketCmd p)))"
  using assms by (auto simp: send_closed_def intro: within_on_world)

lemma within_loop: "send_closed rt Q \<Longrightarrow> (\<And>x. within Q (f x)) \<Longrightarrow> within Q (for_each f xs)"
  by (rule within_for_each[OF send_closedD(1,2)])

lemmas within_rules =
  within_abind[OF send_closedD(2)] within_pure[OF send_closedD(1)] send_closedD(3) within_loop

lemma for_each_map: "for_each f (map g xs) = for_each (\<lambda>x. f (g x)) xs"
  by (induction xs) simp_all

lemma within_broadcast:
  assumes Q: "send_closed rt Q"
  shows "within Q (broadcast rt p)"
proof -
  have "within Q (for_each (\<lambda>cli. on_world (send rt cli (PacketCmd (resize p)))) chs)" for chs
    by (intro within_rules[OF Q])
  then show ?thesis
    unfolding broadcast_def Let_def by (intro within_choose[where h = "\<lambda>s. for_each _ (hm_values (to_clients (fst s)))"])
qed

lemma within_disconnect:
  assumes Q: "send_closed rt Q"
  shows "within Q (disconnect_player rt g)"
  unfolding disconnect_player_def get_size_small from_res_Ok abind_aret
  by (intro within_rules[OF Q] within_option within_broadcast[OF Q])

lemma within_sync: "send_closed rt Q \<Longrightarrow> within Q (on_world (client_sync_shines rt ch g a))"
proof (rule within_on_world)
  fix w r w' assume Q: "send_closed rt Q" and "client_sync_shines rt ch g a w = Some (r, w')"
  then have "on_world (send_each rt (shine_row w ch g a)) (undefined, w) = Some (r, (undefined, w'))"
    by (simp add: client_sync_row on_world_run)
  moreover have "within Q (on_world (send_each rt (shine_row w ch g a)))"
    unfolding send_each_def on_world_for_each[symmetric] shine_row_def for_each_map
    by (rule within_loop[OF Q]) (simp add: send_closedD(3)[OF Q])
  ultimately show "Q w w'" by (auto dest: withinD)
qed

lemma within_sync_all:
  assumes Q: "send_closed rt Q"
  shows "within Q (sync_all_shines rt)"
proof -
  have "within Q ((\<lambda>(g, a) s. case hm_get (to_clients (fst s)) g of
         None \<Rightarrow> apanic s
       | Some ch \<Rightarrow> on_world (client_sync_shines rt ch guid_default a) s) x)" for x
    by (cases x) (simp only: prod.case, intro within_option within_sync[OF Q] within_rules[OF Q])
  note loop = within_loop[OF Q this]
  show ?thesis
    unfolding sync_all_shines_def by (rule within_choose) (rule loop)
qed

lemma within_introduce:
  assumes Q: "send_closed rt Q"
  shows "within Q (introduce rt comm m x)"
proof -
  have "within Q (introduce rt comm m (g, a))" for g a
    unfolding introduce_def prod.case get_size_small from_res_Ok
    by (intro within_rules[OF Q]; simp add: within_rules[OF Q] split: option.splits)
  then show ?thesis by (cases x) simp
qed

lemma within_setup:
  assumes Q: "send_closed rt Q"
  shows "within Q (setup_player rt comm p)"
proof -
  have "within Q (\<lambda>s. for_each (introduce rt comm m) (hm_iter (clients (fst s))) s)" for m
    by (rule within_choose[where h = "\<lambda>s. for_each _ (hm_iter (clients (fst s)))"])
      (intro within_rules[OF Q] within_introduce[OF Q])
  then show ?thesis unfolding setup_player_def by (intro within_rules[OF Q] within_broadcast[OF Q])
qed

text \<open>Where the relation also allows what is written to the memory and that tasks are started.\<close>

lemma within_game:
  assumes Q: "send_closed rt Q" and cell: "\<And>a f w. Q w (update_cell a f w)"
    and spawn: "\<And>ch g a w. Q w (rt_spawn rt (DelayedSync ch g a) w)"
    and bag: "stage = cap_stage \<and> n = 0 \<Longrightarrow> (\<And>w. Q w (w\<lparr>shine_bag := hm_clear (shine_bag w)\<rparr>))"
  shows "within Q (coord_game rt p n stage)"
proof (cases "stage = cap_stage \<and> n = 0")
  case True
  show ?thesis
    unfolding coord_game_def if_P[OF True]
    by (intro within_rules[OF Q] within_amodify cell bag[OF True])
next
  case False
  show ?thesis
    unfolding coord_game_def if_not_P[OF False]
    by (intro within_rules[OF Q] within_amodify within_if cell spawn)
qed

lemma within_accepted:
  assumes Q: "send_closed rt Q" and spawn: "\<And>t w. Q w (rt_spawn rt t w)"
    and run: "abind (atry (setup_player rt comm p)) (\<lambda>result. case result of
          Some e \<Rightarrow> abind (disconnect_player rt g) (\<lambda>_. athrow e)
        | None \<Rightarrow> aret ()) (co1, rt_spawn rt t w) = Some (r, (co', w'))"
  shows "Q w w'"
proof -
  have "within Q (abind (atry (setup_player rt comm p)) (\<lambda>result. case result of
          Some e \<Rightarrow> abind (disconnect_player rt g) (\<lambda>_. athrow e)
        | None \<Rightarrow> aret ()))"
    by (intro within_abind[OF send_closedD(2)[OF Q]] within_atry within_setup[OF Q])
      (simp add: within_rules[OF Q] within_disconnect[OF Q] split: option.splits)
  from withinD[OF this run] have "Q (rt_spawn rt t w) w'" by simp
  with spawn[of w t] send_closedD(2)[OF Q] show ?thesis by (meson transpD)
qed

context tokio_impl
begin

text \<open>Only packets are sent.\<close>

definition sends_packets :: "'x shared \<Rightarrow> 'x shared \<Rightarrow> bool" where
  "sends_packets w w' \<longleftrightarrow> (\<exists>ms. log w' = log w @ map (\<lambda>(ch, p). (ch, PacketCmd p)) ms)"

text \<open>And no task is started.\<close>

definition only_sends :: "'x shared \<Rightarrow> 'x shared \<Rightarrow> bool" where
  "only_sends w w' \<longleftrightarrow> sends_packets w w' \<and> tasks w' = tasks w"

lemma sends_packets_order: "reflp sends_packets" "transp sends_packets"
proof -
  show "reflp sends_packets" by (auto simp: reflp_def sends_packets_def intro: exI[of _ "[]"])
  show "transp sends_packets"
    unfolding transp_def sends_packets_def by (metis append_assoc map_append)
qed

lemma send_only_sends: "send rt ch (PacketCmd p) w = Some (r, w') \<Longrightarrow> only_sends w w'"
  by (cases r) (auto simp: only_sends_def sends_packets_def send_no_panic dest!: send_ok send_err
        intro: exI[of _ "[]"] exI[of _ "[(ch, p)]"])

lemma closed_only_sends: "send_closed rt only_sends"
  using sends_packets_order send_only_sends
  by (auto simp: send_closed_def reflp_def transp_def only_sends_def)

lemma closed_sends_packets: "send_closed rt sends_packets"
  using sends_packets_order send_only_sends by (auto simp: send_closed_def only_sends_def)

lemma sends_packets_memory: "sends_packets w (update_cell a f w)" "sends_packets w (w\<lparr>shine_bag := b\<rparr>)"
  "sends_packets w (rt_spawn rt t w)"
  by (auto simp: sends_packets_def log_memory spawn_law intro: exI[of _ "[]"])

end

definition same_bag :: "'x shared \<Rightarrow> 'x shared \<Rightarrow> bool" where
  "same_bag w w' \<longleftrightarrow> shine_bag w' = shine_bag w"

context tokio_quiet
begin

lemma closed_same_bag: "send_closed rt same_bag"
  using send_memory by (auto simp: send_closed_def same_bag_def reflp_def transp_def same_memory_def)

lemma same_bag_memory: "same_bag w (update_cell a f w)" "same_bag w (rt_spawn rt t w)"
  by (simp_all add: same_bag_def spawn_quiet)

end

section \<open>Whole handlers as rows of messages\<close>

text \<open>What a new player is told about one client.\<close>

definition to_all_of :: "chan \<Rightarrow> packet list \<Rightarrow> (chan \<times> ('b, 's, 'u) command) list" where
  "to_all_of ch ps = map (\<lambda>p. (ch, PacketCmd p)) ps"

definition intro_row :: "'x shared \<Rightarrow> chan \<Rightarrow> u16 \<Rightarrow> guid \<times> nat \<Rightarrow> (chan \<times> ('b, 's, 'u) command) list" where
  "intro_row w comm m = (\<lambda>(g, a). to_all_of comm (
     [\<lparr>pkt_id = g, data_size = 38, pkt_data = Connect FirstConnection m (cd_name (cells w a))\<rparr>,
      \<lparr>pkt_id = g, data_size = 64, pkt_data = Costume (cd_costume (cells w a))\<rparr>] @
     (case last_game_packet (cells w a) of Some p \<Rightarrow> [p] | None \<Rightarrow> [])))"

lemma introduce_row:
  "introduce rt comm m x (co, w) = on_world (\<lambda>w. send_each rt (intro_row w comm m x) w) (co, w)"
proof -
  obtain g a where x: "x = (g, a)" by fastforce
  have "on_world (\<lambda>w. send_each rt (intro_row w comm m x) w) (co, w) =
      on_world (send_each rt (intro_row w comm m x)) (co, w)"
    by (simp add: on_world_def zoom_def)
  then show ?thesis
    unfolding x
    by (simp add: introduce_def get_size_small intro_row_def to_all_of_def abind_def[of "agets _"] on_world_abind
        split: option.splits)
qed

definition sync_row :: "coordinator \<Rightarrow> 'x shared \<Rightarrow> (chan \<times> ('b, 's, 'u) command) list" where
  "sync_row co w = concat (map (\<lambda>(g, a). shine_row w (the (hm_get (to_clients co) g)) guid_default a)
     (hm_iter (clients co)))"

definition setup_row :: "coordinator \<Rightarrow> 'x shared \<Rightarrow> chan \<Rightarrow> packet \<Rightarrow> (chan \<times> ('b, 's, 'u) command) list" where
  "setup_row co w comm p =
     concat (map (intro_row w comm (max_players (server (sh_settings w)))) (hm_iter (clients co))) @
     to_all (PacketCmd (resize p)) (hm_values (to_clients co))"

lemma on_world_cong: "m w = n w \<Longrightarrow> on_world m (co, w) = on_world n (co, w)"
  by (simp add: on_world_def zoom_def)

lemma on_world_abind_at:
  assumes "m' (co, w) = on_world m (co, w)" and "\<And>a w'. f a (co, w') = on_world (n a) (co, w')"
  shows "abind m' f (co, w) = on_world (abind m n) (co, w)"
proof (cases "m w")
  case None
  with assms(1) show ?thesis by (simp add: on_world_def zoom_def)
next
  case (Some out)
  with assms show ?thesis
    by (cases out; cases "fst out") (simp_all add: on_world_def zoom_def abind_def)
qed

context tokio_quiet
begin

text \<open>Where nobody else changes the memory, rows computed from it may be computed at the start.\<close>

lemma rows_at_start:
  assumes "\<And>w w' x. same_memory w w' \<Longrightarrow> row w' x = row w x"
  shows "for_each (\<lambda>x w. send_each rt (row w x) w) xs w = send_each rt (concat (map (row w) xs)) w"
proof (induction xs arbitrary: w)
  case (Cons x xs)
  show ?case
  proof (cases "send_each rt (row w x) w")
    case None
    then show ?thesis by (simp add: send_each_append abind_def)
  next
    case (Some out)
    obtain r w1 where out: "out = (r, w1)" by fastforce
    with Some send_each_memory have "same_memory w w1" by blast
    then have "row w1 = row w" using assms by blast
    with Cons.IH[of w1] Some out show ?thesis
      by (cases r) (simp_all add: send_each_append abind_def)
  qed
qed simp

lemma setup_player_row: "setup_player rt comm p (co, w) = on_world (send_each rt (setup_row co w comm p)) (co, w)"
proof -
  let ?m = "max_players (server (sh_settings w))"
  have row: "same_memory w w' \<Longrightarrow> intro_row w' comm m x = intro_row w comm m x" for w w' m x
    by (cases x) (simp add: intro_row_def same_memory_def)
  have intro: "introduce rt comm ?m x = on_world (\<lambda>w. send_each rt (intro_row w comm ?m x) w)" for x
    using introduce_row[of rt comm ?m x] by (auto simp: fun_eq_iff)
  have "for_each (introduce rt comm ?m) xs (co, w) =
      on_world (send_each rt (concat (map (intro_row w comm ?m) xs))) (co, w)" for xs
    unfolding intro on_world_for_each by (rule on_world_cong) (rule rows_at_start[OF row])
  then have "abind (\<lambda>s. for_each (introduce rt comm ?m) (hm_iter (clients (fst s))) s) (\<lambda>_. broadcast rt p) (co, w) =
      on_world (abind (send_each rt (concat (map (intro_row w comm ?m) (hm_iter (clients co)))))
        (\<lambda>_. send_each rt (to_all (PacketCmd (resize p)) (hm_values (to_clients co))))) (co, w)"
    by (intro on_world_abind_at) (simp_all add: broadcast_row)
  then show ?thesis
    by (simp add: setup_player_def setup_row_def abind_def[of "agets _"] send_each_append)
qed

lemma sync_all_row:
  assumes "coord_ok co"
  shows "sync_all_shines rt (co, w) = on_world (send_each rt (sync_row co w)) (co, w)"
proof -
  let ?row = "\<lambda>w (g, a). shine_row w (the (hm_get (to_clients co) g)) guid_default a"
  let ?body = "\<lambda>(g, a) s. case hm_get (to_clients (fst s)) g of
         None \<Rightarrow> apanic s
       | Some ch \<Rightarrow> on_world (client_sync_shines rt ch guid_default a) s"
  have row: "same_memory w w' \<Longrightarrow> ?row w' x = ?row w x" for w w' x
    by (cases x) (simp add: shine_row_def lacking_def same_memory_def)
  have "for_each ?body xs (co, w) = on_world (for_each (\<lambda>x w. send_each rt (?row w x) w) xs) (co, w)"
    if "set xs \<subseteq> set (hm_iter (clients co))" for xs w
    using that
  proof (induction xs arbitrary: w)
    case (Cons x xs)
    obtain g a where x: "x = (g, a)" by fastforce
    from x Cons.prems have "(g, a) \<in> set (hm_iter (clients co))" by simp
    from coord_ok_channel[OF assms this] obtain ch where "hm_get (to_clients co) g = Some ch" ..
    then have "?body x (co, w) = on_world (\<lambda>w. send_each rt (?row w x) w) (co, w)"
      by (simp add: x client_sync_row on_world_def zoom_def)
    moreover have "for_each ?body xs (co, w') = on_world (for_each (\<lambda>x w. send_each rt (?row w x) w) xs) (co, w')"
      for w'
      using Cons by simp
    ultimately have "abind (?body x) (\<lambda>_. for_each ?body xs) (co, w) =
        on_world (abind (\<lambda>w. send_each rt (?row w x) w) (\<lambda>_. for_each (\<lambda>x w. send_each rt (?row w x) w) xs)) (co, w)"
      by (rule on_world_abind_at)
    then show ?case by simp
  qed (simp add: on_world_def zoom_def)
  then have "sync_all_shines rt (co, w) =
      on_world (for_each (\<lambda>x w. send_each rt (?row w x) w) (hm_iter (clients co))) (co, w)"
    by (simp add: sync_all_shines_def)
  also have "\<dots> = on_world (send_each rt (sync_row co w)) (co, w)"
    unfolding sync_row_def by (rule on_world_cong) (rule rows_at_start[OF row])
  finally show ?thesis .
qed

end

end
