(* ===== verification/Coordinator_Props.thy ===== *)
theory Coordinator_Props
  imports Coordinator_Facts
begin

text \<open>
  The properties of the coordinator, each with an instance: the invariant of its maps, admission,
  and what each command sends to whom.
\<close>

section \<open>A coordinator with two clients\<close>

definition g1 :: guid where "g1 = guid_from (replicate 16 1)"
definition g2 :: guid where "g2 = guid_from (replicate 16 2)"

lemma g_distinct [simp]: "g1 \<noteq> g2" "g2 \<noteq> g1"
  by (simp_all add: g1_def g2_def guid_from_def)

definition two_clients :: coordinator where
  "two_clients = \<lparr>clients = \<lparr>hm_rank = \<lambda>_ _. 0, hm_entries = [(g1, 10), (g2, 11)]\<rparr>,
     to_clients = \<lparr>hm_rank = \<lambda>_ _. 0, hm_entries = [(g1, 20), (g2, 21)]\<rparr>, from_clients = 0\<rparr>"

lemma two_clients_ok: "coord_ok two_clients"
  by (simp add: two_clients_def coord_ok_def hm_ok_def hm_get_def)

lemma two_clients_values: "hm_values (to_clients two_clients) = [20, 21]"
  by (simp add: hm_values_def hm_iter_def two_clients_def)

lemma script_shutdown_ok: "tcp_shutdown script_tcp s \<noteq> Some (Panic, s')"
  by simp

abbreviation plog :: "test_post shared \<Rightarrow> (chan \<times> (u8 list, script, mailbox) command) list" where
  "plog w \<equiv> po_log (runtime w)"

section \<open>The invariant\<close>

text \<open>
  C7. The two maps always know the same clients, whatever command the coordinator handles and
  however it ends; so the \<open>unwrap\<close> on a client's channel never fails, and no command that the other
  tasks can send makes the coordinator panic.
\<close>
theorem coordinator_invariant:
  assumes "tokio_impl rt log tasks" and "\<And>s s'. tcp_shutdown T s \<noteq> Some (Panic, s')"
    and "from_tasks cmd" and "coord_ok co"
    and "coord_handle_command T rt cmd (co, w) = Some (r, (co', w'))"
  shows "coord_ok co' \<and> r \<noteq> Panic"
  using tokio_impl.command_safe[OF assms(1-3) tokio_impl.coord_inv_ok[OF assms(1)] assms(4) _ assms(5)]
    register_ok(1)[OF assms(4)]
  by (metis prod.collapse)

text \<open>The first of two clients leaves.\<close>

definition left_world :: "test_post shared" where
  "left_world = sent_all (gone_row g1 two_clients) sample_world"

lemma sample_row:
  "length ms \<le> 100 \<Longrightarrow> send_each post_tokio ms sample_world = Some (Ok (), sent_all ms sample_world)"
  by (rule post_send_each) (simp_all add: sample_world_def queued_def)

lemma without_g1_values: "hm_values (to_clients (without g1 two_clients)) = [21]"
  by (simp add: without_def two_clients_def hm_get_def hm_remove_def hm_values_def hm_iter_def)

lemma gone_row_g1: "gone_row g1 two_clients = to_all (PacketCmd (gone_packet g1)) [21, 20]"
  using without_g1_values by (simp add: gone_row_def two_clients_def hm_get_def)

lemma leave_run:
  "coord_handle_command script_tcp post_tokio (ServerCmd (DisconnectPlayer g1)) (two_clients, sample_world) =
     Some (Ok True, (without g1 two_clients, left_world))"
proof -
  have "send_each post_tokio (gone_row g1 two_clients) sample_world = Some (Ok (), left_world)"
    unfolding left_world_def by (rule sample_row) (simp add: gone_row_g1 to_all_def)
  then show ?thesis
    by (simp add: coord_handle_command_def disconnect_row on_world_def zoom_def abind_def)
qed

theorem coordinator_invariant_witness:
  "coord_ok (without g1 two_clients) \<and> Ok True \<noteq> (Panic :: (bool, smo_error) res)"
  by (rule coordinator_invariant[OF post_runtime.tokio_impl_axioms script_shutdown_ok _ two_clients_ok leave_run])
     simp

text \<open>
  C27. The number of clients is bounded by the configured limit plus one, and the limit is the one in
  force when a player asks to be let in.
\<close>
theorem player_limit:
  fixes cmd :: "('b, 's, 'u) command"
  assumes "tokio_impl rt log tasks" and "\<And>s s'. tcp_shutdown T s \<noteq> Some (Panic, s')"
    and "from_tasks cmd" and "coord_ok co"
    and "coord_handle_command T rt cmd (co, w) = Some (r, (co', w'))"
  shows "hm_len (clients co') \<le> max (hm_len (clients co)) (unat (max_players (server (sh_settings w))) + 1)"
proof -
  let ?n = "max (hm_len (clients co)) (unat (max_players (server (sh_settings w))) + 1)"
  let ?I = "\<lambda>co. coord_ok co \<and> hm_len (clients co) \<le> ?n"
  have "?I (snd (register c_type comm cli co))"
    if "can_connect (sh_settings w) (hm_len (clients co)) cli = None" for c_type comm and cli :: "('b, 's, 'u) client"
    using register_ok(1,6)[OF assms(4), of c_type comm cli] that
    by (cases "register c_type comm cli co") (auto simp: can_connect_def split: if_splits)
  with tokio_impl.command_safe[OF assms(1-3) tokio_impl.coord_inv_limit[OF assms(1), of ?n], of co w r co' w']
    assms(4,5)
  show ?thesis by auto
qed

theorem player_limit_witness:
  "hm_len (clients (without g1 two_clients)) \<le>
     max (hm_len (clients two_clients)) (unat (max_players (server (sh_settings sample_world))) + 1)"
  by (rule player_limit[OF post_runtime.tokio_impl_axioms script_shutdown_ok _ two_clients_ok leave_run])
     simp

section \<open>Admission\<close>

text \<open>
  Who is let in: everyone who is neither on the list of banned ids nor on that of banned
  addresses, as long as no more players than the limit are connected already, so that one more
  than the limit gets in. The switch of the ban list is not asked.
\<close>
theorem admission_rule:
  "can_connect st n cli = None \<longleftrightarrow>
     n \<le> unat (max_players (server st))
     \<and> cli_guid cli \<notin> hs_set (ban_players (ban_list st))
     \<and> addr_ip (conn_addr (conn cli)) \<notin> hs_set (ban_ips (ban_list st))"
  by (auto simp: can_connect_def hs_contains_set)

text \<open>How an admission ends: refused, let in, or let in and forgotten again.\<close>

lemma admission_outcome:
  assumes "tokio_impl rt log tasks" and "pkt_data p = Connect c_type m name"
    and "add_client T rt (NewPlayer cli p comm) (co, w) = Some (r, (co', w'))"
  shows "case can_connect (sh_settings w) (hm_len (clients co)) cli of
      Some e \<Rightarrow> r \<noteq> Ok () \<and> co' = co
    | None \<Rightarrow> r \<noteq> Panic
        \<and> (r = Ok () \<longrightarrow> co' = snd (register c_type comm cli co)
             \<and> tasks w' = tasks w @ [ClientTask (fst (register c_type comm cli co))])
        \<and> (\<forall>e. r = Err e \<longrightarrow> co' = without (cli_guid cli) (snd (register c_type comm cli co)))"
proof (cases "can_connect (sh_settings w) (hm_len (clients co)) cli")
  case (Some e)
  have "r \<noteq> Ok () \<and> co' = co"
    using assms(3) Some
    by (auto simp: tokio_impl.add_client_cases[OF assms(1,2)] on_world_run elim!: abind_cases)
  with Some show ?thesis by simp
next
  case None': None
  obtain cli1 co1 where reg: "register c_type comm cli co = (cli1, co1)" by fastforce
  have run: "abind (atry (setup_player rt comm p)) (\<lambda>result. case result of
        Some e \<Rightarrow> abind (disconnect_player rt (cli_guid cli)) (\<lambda>_. athrow e)
      | None \<Rightarrow> aret ()) (co1, rt_spawn rt (ClientTask cli1) w) = Some (r, (co', w'))"
    using assms(3) None' reg
    by (simp add: tokio_impl.add_client_cases[OF assms(1,2)] tokio_impl.accepted_run_def[OF assms(1)])
  have intro: "co2 = co1 \<and> tasks w2 = tasks w @ [ClientTask cli1]"
    if "setup_player rt comm p (co1, rt_spawn rt (ClientTask cli1) w) = Some (q, (co2, w2))" for q co2 w2
    using that safeD[OF tokio_impl.safe_setup[OF assms(1)], of "\<lambda>c. c = co1"]
      withinD[OF within_setup[OF tokio_impl.closed_only_sends[OF assms(1)]] that]
    by (auto simp: tokio_impl.only_sends_def[OF assms(1)] tokio_impl.spawn_law[OF assms(1)])
  have calm: "setup_player rt comm p s \<noteq> Some (Panic, (co2, w2))" for s co2 w2
    using safeD[OF tokio_impl.safe_setup[OF assms(1)], of "\<lambda>_. True"] by (cases s) blast
  from run show ?thesis
  proof (cases rule: abind_cases)
    case (ok result s2)
    obtain co2 w2 where s2: "s2 = (co2, w2)" by fastforce
    from ok(1) s2 obtain q where q: "setup_player rt comm p (co1, rt_spawn rt (ClientTask cli1) w) = Some (q, (co2, w2))"
      by (auto simp: atry_eq)
    note st = intro[OF q]
    show ?thesis
    proof (cases result)
      case None
      with ok(2) s2 st reg None' show ?thesis by auto
    next
      case (Some e)
      with ok(2) s2 st have "abind (disconnect_player rt (cli_guid cli)) (\<lambda>_. athrow e) (co1, w2) = Some (r, (co', w'))"
        by simp
      then have "co' = without (cli_guid cli) co1" "r \<noteq> Ok ()" "r \<noteq> Panic"
        by (auto simp: disconnect_row on_world_run tokio_impl.row_no_panic[OF assms(1)] elim!: abind_cases)
      with reg None' show ?thesis by auto
    qed
  qed (auto simp: atry_eq calm)
qed

text \<open>
  C10. Admission is all or nothing. A player who is let in and introduced to the others is in both
  maps, under its guid, with its channel; a returning player works on the data it had before, and
  its task is started with that data. One whose introduction fails is in neither map. One who is
  refused changes neither.
\<close>
theorem admission_all_or_nothing:
  assumes "tokio_impl rt log tasks" and "coord_ok co" and "pkt_data p = Connect c_type m name"
    and "add_client T rt (NewPlayer cli p comm) (co, w) = Some (r, (co', w'))"
  shows "(r = Ok () \<longrightarrow> can_connect (sh_settings w) (hm_len (clients co)) cli = None
        \<and> hm_get (to_clients co') = (hm_get (to_clients co))(cli_guid cli \<mapsto> comm)
        \<and> (\<exists>a. hm_get (clients co') = (hm_get (clients co))(cli_guid cli \<mapsto> a)
            \<and> (a = cli_data cli \<or> c_type = Reconnecting \<and> hm_get (clients co) (cli_guid cli) = Some a)
            \<and> tasks w' = tasks w @ [ClientTask (cli\<lparr>cli_data := a\<rparr>)]))
     \<and> (\<forall>e. r = Err e \<longrightarrow>
          (case can_connect (sh_settings w) (hm_len (clients co)) cli of
             Some e' \<Rightarrow> co' = co
           | None \<Rightarrow> hm_get (to_clients co') = (hm_get (to_clients co))(cli_guid cli := None)
               \<and> hm_get (clients co') = (hm_get (clients co))(cli_guid cli := None)))"
proof -
  obtain cli1 co1 where reg: "register c_type comm cli co = (cli1, co1)" by fastforce
  note R = register_ok[OF assms(2) reg]
  have gone: "hm_get (clients (without (cli_guid cli) co1)) = (hm_get (clients co))(cli_guid cli := None)"
    "hm_get (to_clients (without (cli_guid cli) co1)) = (hm_get (to_clients co))(cli_guid cli := None)"
    by (simp_all add: without_ok[OF R(1)] R(3,4))
  have cell: "cli_data cli1 = cli_data cli \<or>
      c_type = Reconnecting \<and> hm_get (clients co) (cli_guid cli) = Some (cli_data cli1)"
    by (auto simp: R(5) split: option.splits)
  from admission_outcome[OF assms(1,3,4)] show ?thesis
    using reg gone R(3,4,7) cell
    by (cases "can_connect (sh_settings w) (hm_len (clients co)) cli") (auto intro!: exI[of _ "cli_data cli1"])
qed

text \<open>A third player joins.\<close>

definition g3 :: guid where "g3 = guid_from (replicate 16 3)"

definition join_packet :: packet where
  "join_packet = \<lparr>pkt_id = g3, data_size = 38, pkt_data = Connect FirstConnection 8 (str_lit ''ann'')\<rparr>"

definition third :: "(u8 list, script, mailbox) client" where
  "third = fresh\<lparr>cli_guid := g3, cli_data := 12, from_server := 22\<rparr>"

definition three_clients :: coordinator where
  "three_clients = snd (register FirstConnection 22 third two_clients)"

definition spawned :: "test_post shared" where
  "spawned = rt_spawn post_tokio (ClientTask third) sample_world"

definition joined_world :: "test_post shared" where
  "joined_world = sent_all (setup_row three_clients spawned 22 join_packet) spawned"

lemma length_sort_iter [simp]: "length (hm_iter m) = length (hm_entries m)"
  by (simp add: hm_iter_def)

type_synonym test_row = "(chan \<times> (u8 list, script, mailbox) command) list"

lemma concat_length: "(\<And>x. length (f x) \<le> n) \<Longrightarrow> length (concat (map f xs)) \<le> n * length xs"
  by (induction xs) (auto intro: add_mono)

lemma three_entries: "hm_len (clients three_clients) = 3" "hm_len (to_clients three_clients) = 3"
  by (simp_all add: three_clients_def register_def two_clients_def third_def hm_insert_def hm_len_def Let_def
      g1_def g2_def g3_def guid_from_def)

lemma join_row_length: "length (setup_row three_clients spawned 22 join_packet :: test_row) \<le> 100"
proof -
  have row: "length (intro_row spawned 22 m x :: test_row) \<le> 3" for m x
    by (cases x) (simp add: intro_row_def to_all_of_def split: option.splits)
  from concat_length[of "intro_row spawned 22 m :: _ \<Rightarrow> test_row" 3 "hm_iter (clients three_clients)" for m, OF this]
  have "length (concat (map (intro_row spawned 22 (max_players (server (sh_settings spawned))))
      (hm_iter (clients three_clients))) :: test_row) \<le> 3 * 3"
    using three_entries by (simp add: hm.len_iter)
  then show ?thesis
    using three_entries by (simp add: setup_row_def to_all_def)
qed

lemma join_run:
  "add_client script_tcp post_tokio (NewPlayer third join_packet 22) (two_clients, sample_world) =
     Some (Ok (), (three_clients, joined_world))"
proof -
  have "can_connect (sh_settings sample_world) (hm_len (clients two_clients)) third = None"
    by (simp add: can_connect_def sample_world_def settings_default_def server_settings_default_def
        ban_list_settings_default_def hs_contains_def two_clients_def hm_len_def)
  moreover have "pkt_data join_packet = Connect FirstConnection 8 (str_lit ''ann'')"
    by (simp add: join_packet_def)
  moreover have "register FirstConnection 22 third two_clients = (third, three_clients)"
    by (simp add: three_clients_def register_def Let_def)
  moreover have "send_each post_tokio (setup_row three_clients spawned 22 join_packet) spawned = Some (Ok (), joined_world)"
    unfolding joined_world_def using join_row_length
    by (intro post_send_each) (simp_all add: spawned_def sample_world_def on_runtime_def queued_def)
  ultimately show ?thesis
    by (simp add: post_runtime.add_client_cases post_runtime.accepted_run_def spawned_def[symmetric]
        post_runtime.setup_player_row on_world_def zoom_def abind_def del: post_tokio_ops)
qed

theorem admission_all_or_nothing_witness:
  "can_connect (sh_settings sample_world) (hm_len (clients two_clients)) third = None
   \<and> hm_get (to_clients three_clients) = (hm_get (to_clients two_clients))(cli_guid third \<mapsto> 22)
   \<and> (\<exists>a. hm_get (clients three_clients) = (hm_get (clients two_clients))(cli_guid third \<mapsto> a)
       \<and> (a = cli_data third \<or> FirstConnection = Reconnecting \<and> hm_get (clients two_clients) (cli_guid third) = Some a)
       \<and> po_tasks (runtime joined_world) = po_tasks (runtime sample_world) @ [ClientTask (third\<lparr>cli_data := a\<rparr>)])"
proof -
  have "pkt_data join_packet = Connect FirstConnection 8 (str_lit ''ann'')" by (simp add: join_packet_def)
  from admission_all_or_nothing[OF post_runtime.tokio_impl_axioms two_clients_ok this join_run, THEN conjunct1]
  show ?thesis by (rule mp) (rule refl)
qed

section \<open>Who is told what\<close>

text \<open>
  C23. A broadcast gives every connected client one copy of the packet, resized to its true length,
  in the order of the map; it never changes the maps. The first client whose task is gone ends it:
  then exactly the clients before that one have their copy, and the ones behind have nothing.
\<close>
theorem broadcast_reaches_all:
  assumes "tokio_impl rt log tasks" and "broadcast rt p (co, w) = Some (r, (co', w'))"
  shows "co' = co \<and> r \<noteq> Panic
     \<and> (r = Ok () \<longrightarrow> log w' = log w @ map (\<lambda>ch. (ch, PacketCmd (resize p))) (hm_values (to_clients co)))
     \<and> (\<forall>e. r = Err e \<longrightarrow> e = SendChannel \<and> (\<exists>k < hm_len (to_clients co).
          log w' = log w @ map (\<lambda>ch. (ch, PacketCmd (resize p))) (take k (hm_values (to_clients co)))))"
proof -
  from assms(2) have run: "send_each rt (to_all (PacketCmd (resize p)) (hm_values (to_clients co))) w = Some (r, w')"
    and "co' = co"
    by (auto simp: broadcast_row on_world_run)
  with tokio_impl.send_each_log[OF assms(1) run] show ?thesis
    by (auto simp: to_all_def take_map)
qed

lemma broadcast_run:
  "broadcast post_tokio sample_game (two_clients, sample_world) =
     Some (Ok (), (two_clients, sent_all (to_all (PacketCmd (resize sample_game)) [20, 21]) sample_world))"
proof -
  have "send_each post_tokio (to_all (PacketCmd (resize sample_game)) [20, 21]) sample_world =
      Some (Ok (), sent_all (to_all (PacketCmd (resize sample_game)) [20, 21]) sample_world)"
    by (rule sample_row) (simp add: to_all_def)
  then show ?thesis by (simp add: broadcast_row two_clients_values on_world_def zoom_def)
qed

theorem broadcast_reaches_all_witness:
  "plog (sent_all (to_all (PacketCmd (resize sample_game)) [20, 21]) sample_world) =
     plog sample_world @ map (\<lambda>ch. (ch, PacketCmd (resize sample_game))) (hm_values (to_clients two_clients))"
  using broadcast_reaches_all[OF post_runtime.tokio_impl_axioms broadcast_run, THEN conjunct2, THEN conjunct2,
    THEN conjunct1]
  by (rule mp) (rule refl)

text \<open>
  C24. A disconnect always forgets the player in both maps, however it ends. When it succeeds, each
  client that is left has been told, then the one who went, and nobody else; a player who was not
  known is told to nobody.
\<close>
theorem disconnect_forgets_and_tells:
  assumes "tokio_impl rt log tasks" and "coord_ok co"
    and "disconnect_player rt g (co, w) = Some (r, (co', w'))"
  shows "hm_get (clients co') = (hm_get (clients co))(g := None)
     \<and> hm_get (to_clients co') = (hm_get (to_clients co))(g := None)
     \<and> (r = Ok () \<longrightarrow> log w' = log w @ (case hm_get (to_clients co) g of
            None \<Rightarrow> []
          | Some ch \<Rightarrow> map (\<lambda>c. (c, PacketCmd \<lparr>pkt_id = g, data_size = 0, pkt_data = Disconnect\<rparr>))
              (hm_values (to_clients co') @ [ch])))"
proof -
  from assms(3) have run: "send_each rt (gone_row g co) w = Some (r, w')" and co': "co' = without g co"
    by (auto simp: disconnect_row on_world_run)
  from tokio_impl.send_each_log[OF assms(1) run] have "r = Ok () \<longrightarrow> log w' = log w @ gone_row g co"
    by auto
  with without_ok[OF assms(2)] co' show ?thesis
    by (auto simp: gone_row_def to_all_def gone_packet_def split: option.splits)
qed

lemma leave_step: "disconnect_player post_tokio g1 (two_clients, sample_world) = Some (Ok (), (without g1 two_clients, left_world))"
proof -
  have "send_each post_tokio (gone_row g1 two_clients) sample_world = Some (Ok (), left_world)"
    unfolding left_world_def by (rule sample_row) (simp add: gone_row_g1 to_all_def)
  then show ?thesis by (simp add: disconnect_row on_world_def zoom_def)
qed

theorem disconnect_forgets_and_tells_witness:
  "hm_get (clients (without g1 two_clients)) = (hm_get (clients two_clients))(g1 := None)
     \<and> hm_get (to_clients (without g1 two_clients)) = (hm_get (to_clients two_clients))(g1 := None)
     \<and> plog left_world = plog sample_world @
         map (\<lambda>c. (c, PacketCmd \<lparr>pkt_id = g1, data_size = 0, pkt_data = Disconnect\<rparr>))
           (hm_values (to_clients (without g1 two_clients)) @ [20])"
proof -
  have "hm_get (to_clients two_clients) g1 = Some 20" by (simp add: two_clients_def hm_get_def)
  with disconnect_forgets_and_tells[OF post_runtime.tokio_impl_axioms two_clients_ok leave_step]
  show ?thesis by (simp only: option.case simp_thms)
qed

lemma sync_row_mem:
  fixes cmd :: "('b, 's, 'u) command"
  assumes "coord_ok co" and "hm_ok (shine_bag w)"
  shows "(ch, cmd) \<in> set (sync_row co w) \<longleftrightarrow> (\<exists>g a i. hm_get (clients co) g = Some a
          \<and> hm_get (to_clients co) g = Some ch \<and> \<not> speedrun_start (cells w a)
          \<and> i \<in> hs_set (shine_bag w) - hs_set (shine_sync (cells w a))
          \<and> cmd = PacketCmd \<lparr>pkt_id = guid_default, data_size = 5, pkt_data = Shine i False\<rparr>)"
proof -
  have mem: "(g, a) \<in> set (hm_iter (clients co)) \<longleftrightarrow> hm_get (clients co) g = Some a" for g a
    using assms(1) hm.iter_mem[of "clients co" g a] by (simp add: coord_ok_def)
  have row: "(ch, cmd) \<in> set (shine_row w ch' guid_default a) \<longleftrightarrow>
      ch = ch' \<and> \<not> speedrun_start (cells w a) \<and> (\<exists>i \<in> hs_set (shine_bag w) - hs_set (shine_sync (cells w a)).
        cmd = PacketCmd \<lparr>pkt_id = guid_default, data_size = 5, pkt_data = Shine i False\<rparr>)" for ch' a
    using set_hs_difference[OF assms(2)] by (auto simp: shine_row_def lacking_def shine_packet_def)
  have "(ch, cmd) \<in> set (sync_row co w) \<longleftrightarrow> (\<exists>g a. hm_get (clients co) g = Some a
      \<and> (ch, cmd) \<in> set (shine_row w (the (hm_get (to_clients co) g)) guid_default a))"
    using mem unfolding sync_row_def by (auto simp del: set_hm_iter)
  moreover have "(\<exists>ch'. hm_get (to_clients co) g = Some ch')" if "hm_get (clients co) g = Some a" for g a
    using assms(1) that unfolding coord_ok_def by (metis not_None_eq)
  ultimately show ?thesis
    unfolding row by (metis option.sel)
qed

text \<open>
  C15. Syncing sends each client exactly the shines of the bag that it has not collected, each once,
  under the server's id, and none to a client in its speedrun. (Stated for a runtime in which the
  memory is not changed by others while the coordinator waits.)
\<close>
theorem sync_sends_missing:
  assumes "tokio_quiet rt log tasks" and "coord_ok co" and "hm_ok (shine_bag w)"
    and "sync_all_shines rt (co, w) = Some (Ok (), (co', w'))"
  shows "co' = co \<and> (\<exists>ms. log w' = log w @ ms
     \<and> (\<forall>ch cmd. (ch, cmd) \<in> set ms \<longleftrightarrow> (\<exists>g a i. hm_get (clients co) g = Some a
          \<and> hm_get (to_clients co) g = Some ch \<and> \<not> speedrun_start (cells w a)
          \<and> i \<in> hs_set (shine_bag w) - hs_set (shine_sync (cells w a))
          \<and> cmd = PacketCmd \<lparr>pkt_id = guid_default, data_size = 5, pkt_data = Shine i False\<rparr>)))
     \<and> (\<forall>a. distinct (lacking w a))"
proof -
  from assms(4) have run: "send_each rt (sync_row co w) w = Some (Ok (), w')" and co': "co' = co"
    by (auto simp: tokio_quiet.sync_all_row[OF assms(1,2)] on_world_run)
  from tokio_impl.send_each_log[OF tokio_quiet.axioms(1)[OF assms(1)] run]
  have "log w' = log w @ sync_row co w" by simp
  then show ?thesis
    using co' distinct_hs_difference[OF assms(3)]
    by (intro conjI exI[of _ "sync_row co w"] allI sync_row_mem[OF assms(2,3)]) (simp_all add: lacking_def)
qed

definition moon_world :: "test_post shared" where
  "moon_world = sample_world\<lparr>shine_bag := hs_insert 5 (shine_bag sample_world)\<rparr>"

lemma moon_run:
  "sync_all_shines post_tokio (two_clients, moon_world) =
     Some (Ok (), (two_clients, sent_all (sync_row two_clients moon_world) moon_world))"
proof -
  have "length (shine_row moon_world ch g a :: test_row) \<le> 1" for ch g a
    by (simp add: shine_row_def lacking_def moon_world_def sample_world_def hs_difference_def hm_keys_def
        hs_insert_def hm_insert_def hm_new_def hm_iter_def)
  then have "length (sync_row two_clients moon_world :: test_row) \<le> 1 * length (hm_iter (clients two_clients))"
    unfolding sync_row_def by (intro concat_length) (simp add: case_prod_unfold)
  then have "length (sync_row two_clients moon_world :: test_row) \<le> 2"
    by (simp add: two_clients_def)
  then have "send_each post_tokio (sync_row two_clients moon_world) moon_world =
      Some (Ok (), sent_all (sync_row two_clients moon_world) moon_world)"
    by (intro post_send_each) (simp_all add: moon_world_def sample_world_def queued_def)
  then show ?thesis
    by (simp add: post_runtime.sync_all_row[OF two_clients_ok] on_world_def zoom_def)
qed

theorem sync_sends_missing_witness:
  "two_clients = two_clients \<and> (\<exists>ms. plog (sent_all (sync_row two_clients moon_world) moon_world) = plog moon_world @ ms
     \<and> (\<forall>ch cmd. (ch, cmd) \<in> set ms \<longleftrightarrow> (\<exists>g a i. hm_get (clients two_clients) g = Some a
          \<and> hm_get (to_clients two_clients) g = Some ch \<and> \<not> speedrun_start (cells moon_world a)
          \<and> i \<in> hs_set (shine_bag moon_world) - hs_set (shine_sync (cells moon_world a))
          \<and> cmd = PacketCmd \<lparr>pkt_id = guid_default, data_size = 5, pkt_data = Shine i False\<rparr>)))
     \<and> (\<forall>a. distinct (lacking moon_world a))"
  by (rule sync_sends_missing[OF post_runtime.tokio_quiet_axioms two_clients_ok _ moon_run])
     (simp add: moon_world_def sample_world_def)

end
