(* ===== verification/Coordinator_Rules.thy ===== *)
theory Coordinator_Rules
  imports Coordinator_Props
begin

text \<open>
  The properties of the coordinator that concern its use by the tasks around it: what a newcomer is
  told, what a refusal does, the shine bag, what the coordinator sends at all, and its shutdown.
\<close>

section \<open>Newcomers and refusals\<close>

lemma intro_row_unfold:
  "intro_row w comm m = (\<lambda>(g, a).
     [(comm, PacketCmd \<lparr>pkt_id = g, data_size = 38, pkt_data = Connect FirstConnection m (cd_name (cells w a))\<rparr>),
      (comm, PacketCmd \<lparr>pkt_id = g, data_size = 64, pkt_data = Costume (cd_costume (cells w a))\<rparr>)]
     @ (case last_game_packet (cells w a) of Some q \<Rightarrow> [(comm, PacketCmd q)] | None \<Rightarrow> []))"
  by (auto simp: fun_eq_iff intro_row_def to_all_of_def split: option.splits)

text \<open>
  C22. Someone let in is told about every connected player, itself included, in the order of the map:
  its \<open>Connect\<close> with the server's limit, its costume, and the last \<open>Game\<close> packet if there was one,
  as the player sent it; then everybody, the new one included, gets the \<open>Connect\<close> of the new one.
  (For a runtime in which the memory is not changed by others while the coordinator waits.)
\<close>
theorem newcomer_is_told_everyone:
  assumes "tokio_quiet rt log tasks" and "setup_player rt comm p (co, w) = Some (Ok (), (co', w'))"
  shows "co' = co \<and> log w' = log w
     @ concat (map (\<lambda>(g, a).
         [(comm, PacketCmd \<lparr>pkt_id = g, data_size = 38,
             pkt_data = Connect FirstConnection (max_players (server (sh_settings w))) (cd_name (cells w a))\<rparr>),
          (comm, PacketCmd \<lparr>pkt_id = g, data_size = 64, pkt_data = Costume (cd_costume (cells w a))\<rparr>)]
         @ (case last_game_packet (cells w a) of Some q \<Rightarrow> [(comm, PacketCmd q)] | None \<Rightarrow> []))
       (hm_iter (clients co)))
     @ map (\<lambda>ch. (ch, PacketCmd (resize p))) (hm_values (to_clients co))"
proof -
  from assms(2) have run: "send_each rt (setup_row co w comm p) w = Some (Ok (), w')" and "co' = co"
    by (auto simp: tokio_quiet.setup_player_row[OF assms(1)] on_world_run)
  from tokio_impl.send_each_log[OF tokio_quiet.axioms(1)[OF assms(1)] run] \<open>co' = co\<close> show ?thesis
    by (simp add: setup_row_def to_all_def intro_row_unfold)
qed

lemma join_setup_run:
  "setup_player post_tokio 22 join_packet (three_clients, spawned) = Some (Ok (), (three_clients, joined_world))"
proof -
  have "send_each post_tokio (setup_row three_clients spawned 22 join_packet) spawned = Some (Ok (), joined_world)"
    unfolding joined_world_def using join_row_length
    by (intro post_send_each) (simp_all add: spawned_def sample_world_def on_runtime_def queued_def)
  then show ?thesis by (simp add: post_runtime.setup_player_row on_world_def zoom_def)
qed

theorem newcomer_is_told_everyone_witness:
  "three_clients = three_clients \<and> plog joined_world = plog spawned
     @ concat (map (\<lambda>(g, a).
         [(22, PacketCmd \<lparr>pkt_id = g, data_size = 38,
             pkt_data = Connect FirstConnection (max_players (server (sh_settings spawned))) (cd_name (cells spawned a))\<rparr>),
          (22, PacketCmd \<lparr>pkt_id = g, data_size = 64, pkt_data = Costume (cd_costume (cells spawned a))\<rparr>)]
         @ (case last_game_packet (cells spawned a) of Some q \<Rightarrow> [(22, PacketCmd q)] | None \<Rightarrow> []))
       (hm_iter (clients three_clients)))
     @ map (\<lambda>ch. (ch, PacketCmd (resize join_packet))) (hm_values (to_clients three_clients))"
  by (rule newcomer_is_told_everyone[OF post_runtime.tokio_quiet_axioms join_setup_run])

text \<open>
  C29. Turning a player away tells the coordinator that the player of that guid has left. Handling
  that message forgets whoever is connected under the guid, so a refused connection evicts a player
  who had been let in under the same guid.
\<close>
theorem refusal_evicts_namesake:
  assumes "tokio_impl rt log tasks" and "\<And>s s'. tcp_shutdown T s \<noteq> Some (Panic, s')"
    and "coord_ok co" and "pkt_data p = Connect c_type m name"
    and "can_connect (sh_settings w) (hm_len (clients co)) cli = Some e"
    and "add_client T rt (NewPlayer cli p comm) (co, w) = Some (r, (co', w'))" and "r \<noteq> Err SendChannel"
  shows "co' = co \<and> log w' = log w @ [(to_coord cli, ServerCmd (DisconnectPlayer (cli_guid cli)))]
     \<and> (\<forall>w1 q co2 w2.
          coord_handle_command T rt (ServerCmd (DisconnectPlayer (cli_guid cli))) (co, w1) = Some (q, (co2, w2)) \<longrightarrow>
          hm_get (clients co2) (cli_guid cli) = None \<and> hm_get (to_clients co2) (cli_guid cli) = None)"
proof (intro conjI allI impI)
  from assms(6) have run: "abind (on_world (\<lambda>w. map_option (apsnd snd) (client_disconnect T rt (cli, w))))
      (\<lambda>_. athrow e) (co, w) = Some (r, (co', w'))"
    by (simp add: tokio_impl.add_client_cases[OF assms(1,4)] assms(5))
  then obtain q c where d: "client_disconnect T rt (cli, w) = Some (q, (c, w'))"
    and "co' = co" and "q = Err SendChannel \<longrightarrow> r = Err SendChannel"
    by (cases rule: abind_cases) (auto simp: on_world_run)
  then show "co' = co" and "log w' = log w @ [(to_coord cli, ServerCmd (DisconnectPlayer (cli_guid cli)))]"
    using tokio_impl.client_disconnect_log[OF assms(1) d assms(2)] assms(7) by (auto split: if_splits)
next
  fix w1 q co2 w2
  assume "coord_handle_command T rt (ServerCmd (DisconnectPlayer (cli_guid cli))) (co, w1) = Some (q, (co2, w2))"
  then have "co2 = without (cli_guid cli) co"
    by (auto simp: coord_handle_command_def disconnect_row on_world_run elim!: abind_cases)
  then show "hm_get (clients co2) (cli_guid cli) = None" "hm_get (to_clients co2) (cli_guid cli) = None"
    using without_ok[OF assms(3)] by simp_all
qed


text \<open>Two players are connected to a server for one; the first tries to come back.\<close>

definition full_world :: "test_post shared" where
  "full_world = sample_world\<lparr>sh_settings := (settings_default sample_ranks)\<lparr>server :=
     (server (settings_default sample_ranks))\<lparr>max_players := 1\<rparr>\<rparr>\<rparr>"

definition namesake :: "(u8 list, script, mailbox) client" where
  "namesake = fresh\<lparr>cli_guid := g1\<rparr>"

definition back_packet :: packet where
  "back_packet = \<lparr>pkt_id = g1, data_size = 38, pkt_data = Connect Reconnecting 8 (str_lit ''bob'')\<rparr>"

lemma full_refuses: "can_connect (sh_settings full_world) (hm_len (clients two_clients)) namesake = Some (ClientInit TooManyPlayers)"
  by (simp add: can_connect_def full_world_def two_clients_def hm_len_def)

lemma refuse_run:
  "add_client script_tcp post_tokio (NewPlayer namesake back_packet 22) (two_clients, full_world) =
     Some (Err (ClientInit TooManyPlayers), (two_clients, sent_on 0 (ServerCmd (DisconnectPlayer g1)) full_world))"
  using full_refuses
  by (simp add: add_client_def back_packet_def client_disconnect_def on_shared_def on_conn_def zoom_def send_def io_def
      abind_def on_world_def post_send_def namesake_def fresh_def sample_client_def full_world_def sample_world_def
      sent_all_def on_runtime_def queued_def)

theorem refusal_evicts_namesake_witness:
  "plog (sent_on 0 (ServerCmd (DisconnectPlayer g1)) full_world) =
     plog full_world @ [(to_coord namesake, ServerCmd (DisconnectPlayer (cli_guid namesake)))]
   \<and> hm_get (clients two_clients) g1 \<noteq> None \<and> hm_get (clients (without g1 two_clients)) g1 = None
   \<and> hm_get (to_clients (without g1 two_clients)) g1 = None"
proof -
  have con: "pkt_data back_packet = Connect Reconnecting 8 (str_lit ''bob'')" by (simp add: back_packet_def)
  have guid: "cli_guid namesake = g1" by (simp add: namesake_def)
  have "(Err (ClientInit TooManyPlayers) :: (unit, smo_error) res) \<noteq> Err SendChannel" by simp
  note all = refusal_evicts_namesake[OF post_runtime.tokio_impl_axioms script_shutdown_ok two_clients_ok con full_refuses
      refuse_run this]
  from all[THEN conjunct2, THEN conjunct2, rule_format, unfolded guid, OF leave_run] all[THEN conjunct2, THEN conjunct1]
  show ?thesis by (simp add: two_clients_def hm_get_def)
qed

section \<open>The shine bag\<close>

lemma disconnect_same_memory:
  assumes "tokio_quiet rt log tasks" and "client_disconnect T rt (cli, w) = Some (q, (c, w'))"
  shows "same_memory w w'"
proof -
  from assms(2) have "abind (on_shared (send rt (to_coord cli) (ServerCmd (DisconnectPlayer (cli_guid cli)))))
      (\<lambda>_. abind (on_conn (zoom conn_socket (\<lambda>k c. c\<lparr>conn_socket := k\<rparr>) (io (tcp_shutdown T)))) (\<lambda>_. aret ())) (cli, w) =
      Some (q, (c, w'))"
    by (simp add: client_disconnect_def)
  then show ?thesis
    by (cases rule: abind_cases)
      (auto simp: on_part elim!: abind_cases dest!: tokio_quiet.rt_send_memory[OF assms(1)])
qed

context tokio_quiet
begin

lemma same_bag_run: "within same_bag m \<Longrightarrow> m (co, w) = Some (r, (co', w')) \<Longrightarrow> shine_bag w' = shine_bag w"
  unfolding within_def same_bag_def by fastforce

lemma add_client_bag:
  assumes "pkt_data p = Connect c_type m name"
    and "add_client T rt (NewPlayer cli p comm) (co, w) = Some (r, (co', w'))"
  shows "shine_bag w' = shine_bag w"
proof (cases "can_connect (sh_settings w) (hm_len (clients co)) cli")
  case None
  obtain cli1 co1 where "register c_type comm cli co = (cli1, co1)" by fastforce
  with assms(2) None within_accepted[OF closed_same_bag, of comm p "cli_guid cli" co1 "ClientTask cli1" w r co' w']
  show ?thesis
    by (simp add: add_client_cases[OF assms(1)] accepted_run_def same_bag_memory) (simp add: same_bag_def)
next
  case (Some e)
  with assms(2) obtain q c where "client_disconnect T rt (cli, w) = Some (q, (c, w'))"
    by (auto simp: add_client_cases[OF assms(1)] on_world_run elim!: abind_cases)
  from disconnect_same_memory[OF tokio_quiet_axioms this] show ?thesis by (simp add: same_memory_def)
qed

lemma game_bag:
  assumes "coord_game rt p n stage (co, w) = Some (r, (co', w'))"
  shows "shine_bag w' = (if stage = cap_stage \<and> n = 0 \<and> hm_get (clients co) (pkt_id p) \<noteq> None
     then hm_clear (shine_bag w) else shine_bag w)"
proof (cases "stage = cap_stage \<and> n = 0")
  case True
  with assms show ?thesis
    by (cases "hm_get (clients co) (pkt_id p)")
      (auto simp: coord_game_def get_client_def abind_def on_world_def zoom_def)
next
  case False
  then have "shine_bag w' = shine_bag w"
    using same_bag_run[OF within_game[OF closed_same_bag same_bag_memory] assms] by blast
  with False show ?thesis by auto
qed

end

abbreviation is_Shine :: "packet_data \<Rightarrow> bool" where
  "is_Shine d \<equiv> (case d of Shine _ _ \<Rightarrow> True | _ \<Rightarrow> False)"

abbreviation is_Game :: "packet_data \<Rightarrow> bool" where
  "is_Game d \<equiv> (case d of Game _ _ _ \<Rightarrow> True | _ \<Rightarrow> False)"

text \<open>A packet that is neither a shine nor a \<open>Game\<close> only makes the coordinator send.\<close>

lemma within_packet:
  assumes Q: "send_closed rt Q" and "\<not> is_Shine (pkt_data p)" and "\<not> is_Game (pkt_data p)"
  shows "within Q (coord_handle_command T rt (PacketCmd p))"
proof -
  note rules = within_broadcast[OF Q] within_sync_all[OF Q] within_rules[OF Q]
  have "coord_handle_command T rt (PacketCmd p) = abind (broadcast rt p) (\<lambda>_. aret True) \<or>
      coord_handle_command T rt (PacketCmd p) =
        abind (sync_all_shines rt) (\<lambda>_. abind (broadcast rt p) (\<lambda>_. aret True))"
    using assms(2,3) by (cases "pkt_data p") (simp_all add: coord_handle_command_def)
  then show ?thesis by (elim disjE) (simp only:, intro rules)+
qed

lemma new_player_run:
  assumes "coord_handle_command T rt (ServerCmd (NewPlayer cli p comm)) (co, w) = Some (r, s')"
  obtains q where "add_client T rt (NewPlayer cli p comm) (co, w) = Some (q, s')"
  using assms by (auto simp: coord_handle_command_def elim!: abind_cases)

text \<open>The bag after a command.\<close>

lemma packet_bag:
  assumes "tokio_quiet rt log tasks" and "coord_handle_command T rt (PacketCmd p) (co, w) = Some (r, (co', w'))"
  shows "shine_bag w' = (case pkt_data p of
       Shine i _ \<Rightarrow> hs_insert i (shine_bag w)
     | Game _ n stage \<Rightarrow>
         if stage = cap_stage \<and> n = 0 \<and> hm_get (clients co) (pkt_id p) \<noteq> None
         then hm_clear (shine_bag w) else shine_bag w
     | _ \<Rightarrow> shine_bag w)"
proof -
  note bag = tokio_quiet.same_bag_run[OF assms(1)] and closed = tokio_quiet.closed_same_bag[OF assms(1)]
  note rules = within_broadcast[OF closed] within_sync_all[OF closed] within_rules[OF closed]
  show ?thesis
  proof (cases "pkt_data p")
    case (Game flat n stage)
    from assms(2) have "abind (coord_game rt p n stage) (\<lambda>_. abind (broadcast rt p) (\<lambda>_. aret True)) (co, w) =
        Some (r, (co', w'))"
      by (simp add: coord_handle_command_def Game)
    moreover have rest: "within same_bag (abind (broadcast rt p) (\<lambda>_. aret True))"
      by (intro rules)
    ultimately obtain q co1 where "\<exists>w1. coord_game rt p n stage (co, w) = Some (q, (co1, w1)) \<and> shine_bag w' = shine_bag w1"
      by (cases rule: abind_cases) (auto dest: bag[OF rest])
    with tokio_quiet.game_bag[OF assms(1)] show ?thesis by (auto simp: Game)
  next
    case (Shine i g)
    from assms(2) have "abind (sync_all_shines rt) (\<lambda>_. aret True)
        (co, w\<lparr>shine_bag := hs_insert i (shine_bag w)\<rparr>) = Some (r, (co', w'))"
      by (simp add: coord_handle_command_def Shine abind_def[of "on_world _"] on_world_def zoom_def)
    moreover have "within same_bag (abind (sync_all_shines rt) (\<lambda>_. aret True))"
      by (intro rules)
    ultimately show ?thesis using bag by (fastforce simp: Shine)
  qed (use bag[OF within_packet[OF closed], OF _ _ assms(2)] in \<open>simp\<close>)+
qed

lemma command_bag:
  fixes cmd :: "('b, 's, 'u) command"
  assumes "tokio_quiet rt log tasks" and "from_tasks cmd"
    and "coord_handle_command T rt cmd (co, w) = Some (r, (co', w'))"
  shows "shine_bag w' = (case cmd of
       PacketCmd p \<Rightarrow> (case pkt_data p of
           Shine i _ \<Rightarrow> hs_insert i (shine_bag w)
         | Game _ n stage \<Rightarrow>
             if stage = cap_stage \<and> n = 0 \<and> hm_get (clients co) (pkt_id p) \<noteq> None
             then hm_clear (shine_bag w) else shine_bag w
         | _ \<Rightarrow> shine_bag w)
     | _ \<Rightarrow> shine_bag w)"
proof (cases cmd)
  case (PacketCmd p)
  with packet_bag[OF assms(1) assms(3)[unfolded PacketCmd]] show ?thesis by simp
next
  case (CliCmd c)
  with assms(2) show ?thesis by simp
next
  case (ServerCmd sc)
  show ?thesis
  proof (cases sc)
    case (NewPlayer cli p comm)
    with ServerCmd assms(2) obtain t m n where p: "pkt_data p = Connect t m n" by auto
    from assms(3) obtain q where "add_client T rt (NewPlayer cli p comm) (co, w) = Some (q, (co', w'))"
      unfolding ServerCmd NewPlayer by (rule new_player_run)
    from tokio_quiet.add_client_bag[OF assms(1) p this] show ?thesis by (simp add: ServerCmd)
  next
    case (DisconnectPlayer g)
    from assms(3) have "abind (disconnect_player rt g) (\<lambda>_. aret True) (co, w) = Some (r, (co', w'))"
      by (simp add: coord_handle_command_def ServerCmd DisconnectPlayer)
    moreover have "within same_bag (abind (disconnect_player rt g) (\<lambda>_. aret True))"
      by (intro within_rules[OF tokio_quiet.closed_same_bag[OF assms(1)]]
          within_disconnect[OF tokio_quiet.closed_same_bag[OF assms(1)]])
    ultimately show ?thesis using tokio_quiet.same_bag_run[OF assms(1)] by (fastforce simp: ServerCmd)
  next
    case Shutdown
    with assms(3) show ?thesis by (simp add: coord_handle_command_def ServerCmd)
  qed
qed

text \<open>
  How the shine bag grows and shrinks: a \<open>Shine\<close> packet adds its shine, whatever becomes of the
  sync that follows; a \<open>Game\<close> packet for the first scenario of the cap kingdom, from a player who is
  connected, empties it; nothing else the coordinator handles changes it.
\<close>
theorem shine_bag_evolution:
  fixes cmd :: "('b, 's, 'u) command"
  assumes "tokio_quiet rt log tasks" and "from_tasks cmd"
    and "coord_handle_command T rt cmd (co, w) = Some (r, (co', w'))"
  shows "shine_bag w' = (case cmd of
       PacketCmd p \<Rightarrow> (case pkt_data p of
           Shine i _ \<Rightarrow> hs_insert i (shine_bag w)
         | Game _ n stage \<Rightarrow>
             if stage = cap_stage \<and> n = 0 \<and> hm_get (clients co) (pkt_id p) \<noteq> None
             then hm_clear (shine_bag w) else shine_bag w
         | _ \<Rightarrow> shine_bag w)
     | _ \<Rightarrow> shine_bag w)"
  by (rule command_bag[OF assms])

definition moon_packet :: packet where
  "moon_packet = \<lparr>pkt_id = g1, data_size = 5, pkt_data = Shine 5 False\<rparr>"

lemma moon_command:
  "coord_handle_command script_tcp post_tokio (PacketCmd moon_packet) (two_clients, sample_world) =
     Some (Ok True, (two_clients, sent_all (sync_row two_clients moon_world) moon_world))"
  using moon_run
  by (simp add: coord_handle_command_def moon_packet_def on_world_def zoom_def abind_def flip: moon_world_def)

theorem shine_bag_evolution_witness:
  "shine_bag (sent_all (sync_row two_clients moon_world) moon_world) =
     (case PacketCmd moon_packet :: (u8 list, script, mailbox) command of
       PacketCmd p \<Rightarrow> (case pkt_data p of
           Shine i _ \<Rightarrow> hs_insert i (shine_bag sample_world)
         | Game _ n stage \<Rightarrow>
             if stage = cap_stage \<and> n = 0 \<and> hm_get (clients two_clients) (pkt_id p) \<noteq> None
             then hm_clear (shine_bag sample_world) else shine_bag sample_world
         | _ \<Rightarrow> shine_bag sample_world)
     | _ \<Rightarrow> shine_bag sample_world)"
  by (rule shine_bag_evolution[OF post_runtime.tokio_quiet_axioms _ moon_command]) simp

section \<open>What the coordinator sends\<close>

lemma within_command_packet:
  assumes Q: "send_closed rt Q" and cell: "\<And>a f w. Q w (update_cell a f w)" and bag: "\<And>b w. Q w (w\<lparr>shine_bag := b\<rparr>)"
    and spawn: "\<And>ch g a w. Q w (rt_spawn rt (DelayedSync ch g a) w)"
  shows "within Q (coord_handle_command T rt (PacketCmd p))"
proof (cases "is_Shine (pkt_data p) \<or> is_Game (pkt_data p)")
  case True
  note rules = within_broadcast[OF Q] within_sync_all[OF Q] within_rules[OF Q]
    within_game[OF Q cell spawn bag] within_amodify bag
  from True have "(\<exists>i. coord_handle_command T rt (PacketCmd p) =
        abind (on_world (amodify (\<lambda>w. w\<lparr>shine_bag := hs_insert i (shine_bag w)\<rparr>)))
          (\<lambda>_. abind (sync_all_shines rt) (\<lambda>_. aret True))) \<or>
      (\<exists>n stage. coord_handle_command T rt (PacketCmd p) =
        abind (coord_game rt p n stage) (\<lambda>_. abind (broadcast rt p) (\<lambda>_. aret True)))"
    by (auto simp: coord_handle_command_def split: packet_data.splits)
  then show ?thesis by (elim disjE exE) (simp only:, intro rules)+
next
  case False
  then show ?thesis by (intro within_packet Q) simp_all
qed

lemma within_command_disconnect:
  assumes Q: "send_closed rt Q"
  shows "within Q (coord_handle_command T rt (ServerCmd (DisconnectPlayer g)))"
  unfolding coord_handle_command_def command.case server_command.case
  by (intro within_rules[OF Q] within_disconnect[OF Q])

context tokio_impl
begin

lemma add_client_sends:
  assumes "\<And>s s'. tcp_shutdown T s \<noteq> Some (Panic, s')" and "pkt_data p = Connect c_type m name"
    and "add_client T rt (NewPlayer cli p comm) (co, w) = Some (r, (co', w'))"
  shows "sends_packets w w' \<or> can_connect (sh_settings w) (hm_len (clients co)) cli \<noteq> None
     \<and> log w' = log w @ [(to_coord cli, ServerCmd (DisconnectPlayer (cli_guid cli)))]"
proof (cases "can_connect (sh_settings w) (hm_len (clients co)) cli")
  case None
  obtain cli1 co1 where "register c_type comm cli co = (cli1, co1)" by fastforce
  with assms(3) None within_accepted[OF closed_sends_packets, of comm p "cli_guid cli" co1 "ClientTask cli1" w r co' w']
  show ?thesis
    by (simp add: add_client_cases[OF assms(2)] accepted_run_def sends_packets_memory)
next
  case (Some e)
  with assms(3) obtain q c where "client_disconnect T rt (cli, w) = Some (q, (c, w'))"
    by (auto simp: add_client_cases[OF assms(2)] on_world_run elim!: abind_cases)
  from client_disconnect_log[OF this assms(1)] sends_packets_order(1) Some show ?thesis
    by (auto simp: sends_packets_def reflp_def split: if_splits intro: exI[of _ "[]"])
qed

lemma command_sends:
  fixes cmd :: "('b, 's, 'u) command"
  assumes "\<And>s s'. tcp_shutdown T s \<noteq> Some (Panic, s')"
    and "from_tasks cmd" and "coord_handle_command T rt cmd (co, w) = Some (r, (co', w'))"
  shows "sends_packets w w'
     \<or> (\<exists>cli p comm. cmd = ServerCmd (NewPlayer cli p comm)
          \<and> can_connect (sh_settings w) (hm_len (clients co)) cli \<noteq> None
          \<and> log w' = log w @ [(to_coord cli, ServerCmd (DisconnectPlayer (cli_guid cli)))])"
proof (cases cmd)
  case (PacketCmd p)
  note rules = within_command_packet[OF closed_sends_packets sends_packets_memory]
  from withinD[OF rules assms(3)[unfolded PacketCmd]] show ?thesis by simp
next
  case (CliCmd c)
  with assms(2) show ?thesis by simp
next
  case (ServerCmd sc)
  show ?thesis
  proof (cases sc)
    case (NewPlayer cli p comm)
    with ServerCmd assms(2) obtain t m n where p: "pkt_data p = Connect t m n" by auto
    from assms(3) obtain q where "add_client T rt (NewPlayer cli p comm) (co, w) = Some (q, (co', w'))"
      unfolding ServerCmd NewPlayer by (rule new_player_run)
    from add_client_sends[OF assms(1) p this] show ?thesis
      unfolding ServerCmd NewPlayer by blast
  next
    case (DisconnectPlayer g)
    from withinD[OF within_command_disconnect[OF closed_sends_packets] assms(3)[unfolded ServerCmd DisconnectPlayer]]
    show ?thesis by simp
  next
    case Shutdown
    with ServerCmd assms(3) show ?thesis using sends_packets_order(1) by (simp add: coord_handle_command_def reflpD)
  qed
qed

end

text \<open>
  All the coordinator ever puts into a client's channel are packets: the commands a client's task
  has no code for never reach it. The one other message it sends goes to its own channel, when it
  turns a player away.
\<close>
theorem coordinator_sends_packets:
  fixes cmd :: "('b, 's, 'u) command"
  assumes "tokio_impl rt log tasks" and "\<And>s s'. tcp_shutdown T s \<noteq> Some (Panic, s')"
    and "from_tasks cmd" and "coord_handle_command T rt cmd (co, w) = Some (r, (co', w'))"
  shows "(\<exists>ms. log w' = log w @ map (\<lambda>(ch, p). (ch, PacketCmd p)) ms)
     \<or> (\<exists>cli p comm. cmd = ServerCmd (NewPlayer cli p comm)
          \<and> can_connect (sh_settings w) (hm_len (clients co)) cli \<noteq> None
          \<and> log w' = log w @ [(to_coord cli, ServerCmd (DisconnectPlayer (cli_guid cli)))])"
  using tokio_impl.command_sends[OF assms] by (simp add: tokio_impl.sends_packets_def[OF assms(1)])

theorem coordinator_sends_packets_witness:
  "(\<exists>ms. plog (sent_all (sync_row two_clients moon_world) moon_world) =
       plog sample_world @ map (\<lambda>(ch, p). (ch, PacketCmd p)) ms)
     \<or> (\<exists>cli p comm. (PacketCmd moon_packet :: (u8 list, script, mailbox) command) = ServerCmd (NewPlayer cli p comm)
          \<and> can_connect (sh_settings sample_world) (hm_len (clients two_clients)) cli \<noteq> None
          \<and> plog (sent_all (sync_row two_clients moon_world) moon_world) =
              plog sample_world @ [(to_coord cli, ServerCmd (DisconnectPlayer (cli_guid cli)))])"
  by (rule coordinator_sends_packets[OF post_runtime.tokio_impl_axioms script_shutdown_ok _ moon_command]) simp

section \<open>The settings\<close>

definition same_settings :: "'x shared \<Rightarrow> 'x shared \<Rightarrow> bool" where
  "same_settings w w' \<longleftrightarrow> sh_settings w' = sh_settings w"

lemma disconnect_same_settings:
  assumes "tokio_quiet rt log tasks" and "client_disconnect T rt (cli, w) = Some (q, (c, w'))"
  shows "same_settings w w'"
  using disconnect_same_memory[OF assms] by (simp add: same_memory_def same_settings_def)

context tokio_quiet
begin

lemma closed_same_settings: "send_closed rt same_settings"
  using send_memory by (auto simp: send_closed_def same_settings_def reflp_def transp_def same_memory_def)

lemma command_settings:
  assumes "from_tasks cmd" and "coord_handle_command T rt cmd (co, w) = Some (r, (co', w'))"
  shows "same_settings w w'"
proof (cases cmd)
  case (PacketCmd p)
  have "within same_settings (coord_handle_command T rt (PacketCmd p))"
    by (intro within_command_packet closed_same_settings) (simp_all add: same_settings_def spawn_quiet)
  from withinD[OF this assms(2)[unfolded PacketCmd]] show ?thesis by simp
next
  case (CliCmd c)
  with assms(1) show ?thesis by simp
next
  case (ServerCmd sc)
  show ?thesis
  proof (cases sc)
    case (NewPlayer cli p comm)
    with ServerCmd assms(1) obtain t m n where p: "pkt_data p = Connect t m n" by auto
    from assms(2) obtain q where "add_client T rt (NewPlayer cli p comm) (co, w) = Some (q, (co', w'))"
      unfolding ServerCmd NewPlayer by (rule new_player_run)
    note run = this[unfolded add_client_cases[OF p]]
    show ?thesis
    proof (cases "can_connect (sh_settings w) (hm_len (clients co)) cli")
      case None
      obtain cli1 co1 where "register t comm cli co = (cli1, co1)" by fastforce
      with run None show ?thesis
        by (intro within_accepted[OF closed_same_settings, of comm p "cli_guid cli" co1 "ClientTask cli1" w q co' w'])
          (simp_all add: accepted_run_def same_settings_def spawn_quiet)
    next
      case (Some e)
      with run obtain q' c where "client_disconnect T rt (cli, w) = Some (q', (c, w'))"
        by (auto simp: on_world_run elim!: abind_cases)
      from disconnect_same_settings[OF tokio_quiet_axioms this] show ?thesis .
    qed
  next
    case (DisconnectPlayer g)
    from withinD[OF within_command_disconnect[OF closed_same_settings] assms(2)[unfolded ServerCmd DisconnectPlayer]]
    show ?thesis by simp
  next
    case Shutdown
    with ServerCmd assms(2) show ?thesis by (simp add: coord_handle_command_def same_settings_def)
  qed
qed

end

section \<open>Shutdown\<close>

text \<open>A row of sends comes back where every send does.\<close>

lemma send_each_returns:
  assumes "\<And>ch cmd w. rt_send rt ch cmd w \<noteq> None"
  shows "\<exists>r w'. send_each rt ms w = Some (r, w')"
proof (induction ms arbitrary: w)
  case (Cons m ms)
  obtain ch cmd where m: "m = (ch, cmd)" by fastforce
  obtain r w1 where "send rt ch cmd w = Some (r, w1)"
    using assms[of ch cmd w] by (cases "send rt ch cmd w") (auto simp del: not_None_eq)
  with Cons.IH[of w1] m show ?case by (cases r) (auto simp: abind_def simp del: send_eq)
qed simp

lemma shutdown_returns:
  assumes "\<And>ch cmd w. rt_send rt ch cmd w \<noteq> None"
    and "\<And>ms w w'. send_each rt ms w \<noteq> Some (Panic, w')"
  shows "\<exists>r s. for_each (\<lambda>g. abind (atry (disconnect_player rt g)) (\<lambda>_. aret ())) gs (co, w) = Some (r, s)"
proof (induction gs arbitrary: co w)
  case (Cons g gs)
  obtain r w1 where row: "send_each rt (gone_row g co) w = Some (r, w1)"
    using send_each_returns[of rt "gone_row g co" w] assms(1) by blast
  with assms(2)[of "gone_row g co" w w1] have turn: "abind (atry (disconnect_player rt g)) (\<lambda>_. aret ()) (co, w) =
      Some (Ok (), (without g co, w1))"
    by (cases r) (auto simp: abind_def atry_def disconnect_row on_world_def zoom_def)
  with Cons.IH[of "without g co" w1] show ?case 
    by (simp only: for_each.simps abind_Ok[where m = "abind (atry (disconnect_player rt g)) (\<lambda>_. aret ())", OF turn])
qed simp

text \<open>The packets of the players \<open>gs\<close>, into the channels of players.\<close>

definition goodbye :: "guid list \<Rightarrow> coordinator \<Rightarrow> chan \<times> ('b, 's, 'u) command \<Rightarrow> bool" where
  "goodbye gs co = (\<lambda>(ch, cmd). (\<exists>g. hm_get (to_clients co) g = Some ch)
     \<and> (\<exists>g \<in> set gs. cmd = PacketCmd (gone_packet g)))"

lemma gone_row_goodbye:
  assumes "coord_ok co" and "m \<in> set (gone_row g co)"
  shows "goodbye (g # gs) co m"
proof -
  have "hm_ok (to_clients (without g co))" using without_ok(1)[OF assms(1)] by (simp add: coord_ok_def)
  from hm_values_mem[OF this] assms(2) show ?thesis
    by (auto simp: gone_row_def to_all_def goodbye_def without_ok(3)[OF assms(1)]
        split: option.splits if_splits)
qed

lemma goodbye_more:
  "coord_ok co \<Longrightarrow> goodbye gs (without g co) m \<Longrightarrow> goodbye (g # gs) co m"
  by (auto simp: goodbye_def without_ok(3) split: if_splits)

context tokio_impl
begin

lemma shutdown_loop:
  assumes "for_each (\<lambda>g. abind (atry (disconnect_player rt g)) (\<lambda>_. aret ())) gs (co, w) = Some (r, (co', w'))"
    and "coord_ok co"
  shows "r = Ok () \<and> hm_get (clients co') = hm_get (clients co) |` (- set gs)
    \<and> hm_get (to_clients co') = hm_get (to_clients co) |` (- set gs)
    \<and> (\<exists>ms. log w' = log w @ ms \<and> (\<forall>m \<in> set ms. goodbye gs co m)
        \<and> (never_refuses rt w \<longrightarrow>
           (\<forall>g ch. g \<in> set gs \<longrightarrow> hm_get (to_clients co) g = Some ch \<longrightarrow> (ch, PacketCmd (gone_packet g)) \<in> set ms)))"
  using assms
proof (induction gs arbitrary: co w)
  case Nil
  then show ?case by auto
next
  case (Cons g gs)
  from Cons.prems(1) have "abind (abind (atry (disconnect_player rt g)) (\<lambda>_. aret ()))
      (\<lambda>_. for_each (\<lambda>g. abind (atry (disconnect_player rt g)) (\<lambda>_. aret ())) gs) (co, w) = Some (r, (co', w'))"
    by (simp only: for_each.simps)
  then obtain q w1 where d: "send_each rt (gone_row g co) w = Some (q, w1)" and q: "q \<noteq> Panic"
    and rest: "for_each (\<lambda>g. abind (atry (disconnect_player rt g)) (\<lambda>_. aret ())) gs (without g co, w1) = Some (r, (co', w'))"
    using row_no_panic
    by (auto simp: atry_eq disconnect_row on_world_run elim!: abind_cases)
  note IH = Cons.IH[OF rest without_ok(1)[OF Cons.prems(2)]]
  note W = without_ok(2,3)[OF Cons.prems(2), of g]
  from send_each_log[OF d] obtain ms1 where ms1: "log w1 = log w @ ms1" "q = Ok () \<longrightarrow> ms1 = gone_row g co"
    by (cases q) auto
  have sent: "q = Ok ()" "never_refuses rt w1" if "never_refuses rt w"
    using never_refuses_each[OF that d] by simp_all
  have bye1: "\<forall>m \<in> set ms1. goodbye (g # gs) co m"
    using send_each_log[OF d] ms1(1) gone_row_goodbye[OF Cons.prems(2), of _ g gs]
    by (auto dest: in_set_takeD)
  from IH obtain ms2 where ms2: "log w' = log w1 @ ms2"
    "never_refuses rt w1 \<longrightarrow>
       (\<forall>h ch. h \<in> set gs \<longrightarrow> hm_get (to_clients (without g co)) h = Some ch \<longrightarrow> (ch, PacketCmd (gone_packet h)) \<in> set ms2)"
    and bye2: "\<forall>m \<in> set ms2. goodbye (g # gs) co m"
    using goodbye_more[OF Cons.prems(2), of gs g] by blast
  have "(ch, PacketCmd (gone_packet h)) \<in> set (ms1 @ ms2)"
    if "never_refuses rt w" and "h \<in> set (g # gs)"
      and "hm_get (to_clients co) h = Some ch" for h ch
  proof (cases "h = g")
    case True
    with that(3) ms1(2) sent(1)[OF that(1)] show ?thesis by (auto simp: gone_row_def to_all_def)
  next
    case False
    with that ms2(2) sent(2) W show ?thesis by auto
  qed
  moreover have "hm_get (clients co') = hm_get (clients co) |` (- set (g # gs))"
    "hm_get (to_clients co') = hm_get (to_clients co) |` (- set (g # gs))"
    using IH W by (auto simp: restrict_map_def fun_eq_iff)
  ultimately show ?case
    using IH ms1(1) ms2(1) bye1 bye2 by (auto intro!: exI[of _ "ms1 @ ms2"])
qed

end

text \<open>
  C12. Shutting down comes back where every send does, never fails, and leaves both maps empty,
  whether players' tasks are gone or not. All it sends are \<open>Disconnect\<close> packets of players, into the
  channels of players. Where moreover no send is refused, every player's task is sent the packet
  that ends it, its own. (Where one is refused, a task can miss its own: the broadcast that meets
  the closed channel ends that player's turn before it is sent.)
\<close>
theorem shutdown_ends_everyone:
  assumes "tokio_impl rt log tasks" and "coord_ok co" and "\<And>ch cmd w. rt_send rt ch cmd w \<noteq> None"
  shows "\<exists>co' w' ms. shutdown rt (co, w) = Some (Ok (), (co', w'))
    \<and> hm_get (clients co') = Map.empty \<and> hm_get (to_clients co') = Map.empty
    \<and> log w' = log w @ ms
    \<and> (\<forall>(ch, cmd) \<in> set ms. (\<exists>g. hm_get (to_clients co) g = Some ch) \<and> (\<exists>g. hm_get (to_clients co) g \<noteq> None
          \<and> cmd = PacketCmd \<lparr>pkt_id = g, data_size = 0, pkt_data = Disconnect\<rparr>))
    \<and> (never_refuses rt w \<longrightarrow>
        (\<forall>g ch. hm_get (to_clients co) g = Some ch \<longrightarrow>
           (ch, PacketCmd \<lparr>pkt_id = g, data_size = 0, pkt_data = Disconnect\<rparr>) \<in> set ms))"
proof -
  from assms(2) have ok: "hm_ok (to_clients co)" by (simp add: coord_ok_def)
  have same: "hm_get (clients co) g = None \<longleftrightarrow> hm_get (to_clients co) g = None" for g
    using assms(2) by (simp add: coord_ok_def)
  have empty: "hm_get (clients co) |` (- dom (hm_get (to_clients co))) = Map.empty"
    "hm_get (to_clients co) |` (- dom (hm_get (to_clients co))) = Map.empty"
    by (simp_all add: restrict_map_def fun_eq_iff domIff same)
  obtain r co' w' where run: "shutdown rt (co, w) = Some (r, (co', w'))"
    using shutdown_returns[OF assms(3) tokio_impl.row_no_panic[OF assms(1)]]
    by (force simp: shutdown_def)
  from tokio_impl.shutdown_loop[OF assms(1) run[unfolded shutdown_def fst_conv] assms(2)]
  obtain ms where fin: "r = Ok ()" "hm_get (clients co') = Map.empty" "hm_get (to_clients co') = Map.empty"
    "log w' = log w @ ms" and bye: "\<forall>m \<in> set ms. goodbye (hm_keys (to_clients co)) co m"
    and all: "never_refuses rt w \<longrightarrow> (\<forall>g ch. g \<in> dom (hm_get (to_clients co)) \<longrightarrow>
      hm_get (to_clients co) g = Some ch \<longrightarrow> (ch, PacketCmd (gone_packet g)) \<in> set ms)"
    unfolding hm_keys_set[OF ok] empty by blast
  from bye have "\<forall>(ch, cmd) \<in> set ms. (\<exists>g. hm_get (to_clients co) g = Some ch)
      \<and> (\<exists>g. hm_get (to_clients co) g \<noteq> None \<and> cmd = PacketCmd (gone_packet g))"
    by (fastforce simp: goodbye_def hm_keys_set[OF ok])
  with run fin all show ?thesis
    unfolding gone_packet_def[symmetric] by (intro exI[of _ co'] exI[of _ w'] exI[of _ ms]) auto
qed

definition emptied :: coordinator where
  "emptied = without g2 (without g1 two_clients)"

definition closing_world :: "test_post shared" where
  "closing_world = sent_all (gone_row g2 (without g1 two_clients)) left_world"

lemma gone_row_g2: "length (gone_row g2 (without g1 two_clients) :: test_row) \<le> 2"
proof -
  have "hm_get (to_clients (without g1 two_clients)) g2 = Some 21"
    "hm_values (to_clients (without g2 (without g1 two_clients))) = []"
    by (simp_all add: without_def two_clients_def hm_get_def hm_remove_def hm_values_def hm_iter_def)
  then show ?thesis by (simp add: gone_row_def to_all_def)
qed

lemma close_second: "send_each post_tokio (gone_row g2 (without g1 two_clients)) left_world = Some (Ok (), closing_world)"
  unfolding closing_world_def using gone_row_g2
  by (intro post_send_each)
    (simp_all add: left_world_def sent_all_def on_runtime_def sample_world_def queued_def gone_row_g1 to_all_def)

text \<open>Receivers that keep up: a send to an open channel always finds room.\<close>

definition eager_tokio :: "('b, 's, 'u, ('b, 's, 'u) post) tokio" where
  "eager_tokio = post_tokio\<lparr>rt_send := \<lambda>ch cmd w.
     if ch \<in> set (po_closed (runtime w)) then Some (Err (), w) else Some (Ok (), sent_all [(ch, cmd)] w)\<rparr>"

interpretation eager_runtime: tokio_quiet eager_tokio "\<lambda>w. po_log (runtime w)" "\<lambda>w. po_tasks (runtime w)"
  by unfold_locales
     (auto simp: eager_tokio_def post_recv_def split: if_splits option.splits)

lemma eager_never_refuses: "never_refuses eager_tokio sample_world"
  unfolding never_refuses_def
  by (rule exI[of _ "\<lambda>w. po_closed (runtime w) = []"])
    (auto simp: sample_world_def eager_tokio_def sent_all_def split: if_splits)

theorem shutdown_ends_everyone_witness:
  "\<exists>co' w' ms. shutdown eager_tokio (two_clients, sample_world) = Some (Ok (), (co', w'))
    \<and> hm_get (clients co') = Map.empty \<and> hm_get (to_clients co') = Map.empty
    \<and> plog w' = plog sample_world @ ms
    \<and> (\<forall>g ch. hm_get (to_clients two_clients) g = Some ch \<longrightarrow>
        (ch, PacketCmd \<lparr>pkt_id = g, data_size = 0, pkt_data = Disconnect\<rparr>) \<in> set ms)"
proof -
  have "rt_send eager_tokio ch cmd w \<noteq> None" for ch cmd and w :: "test_post shared"
    by (simp add: eager_tokio_def)
  from shutdown_ends_everyone[OF eager_runtime.tokio_impl_axioms two_clients_ok this] eager_never_refuses
  show ?thesis by blast
qed

end
