(* ===== verification/Server.thy ===== *)
theory Server
  imports Client_Facts
begin

text \<open>
  The listener, \<open>src/server.rs\<close>: it accepts connections for ever and starts a task for the handshake
  of each, handing out two UDP ports in turn. The network and the start of tasks are a record of
  operations with a contract over the tasks started so far.
\<close>

record game_server =
  srv_to_coord :: chan
  srv_udp_port :: u16

text \<open>What a spawned handshake owns.\<close>

record 'n init_task =
  init_socket :: 'n
  init_coord :: chan
  init_port :: u16

record ('l, 'n, 'w) net =
  net_listen :: "socket_addr \<Rightarrow> ('l, unit, 'w) async"
  net_accept :: "'l \<Rightarrow> ('n \<times> socket_addr, unit, 'w) async"
  net_spawn :: "'n init_task \<Rightarrow> 'w \<Rightarrow> 'w"

text \<open>\<open>u16\<close> addition: with overflow checks (a debug build) it panics, without (the release build) it wraps.\<close>

definition u16_add :: "bool \<Rightarrow> u16 \<Rightarrow> u16 \<Rightarrow> u16 option" where
  "u16_add checks a b = (if checks \<and> 2 ^ 16 \<le> unat a + unat b then None else Some (a + b))"

text \<open>The body of the spawned task: an error is logged.\<close>

definition init_client_task ::
  "'b bytes_crate \<Rightarrow> ('b, 'n, 's) tcp \<Rightarrow> 'u udp \<Rightarrow> (socket_addr \<Rightarrow> ('u, unit, 'x shared) async) \<Rightarrow>
   ('b, 's, 'u, 'x) tokio \<Rightarrow> ranks \<Rightarrow> 'n init_task \<Rightarrow> (unit, smo_error, 'x shared) async" where
  "init_client_task K T U bind rt R t =
     abind (atry (initialize_client K T U bind rt R (init_socket t) (init_coord t) (init_port t))) (\<lambda>cli_result.
     aret ())"

text \<open>One turn of the loop: the offset of the next one.\<close>

definition accept_turn ::
  "('l, 'n, 'w) net \<Rightarrow> bool \<Rightarrow> game_server \<Rightarrow> 'l \<Rightarrow> u16 \<Rightarrow> (u16, smo_error, 'w) async" where
  "accept_turn N checks srv listener udp_offset =
     abind (io (net_accept N listener)) (\<lambda>(socket, _).
     abind (the_or_panic (u16_add checks (srv_udp_port srv) udp_offset)) (\<lambda>udp_port.
     abind (the_or_panic (u16_add checks udp_offset 1)) (\<lambda>udp_offset.
     abind (amodify (net_spawn N \<lparr>init_socket = socket, init_coord = srv_to_coord srv, init_port = udp_port\<rparr>)) (\<lambda>_.
     aret (udp_offset mod 2)))))"

partial_function (option) accept_loop ::
  "('l, 'n, 'w) net \<Rightarrow> bool \<Rightarrow> game_server \<Rightarrow> 'l \<Rightarrow> u16 \<Rightarrow> (unit, smo_error, 'w) async" where
  "accept_loop N checks srv listener udp_offset s =
     abind (accept_turn N checks srv listener udp_offset) (\<lambda>off s. accept_loop N checks srv listener off s) s"

definition listen_for_clients ::
  "('l, 'n, 'w) net \<Rightarrow> bool \<Rightarrow> game_server \<Rightarrow> socket_addr \<Rightarrow> (unit, smo_error, 'w) async" where
  "listen_for_clients N checks srv addr =
     abind (io (net_listen N addr)) (\<lambda>listener. accept_loop N checks srv listener 0)"

lemma locally_Panic: "locally m t s = Some (Panic, s') \<longleftrightarrow> (\<exists>t'. m t = Some (Panic, t') \<and> s' = s)"
  by (auto simp: locally_def split: option.splits res.splits)

lemma the_or_panic_Panic: "the_or_panic x s = Some (Panic, s') \<longleftrightarrow> x = None \<and> s' = s"
  by (auto simp: the_or_panic_def split: option.splits)

section \<open>The loop\<close>

lemma accept_loop_induct [consumes 1, case_names again failed panics]:
  assumes "accept_loop N checks srv l off s = Some (r, s')"
    and "\<And>off s off1 s1 r s'. accept_turn N checks srv l off s = Some (Ok off1, s1) \<Longrightarrow> P off1 s1 r s' \<Longrightarrow> P off s r s'"
    and "\<And>off s e s'. accept_turn N checks srv l off s = Some (Err e, s') \<Longrightarrow> P off s (Err e) s'"
    and "\<And>off s s'. accept_turn N checks srv l off s = Some (Panic, s') \<Longrightarrow> P off s Panic s'"
  shows "P off s r s'"
proof -
  have "N' = N \<longrightarrow> checks' = checks \<longrightarrow> srv' = srv \<longrightarrow> l' = l \<longrightarrow> P off s (fst y) (snd y)"
    if "accept_loop N' checks' srv' l' off s = Some y" for N' checks' srv' l' off s y
  proof (rule accept_loop.raw_induct[where P = "\<lambda>N' checks' srv' l' off s y.
        N' = N \<longrightarrow> checks' = checks \<longrightarrow> srv' = srv \<longrightarrow> l' = l \<longrightarrow> P off s (fst y) (snd y)", OF _ that], intro impI)
    fix F N' checks' srv' l' off s y
    assume step: "\<And>N' checks' srv' l' off s y. F N' checks' srv' l' off s = Some y \<Longrightarrow>
        N' = N \<longrightarrow> checks' = checks \<longrightarrow> srv' = srv \<longrightarrow> l' = l \<longrightarrow> P off s (fst y) (snd y)"
      and body: "abind (accept_turn N' checks' srv' l' off) (\<lambda>off s. F N' checks' srv' l' off s) s = Some y"
      and [simp]: "N' = N" "checks' = checks" "srv' = srv" "l' = l"
    from body have "abind (accept_turn N checks srv l off) (\<lambda>off s. F N checks srv l off s) s = Some (fst y, snd y)"
      by simp
    then show "P off s (fst y) (snd y)"
    proof (cases rule: abind_cases)
      case (ok off1 s1)
      with step[of N checks srv l off1 s1 y] assms(2) show ?thesis by auto
    qed (use assms(3,4) in auto)
  qed
  with assms(1) show ?thesis by fastforce
qed

text \<open>
  The contract of the network, over two logs: \<open>accs\<close>, the connections accepted, which a successful
  \<open>accept\<close> adds to, and \<open>spawned\<close>, the tasks started, which \<open>spawn\<close> adds to.
\<close>

locale net_impl =
  fixes N :: "('l, 'n, 'w) net" and accs :: "'w \<Rightarrow> 'n list" and spawned :: "'w \<Rightarrow> 'n init_task list"
  assumes listen_law: "net_listen N a w = Some (q, w') \<Longrightarrow> accs w' = accs w \<and> spawned w' = spawned w"
    and accept_law: "net_accept N l w = Some (p, w') \<Longrightarrow> spawned w' = spawned w
      \<and> accs w' = accs w @ (case p of Ok (sock, from) \<Rightarrow> [sock] | _ \<Rightarrow> [])"
    and listen_no_panic: "net_listen N a w \<noteq> Some (Panic, w')"
    and accept_no_panic: "net_accept N l w \<noteq> Some (Panic, w')"
    and spawn_started: "spawned (net_spawn N t w) = spawned w @ [t]" "accs (net_spawn N t w) = accs w"

text \<open>The tasks for a list of accepted sockets, from the offset on.\<close>

fun init_tasks :: "game_server \<Rightarrow> nat \<Rightarrow> 'n list \<Rightarrow> 'n init_task list" where
  "init_tasks srv i [] = []"
| "init_tasks srv i (sock # socks) =
     \<lparr>init_socket = sock, init_coord = srv_to_coord srv, init_port = srv_udp_port srv + of_nat (i mod 2)\<rparr> #
     init_tasks srv (Suc i) socks"

lemma init_tasks_parity: "init_tasks srv i socks = init_tasks srv (i mod 2) socks"
proof (induction socks arbitrary: i)
  case (Cons sock socks)
  have "init_tasks srv (Suc i) socks = init_tasks srv (Suc (i mod 2)) socks"
    using Cons.IH[of "Suc i"] Cons.IH[of "Suc (i mod 2)"] by (simp add: mod_Suc_eq)
  then show ?case by simp
qed simp

lemma init_tasks_nth:
  "i < length socks \<Longrightarrow> init_tasks srv k socks ! i =
     \<lparr>init_socket = socks ! i, init_coord = srv_to_coord srv, init_port = srv_udp_port srv + of_nat ((k + i) mod 2)\<rparr>"
  by (induction socks arbitrary: k i) (auto simp: less_Suc_eq_0_disj)

lemma length_init_tasks [simp]: "length (init_tasks srv k socks) = length socks"
  by (induction socks arbitrary: k) auto

lemma of_nat_parity: "((of_nat (k mod 2) :: u16) + 1) mod 2 = of_nat (Suc k mod 2)"
  by (cases "even k") (auto simp: even_iff_mod_2_eq_zero odd_iff_mod_2_eq_one mod_Suc)

context net_impl
begin

lemma accept_turn_cases:
  assumes "\<not> checks \<or> unat (srv_udp_port srv) + 1 < 2 ^ 16"
    and "accept_turn N checks srv l (of_nat (k mod 2)) w = Some (r, w')"
  obtains (served) socket a where "r = Ok (of_nat (Suc k mod 2))"
      "accs w' = accs w @ [socket]" "spawned w' = spawned w @ init_tasks srv k [socket]"
    | (failed) "r = Err Io" "accs w' = accs w" "spawned w' = spawned w"
proof -
  have "unat (of_nat (k mod 2) :: u16) = k mod 2"
    by (simp add: unat_of_nat)
  then have add: "u16_add checks (srv_udp_port srv) (of_nat (k mod 2)) = Some (srv_udp_port srv + of_nat (k mod 2))"
    "u16_add checks (of_nat (k mod 2)) 1 = Some (of_nat (k mod 2) + 1)"
    using assms(1) by (auto simp: u16_add_def)
  show thesis
  proof (cases "net_accept N l w")
    case None
    with assms(2) show thesis by (simp add: accept_turn_def)
  next
    case (Some out)
    then obtain q w1 where q: "net_accept N l w = Some (q, w1)" by (cases out) auto
    show thesis
    proof (cases q)
      case (Ok sa)
      obtain socket a where sa: "sa = (socket, a)" by fastforce
      let ?w2 = "net_spawn N \<lparr>init_socket = socket, init_coord = srv_to_coord srv,
          init_port = srv_udp_port srv + of_nat (k mod 2)\<rparr> w1"
      from q Ok sa add assms(2) have "r = Ok ((of_nat (k mod 2) + 1) mod 2)" "w' = ?w2"
        by (simp_all add: accept_turn_def the_or_panic_def abind_def)
      then show thesis
        using served accept_law[OF q] of_nat_parity[of k] Ok sa by (simp add: spawn_started)
    next
      case (Err e)
      with q assms(2) have "r = Err Io" "w' = w1" by (simp_all add: accept_turn_def abind_def io_def)
      with failed accept_law[OF q] Err show thesis by simp
    next
      case Panic
      with q accept_no_panic show thesis by blast
    qed
  qed
qed

lemma accept_loop_tasks:
  assumes "accept_loop N checks srv l (of_nat (k mod 2)) w = Some (r, w')"
    and checks: "\<not> checks \<or> unat (srv_udp_port srv) + 1 < 2 ^ 16"
  shows "r = Err Io \<and> (\<exists>socks. accs w' = accs w @ socks
      \<and> spawned w' = spawned w @ init_tasks srv k socks)"
proof -
  have "\<forall>k. off = of_nat (k mod 2) \<longrightarrow> r = Err Io \<and> (\<exists>socks. accs w' = accs w @ socks
      \<and> spawned w' = spawned w @ init_tasks srv k socks)"
    if "accept_loop N checks srv l off w = Some (r, w')" for off
    using that
  proof (induction rule: accept_loop_induct)
    case (again off w off1 w1 r w')
    show ?case
    proof (intro allI impI)
      fix k assume "off = of_nat (k mod 2)"
      with again(1) have "accept_turn N checks srv l (of_nat (k mod 2)) w = Some (Ok off1, w1)" by simp
      from accept_turn_cases[OF checks this] obtain socket where
        "off1 = of_nat (Suc k mod 2)" "accs w1 = accs w @ [socket]"
        "spawned w1 = spawned w @ init_tasks srv k [socket]" by auto
      with again(2) obtain socks where "r = Err Io" "accs w' = accs w @ (socket # socks)"
        "spawned w' = spawned w @ init_tasks srv k (socket # socks)"
        by fastforce
      then show "r = Err Io \<and> (\<exists>socks. accs w' = accs w @ socks
      \<and> spawned w' = spawned w @ init_tasks srv k socks)" by blast
    qed
  next
    case (failed off w e w')
    then show ?case
      by (auto elim!: accept_turn_cases[OF checks] intro!: exI[of _ "[]"])
  next
    case (panics off w w')
    then show ?case by (auto elim!: accept_turn_cases[OF checks])
  qed
  with assms(1) show ?thesis by blast
qed

end

section \<open>A listener with a queue\<close>

text \<open>
  Connections that wait and those accepted, and the tasks started; with none waiting, accepting fails.
\<close>

record 'n backlog =
  waiting :: "'n list"
  served :: "'n list"
  started :: "'n init_task list"

definition queue_net :: "(unit, 'n, 'n backlog) net" where
  "queue_net = \<lparr>
     net_listen = (\<lambda>a. aret ()),
     net_accept = (\<lambda>l w. case waiting w of
         [] \<Rightarrow> Some (Err (), w)
       | sock # socks \<Rightarrow> Some (Ok (sock, SocketV4 1 2), w\<lparr>waiting := socks, served := served w @ [sock]\<rparr>)),
     net_spawn = (\<lambda>t w. w\<lparr>started := started w @ [t]\<rparr>)\<rparr>"

interpretation queue: net_impl queue_net served started
  by unfold_locales (auto simp: queue_net_def split: list.splits)

definition sample_server :: game_server where
  "sample_server = \<lparr>srv_to_coord = 0, srv_udp_port = 51888\<rparr>"

lemma queue_turn:
  "accept_turn queue_net True sample_server () (of_nat (k mod 2)) \<lparr>waiting = sock # socks, served = ss, started = ts\<rparr> =
     Some (Ok (of_nat (Suc k mod 2)), \<lparr>waiting = socks, served = ss @ [sock], started = ts @ init_tasks sample_server k [sock]\<rparr>)"
proof -
  have "unat (of_nat (k mod 2) :: u16) = k mod 2" by (simp add: unat_of_nat)
  moreover have "unat (51888 :: u16) = 51888" "unat (1 :: u16) = 1" by simp_all
  ultimately show ?thesis
    using of_nat_parity[of k]
    by (simp add: accept_turn_def queue_net_def the_or_panic_def u16_add_def sample_server_def abind_def io_def)
qed

lemma queue_loop:
  "accept_loop queue_net True sample_server () (of_nat (k mod 2)) \<lparr>waiting = socks, served = ss, started = ts\<rparr> =
     Some (Err Io, \<lparr>waiting = [], served = ss @ socks, started = ts @ init_tasks sample_server k socks\<rparr>)"
proof (induction socks arbitrary: k ss ts)
  case Nil
  have "accept_turn queue_net True sample_server () (of_nat (k mod 2)) \<lparr>waiting = [], served = ss, started = ts\<rparr> =
      Some (Err Io, \<lparr>waiting = [], served = ss, started = ts\<rparr>)"
    by (simp add: accept_turn_def queue_net_def)
  then show ?case by (subst accept_loop.simps) simp
next
  case (Cons sock socks)
  have "accept_loop queue_net True sample_server () (of_nat (k mod 2)) \<lparr>waiting = sock # socks, served = ss, started = ts\<rparr> =
      accept_loop queue_net True sample_server () (of_nat (Suc k mod 2))
        \<lparr>waiting = socks, served = ss @ [sock], started = ts @ init_tasks sample_server k [sock]\<rparr>"
    by (subst accept_loop.simps) (rule abind_Ok, rule queue_turn)
  also have "\<dots> = Some (Err Io, \<lparr>waiting = [], served = (ss @ [sock]) @ socks,
      started = (ts @ init_tasks sample_server k [sock]) @ init_tasks sample_server (Suc k) socks\<rparr>)"
    by (rule Cons.IH)
  finally show ?case by simp
qed

section \<open>Properties\<close>

text \<open>
  C38. The listener starts exactly one handshake for each connection it accepts, in their order, each
  with its connection and the channel of the coordinator. The handshakes get the server's UDP port
  and the one after it in turn, so every third connection is given a port again that an earlier one
  may still hold. The listener only ends when it fails, with that error. (The ports do not overflow:
  at port 65535 a build with overflow checks panics.)
\<close>
theorem udp_ports_alternate:
  assumes "net_impl N accs spawned" and "\<not> checks \<or> unat (srv_udp_port srv) + 1 < 2 ^ 16"
    and "listen_for_clients N checks srv addr w = Some (r, w')"
  shows "r = Err Io \<and> (\<exists>socks ts. accs w' = accs w @ socks \<and> spawned w' = spawned w @ ts
     \<and> length ts = length socks \<and> (\<forall>i < length socks. ts ! i =
         \<lparr>init_socket = socks ! i, init_coord = srv_to_coord srv,
          init_port = (if even i then srv_udp_port srv else srv_udp_port srv + 1)\<rparr>))"
proof -
  from assms(3) have "abind (io (net_listen N addr)) (\<lambda>listener. accept_loop N checks srv listener 0) w = Some (r, w')"
    by (simp add: listen_for_clients_def)
  then have "r = Err Io \<and> (\<exists>socks. accs w' = accs w @ socks
      \<and> spawned w' = spawned w @ init_tasks srv 0 socks)"
  proof (cases rule: abind_cases)
    case (ok l w1)
    from ok(2) have "accept_loop N checks srv l (of_nat (0 mod 2)) w1 = Some (r, w')" by simp
    from net_impl.accept_loop_tasks[OF assms(1) this assms(2)] net_impl.listen_law[OF assms(1)] ok(1)
    show ?thesis by auto
  next
    case (err e)
    with net_impl.listen_law[OF assms(1)] show ?thesis by (auto intro: exI[of _ "[]"])
  next
    case panic
    with net_impl.listen_no_panic[OF assms(1)] show ?thesis by simp
  qed
  then obtain socks where "r = Err Io" "accs w' = accs w @ socks"
    "spawned w' = spawned w @ init_tasks srv 0 socks" by blast
  then show ?thesis
    by (intro conjI exI[of _ socks] exI[of _ "init_tasks srv 0 socks"])
       (simp_all add: init_tasks_nth even_iff_mod_2_eq_zero)
qed

theorem udp_ports_alternate_witness:
  "\<exists>socks ts.
     [1, 2, 3 :: nat] = [] @ socks \<and> init_tasks sample_server 0 [1, 2, 3 :: nat] = [] @ ts
     \<and> length ts = length socks \<and> (\<forall>i < length socks. ts ! i =
         \<lparr>init_socket = socks ! i, init_coord = srv_to_coord sample_server,
          init_port = (if even i then srv_udp_port sample_server else srv_udp_port sample_server + 1)\<rparr>)"
proof -
  have "unat (51888 :: u16) = 51888" by simp
  then have pt: "\<not> True \<or> unat (srv_udp_port sample_server) + 1 < 2 ^ 16" by (simp add: sample_server_def)
  have "listen_for_clients queue_net True sample_server (SocketV4 0 1027)
      \<lparr>waiting = [1, 2, 3 :: nat], served = [], started = []\<rparr> =
      Some (Err Io, \<lparr>waiting = [], served = [1, 2, 3], started = init_tasks sample_server 0 [1, 2, 3 :: nat]\<rparr>)"
    using queue_loop[of 0 "[1, 2, 3 :: nat]" "[]" "[]"] by (simp add: listen_for_clients_def queue_net_def)
  from udp_ports_alternate[OF queue.net_impl_axioms pt this] show ?thesis
    by (simp only: backlog.simps)
qed

text \<open>
  C39. A connection that is handed a UDP port that is taken gets the \<open>Init\<close> packet and then fails:
  the coordinator never hears of it. With two ports in turn this is every third connection while the
  first two are still there.
\<close>
theorem taken_port_refuses:
  assumes "tokio_quiet rt log tasks"
    and "\<And>w. bind (socket_addr_new (V4 0) udp_port) w = Some (Err (), w)"
    and "init_client_task K T U bind rt R \<lparr>init_socket = stream, init_coord = coord, init_port = udp_port\<rparr> w = Some (r, w')"
  shows "log w' = log w \<and> tasks w' = tasks w \<and> (\<forall>r w'. initialize_client K T U bind rt R stream coord udp_port w = Some (r, w') \<longrightarrow> r \<noteq> Ok ())"
proof -
  have Q: "tokio_impl rt log tasks" using assms(1) by (rule tokio_quiet.axioms)
  obtain ch w1 where ch: "rt_channel rt 10 w = (ch, w1)" by fastforce
  have main: "log w' = log w \<and> tasks w' = tasks w \<and> r \<noteq> Ok ()"
    if "initialize_client K T U bind rt R stream coord udp_port w = Some (r, w')" for r w'
    using that[unfolded initialize_client_def, simplified ch packet_new_small] tokio_impl.channel_law[OF Q ch]
    by (auto simp: ch packet_new_small locally_Ok locally_Panic the_or_panic_Panic Let_def assms(2)[simplified]
        elim!: abind_cases)
  from assms(3) obtain q where "initialize_client K T U bind rt R stream coord udp_port w = Some (q, w')"
    by (auto simp: init_client_task_def atry_eq elim!: abind_cases)
  with main show ?thesis by blast
qed

definition taken_bind :: "socket_addr \<Rightarrow> (mailbox, unit, test_post shared) async" where
  "taken_bind a = athrow ()"

lemma taken_run:
  "init_client_task bytes_list whole_tcp mailbox_udp taken_bind post_tokio sample_ranks
     \<lparr>init_socket = peer_saying hello, init_coord = 0, init_port = 51888\<rparr> sample_world =
     Some (Ok (), snd (rt_channel post_tokio 10 sample_world))"
proof -
  have peer: "tcp_peer_addr whole_tcp (peer_saying hello) = Some peer"
    by (simp add: whole_tcp_def peer_saying_def)
  show ?thesis
    by (simp add: init_client_task_def initialize_client_def abind_def atry_def the_or_panic_def from_res_def peer
        saying_new packet_new_small locally_def whole_written[OF handshake_packets(1,3)] taken_bind_def io_def)
qed

theorem taken_port_refuses_witness:
  "po_log (runtime (snd (rt_channel post_tokio 10 sample_world))) = po_log (runtime sample_world)
   \<and> po_tasks (runtime (snd (rt_channel post_tokio 10 sample_world))) = po_tasks (runtime sample_world)"
proof -
  have taken: "\<And>w. taken_bind (socket_addr_new (V4 0) 51888) w = Some (Err (), w)" by (simp add: taken_bind_def)
  from taken_port_refuses[OF post_runtime.tokio_quiet_axioms taken taken_run] show ?thesis by blast
qed

end
