(* ===== verification/Startup.thy ===== *)
theory Startup
  imports Coordinator_Rules Server
begin

text \<open>
  The start of the program, \<open>src/main.rs\<close>: it reads the settings, writes them back, makes the
  channel of the coordinator and starts the two tasks that run for ever. Files and JSON are a record
  of operations of \<open>std::fs\<close> and \<open>serde_json\<close>; the installation of the log is
  left out.
\<close>

record ('h, 'f) files =
  file_open :: "string \<Rightarrow> ('h, unit, 'f) prog"
  file_create :: "string \<Rightarrow> ('h, unit, 'f) prog"
  json_from_reader :: "'h \<Rightarrow> (settings, unit, 'f) prog"
  json_to_writer :: "'h \<Rightarrow> settings \<Rightarrow> (unit, unit, 'f) prog"

text \<open>The conversions of the two kinds of error by \<open>?\<close>.\<close>

definition with_err :: "smo_error \<Rightarrow> ('a, unit, 'f) prog \<Rightarrow> ('a, smo_error, 'f) prog" where
  "with_err e m s = apfst (map_err (\<lambda>_. e)) (m s)"

definition settings_file :: string where
  "settings_file = ''./settings.json''"

definition read_settings :: "('h, 'f) files \<Rightarrow> (settings, smo_error, 'f) prog" where
  "read_settings F =
     bindp (with_err Io (file_open F settings_file)) (\<lambda>reader.
     bindp (with_err JsonError (json_from_reader F reader)) (\<lambda>st.
     ret st))"

definition save_settings :: "('h, 'f) files \<Rightarrow> settings \<Rightarrow> (unit, smo_error, 'f) prog" where
  "save_settings F st =
     bindp (with_err Io (file_create F settings_file)) (\<lambda>writer.
     bindp (with_err JsonError (json_to_writer F writer st)) (\<lambda>_.
     ret ()))"

text \<open>\<open>unwrap_or_default\<close> and \<open>expect\<close>.\<close>

definition settings_or_default :: "('h, 'f) files \<Rightarrow> ranks \<Rightarrow> (settings, smo_error, 'f) prog" where
  "settings_or_default F R f = (case read_settings F f of
       (Ok st, f) \<Rightarrow> (Ok st, f)
     | (Err e, f) \<Rightarrow> (Ok (settings_default R), f)
     | (Panic, f) \<Rightarrow> (Panic, f))"

definition expect_saved :: "('h, 'f) files \<Rightarrow> settings \<Rightarrow> (unit, smo_error, 'f) prog" where
  "expect_saved F st f = (case save_settings F st f of
       (Ok u, f) \<Rightarrow> (Ok (), f)
     | (_, f) \<Rightarrow> (Panic, f))"

definition on_files :: "('a, 'e, 'f) prog \<Rightarrow> ('a, 'e, 'f \<times> 'w) prog" where
  "on_files m = (\<lambda>(f, w). apsnd (\<lambda>f. (f, w)) (m f))"

text \<open>The hash maps of the coordinator start out with the iteration orders \<open>gr\<close> and \<open>hr\<close>.\<close>

definition create_default_server ::
  "('h, 'f) files \<Rightarrow> ('b, 's, 'u, 'x) tokio \<Rightarrow> ranks \<Rightarrow> (guid list \<Rightarrow> guid \<Rightarrow> nat) \<Rightarrow>
   (guid list \<Rightarrow> guid \<Rightarrow> nat) \<Rightarrow> (chan \<times> game_server \<times> coordinator, smo_error, 'f \<times> 'x shared) prog" where
  "create_default_server F rt R gr hr =
     bindp (\<lambda>(f, w). let (ch, w) = rt_channel rt 100 w in (Ok ch, (f, w))) (\<lambda>to_coord'.
     bindp (on_files (settings_or_default F R)) (\<lambda>st.
     bindp (on_files (expect_saved F st)) (\<lambda>_.
     bindp (\<lambda>(f, w). (Ok (), (f, w\<lparr>sh_settings := st, shine_bag := hm_new (shine_rank R)\<rparr>))) (\<lambda>_.
     ret (to_coord',
          \<lparr>srv_to_coord = to_coord', srv_udp_port = 51888\<rparr>,
          \<lparr>clients = hm_new gr, to_clients = hm_new hr, from_clients = to_coord'\<rparr>)))))"

text \<open>What \<open>main\<close> runs until both have ended.\<close>

datatype main_task = ListenTask game_server socket_addr | CoordTask coordinator

definition main_start ::
  "('h, 'f) files \<Rightarrow> ('b, 's, 'u, 'x) tokio \<Rightarrow> ranks \<Rightarrow> (guid list \<Rightarrow> guid \<Rightarrow> nat) \<Rightarrow>
   (guid list \<Rightarrow> guid \<Rightarrow> nat) \<Rightarrow> (main_task list, smo_error, 'f \<times> 'x shared) prog" where
  "main_start F rt R gr hr =
     bindp (create_default_server F rt R gr hr) (\<lambda>(_, srv, co).
     bindp (gets (\<lambda>(f, w). server (sh_settings w))) (\<lambda>st.
     let bind_addr = socket_addr_new (address st) (port st) in
     ret [ListenTask srv bind_addr, CoordTask co]))"

section \<open>The console\<close>

text \<open>
  The task for commands typed at the console, which \<open>main\<close> does not start. \<open>rd\<close> reads and parses
  one line.
\<close>

definition parse_command ::
  "(cli_command, smo_error, 'x shared) async \<Rightarrow> ('b, 's, 'u, 'x) tokio \<Rightarrow> chan \<Rightarrow> (unit, smo_error, 'x shared) async" where
  "parse_command rd rt ch = abind rd (\<lambda>cmd. send rt ch (CliCmd cmd))"

partial_function (option) parse_commands ::
  "(cli_command, smo_error, 'x shared) async \<Rightarrow> ('b, 's, 'u, 'x) tokio \<Rightarrow> chan \<Rightarrow> (unit, smo_error, 'x shared) async" where
  "parse_commands rd rt ch w =
     abind (atry (parse_command rd rt ch)) (\<lambda>command_result w. parse_commands rd rt ch w) w"

section \<open>Properties\<close>

lemma with_err_run [simp]:
  "with_err e m s = (Ok a, s') \<longleftrightarrow> m s = (Ok a, s')"
  "with_err e m s = (Panic, s') \<longleftrightarrow> m s = (Panic, s')"
  by (cases "m s"; cases "fst (m s)"; auto simp: with_err_def)+

lemma on_files_Ok: "on_files m (f, w) = (Ok a, s') \<longleftrightarrow> (\<exists>f'. m f = (Ok a, f') \<and> s' = (f', w))"
  by (cases "m f") (auto simp: on_files_def)

lemma with_err_cases:
  "with_err e m s = (case m s of (Ok a, s') \<Rightarrow> (Ok a, s') | (Err u, s') \<Rightarrow> (Err e, s') | (Panic, s') \<Rightarrow> (Panic, s'))"
  by (cases "m s"; cases "fst (m s)") (auto simp: with_err_def)

lemma settings_or_default_run:
  assumes "\<And>n s. fst (file_open F n s) \<noteq> Panic" and "\<And>h s. fst (json_from_reader F h s) \<noteq> Panic"
  obtains st f1 where "settings_or_default F R f = (Ok st, f1)"
    and "case file_open F ''./settings.json'' f of
        (Ok h, fo) \<Rightarrow> (case json_from_reader F h fo of
            (Ok x, fr) \<Rightarrow> st = x \<and> f1 = fr
          | (_, fr) \<Rightarrow> st = settings_default R \<and> f1 = fr)
      | (_, fo) \<Rightarrow> st = settings_default R \<and> f1 = fo"
proof -
  obtain q fo where o: "file_open F ''./settings.json'' f = (q, fo)" by fastforce
  show thesis
  proof (cases q)
    case (Ok h)
    obtain x fr where "json_from_reader F h fo = (x, fr)" by fastforce
    with o Ok assms(2)[of h fo] that show thesis
      by (cases x) (simp_all add: settings_or_default_def read_settings_def settings_file_def with_err_cases bindp_def)
  next
    case (Err e)
    with o that show thesis
      by (simp add: settings_or_default_def read_settings_def settings_file_def with_err_cases bindp_def)
  next
    case Panic
    with o assms(1)[of "''./settings.json''" f] show thesis by simp
  qed
qed

lemma expect_saved_run:
  assumes "expect_saved F st f = (r, f')"
  shows "r = (if \<exists>h f2. file_create F ''./settings.json'' f = (Ok h, f2) \<and> json_to_writer F h st f2 = (Ok (), f')
        then Ok () else Panic)"
proof -
  obtain q f2 where c: "file_create F ''./settings.json'' f = (q, f2)" by fastforce
  show ?thesis
  proof (cases q)
    case (Ok h)
    obtain p f3 where "json_to_writer F h st f2 = (p, f3)" by fastforce
    with assms c Ok show ?thesis
      by (cases p) (auto simp: expect_saved_def save_settings_def settings_file_def with_err_cases bindp_def ret_def)
  qed (use assms c in \<open>simp_all add: expect_saved_def save_settings_def settings_file_def with_err_cases bindp_def\<close>)
qed

text \<open>
  C40. How the server starts. Its settings are those of \<open>./settings.json\<close> where this file can be opened
  and parsed, and the defaults in every other case. It writes them back to the same file; where the
  file cannot be created or written, it panics instead of starting. Otherwise it starts two tasks:
  the listener, bound to the address and the port of these settings, with 51888 as its first UDP
  port, and the coordinator, with empty and proper maps, reading the new channel that the listener
  hands to the clients. The shared memory starts with these settings and no shines.
\<close>
theorem startup_state:
  assumes "main_start F rt R gr hr (f, w) = (r, (f', w'))" and "rt_channel rt 100 w = (ch, w1)"
    and "\<And>n s. fst (file_open F n s) \<noteq> Panic" and "\<And>h s. fst (json_from_reader F h s) \<noteq> Panic"
  shows "\<exists>st f1.
      (case file_open F ''./settings.json'' f of
         (Ok h, fo) \<Rightarrow> (case json_from_reader F h fo of
             (Ok x, fr) \<Rightarrow> st = x \<and> f1 = fr
           | (_, fr) \<Rightarrow> st = settings_default R \<and> f1 = fr)
       | (_, fo) \<Rightarrow> st = settings_default R \<and> f1 = fo)
    \<and> (if \<exists>h f2. file_create F ''./settings.json'' f1 = (Ok h, f2) \<and> json_to_writer F h st f2 = (Ok (), f')
       then sh_settings w' = st \<and> hs_set (shine_bag w') = {}
         \<and> (\<exists>srv co. r = Ok [ListenTask srv (socket_addr_new (address (server st)) (port (server st))), CoordTask co]
           \<and> coord_ok co \<and> hm_len (clients co) = 0 \<and> hm_len (to_clients co) = 0
           \<and> from_clients co = ch \<and> srv_to_coord srv = ch \<and> srv_udp_port srv = 51888)
       else r = Panic)"
proof -
  obtain st f1 where st: "settings_or_default F R f = (Ok st, f1)"
    and read: "case file_open F ''./settings.json'' f of
        (Ok h, fo) \<Rightarrow> (case json_from_reader F h fo of
            (Ok x, fr) \<Rightarrow> st = x \<and> f1 = fr
          | (_, fr) \<Rightarrow> st = settings_default R \<and> f1 = fr)
      | (_, fo) \<Rightarrow> st = settings_default R \<and> f1 = fo"
    by (rule settings_or_default_run[OF assms(3,4)])
  obtain q f2 where save: "expect_saved F st f1 = (q, f2)" by fastforce
  note q = expect_saved_run[OF save]
  show ?thesis
  proof (intro exI conjI)
    show "if \<exists>h f2. file_create F ''./settings.json'' f1 = (Ok h, f2) \<and> json_to_writer F h st f2 = (Ok (), f')
       then sh_settings w' = st \<and> hs_set (shine_bag w') = {}
         \<and> (\<exists>srv co. r = Ok [ListenTask srv (socket_addr_new (address (server st)) (port (server st))), CoordTask co]
           \<and> coord_ok co \<and> hm_len (clients co) = 0 \<and> hm_len (to_clients co) = 0
           \<and> from_clients co = ch \<and> srv_to_coord srv = ch \<and> srv_udp_port srv = 51888)
       else r = Panic"
      using assms(1,2) st save q
      by (cases q)
        (auto simp: main_start_def create_default_server_def bindp_def on_files_def coord_ok_def Let_def
          split: if_splits)
  qed (rule read)
qed

text \<open>A machine without the file.\<close>

definition no_file :: "(unit, settings list) files" where
  "no_file = \<lparr>file_open = (\<lambda>name. throw ()), file_create = (\<lambda>name. ret ()),
     json_from_reader = (\<lambda>h. throw ()), json_to_writer = (\<lambda>h st f. (Ok (), f @ [st]))\<rparr>"

definition start_world :: "test_post shared" where
  "start_world = (snd (rt_channel post_tokio 100 sample_world))
     \<lparr>sh_settings := settings_default sample_ranks, shine_bag := hm_new (shine_rank sample_ranks)\<rparr>"

lemma no_file_run:
  "main_start no_file post_tokio sample_ranks (\<lambda>_ _. 0) (\<lambda>_ _. 0) ([], sample_world) =
     (Ok [ListenTask \<lparr>srv_to_coord = 2, srv_udp_port = 51888\<rparr> (SocketV4 0 1027),
          CoordTask \<lparr>clients = hm_new (\<lambda>_ _. 0), to_clients = hm_new (\<lambda>_ _. 0), from_clients = 2\<rparr>],
      ([settings_default sample_ranks], start_world))"
  by (simp add: main_start_def create_default_server_def bindp_def on_files_def settings_or_default_def expect_saved_def
      read_settings_def save_settings_def with_err_def no_file_def start_world_def sample_world_def settings_default_def
      server_settings_default_def)

theorem startup_state_witness:
  "sh_settings start_world = settings_default sample_ranks \<and> hs_set (shine_bag start_world) = {}
    \<and> (\<exists>srv co. [ListenTask \<lparr>srv_to_coord = 2, srv_udp_port = 51888\<rparr> (SocketV4 0 1027),
          CoordTask \<lparr>clients = hm_new (\<lambda>_ _. 0), to_clients = hm_new (\<lambda>_ _. 0), from_clients = 2\<rparr>] =
        [ListenTask srv (socket_addr_new (address (server (settings_default sample_ranks)))
           (port (server (settings_default sample_ranks)))), CoordTask co]
      \<and> coord_ok co \<and> from_clients co = 2 \<and> srv_to_coord srv = 2)"
proof -
  have ch: "rt_channel post_tokio 100 sample_world = (2, snd (rt_channel post_tokio 100 sample_world))"
    by (simp add: sample_world_def)
  have files: "file_open no_file n s = (Err (), s)" "json_from_reader no_file h s = (Err (), s)"
    "file_create no_file n s = (Ok (), s)" "json_to_writer no_file h st s = (Ok (), s @ [st])" for n s h st
    by (simp_all add: no_file_def throw_def ret_def)
  have "fst (file_open no_file n s) \<noteq> Panic" "fst (json_from_reader no_file h s) \<noteq> Panic" for n s h
    by (simp_all add: files)
  from startup_state[OF no_file_run ch this] show ?thesis
    by (simp add: files)
qed

end
