(* ===== verification/Console.thy ===== *)
theory Console
  imports Startup
begin

text \<open>
  What is left of \<open>src/main.rs\<close>: reading a command from the console, the panic hook, and the client of
  its test. The parser that clap derives for the command line is a parameter, as are the console and
  the way a test connects. Text of the console is a list of characters, each by its code point.
\<close>

type_synonym line = "u32 list"

section \<open>Text\<close>

text \<open>\<open>char::is_whitespace\<close>, \<open>str::trim\<close> and \<open>str::split\<close> at a character.\<close>

definition is_whitespace :: "u32 \<Rightarrow> bool" where
  "is_whitespace c \<longleftrightarrow> 9 \<le> c \<and> c \<le> 13 \<or> 0x2000 \<le> c \<and> c \<le> 0x200A
     \<or> c \<in> {0x20, 0x85, 0xA0, 0x1680, 0x2028, 0x2029, 0x202F, 0x205F, 0x3000}"

definition trim_start :: "line \<Rightarrow> line" where
  "trim_start = dropWhile is_whitespace"

definition trim_end :: "line \<Rightarrow> line" where
  "trim_end s = rev (dropWhile is_whitespace (rev s))"

definition trim :: "line \<Rightarrow> line" where
  "trim s = trim_end (trim_start s)"

fun split_char :: "u32 \<Rightarrow> line \<Rightarrow> line list" where
  "split_char c [] = [[]]"
| "split_char c (x # xs) = (if x = c then [] # split_char c xs
     else (case split_char c xs of w # ws \<Rightarrow> (x # w) # ws | [] \<Rightarrow> [[x]]))"

section \<open>The console\<close>

text \<open>
  \<open>print!\<close> (which panics where standard output is gone), \<open>flush\<close>, and \<open>read_line\<close>: the line with its
  newline, which the code has appended to its buffer.
\<close>

record 'x console =
  print_out :: "line \<Rightarrow> (unit, unit, 'x) prog"
  flush_out :: "(unit, unit, 'x) prog"
  read_in_line :: "(line, unit, 'x) prog"

definition prompt :: line where
  "prompt = [0x3E, 0x20]"

definition read_command :: "'x console \<Rightarrow> (line list \<Rightarrow> cli_command option) \<Rightarrow> (cli_command, smo_error, 'x) prog" where
  "read_command C parse =
     bindp (with_err Io (print_out C prompt)) (\<lambda>_.
     bindp (with_err Io (flush_out C)) (\<lambda>_.
     bindp (with_err Io (read_in_line C)) (\<lambda>text.
     let input = split_char 0x20 (trim (prompt @ text)) in
     case parse input of None \<Rightarrow> throw Clap | Some cmd \<Rightarrow> ret cmd)))"

text \<open>
  The task of \<open>parse_command\<close>: the closure it spawns on a blocking thread only makes the future, so the
  reading itself happens where that is awaited.
\<close>

definition console_command :: "'x console \<Rightarrow> (line list \<Rightarrow> cli_command option) \<Rightarrow> (cli_command, smo_error, 'x shared) async" where
  "console_command C parse = sync (\<lambda>e. e) (\<lambda>w. apsnd (\<lambda>x. w\<lparr>runtime := x\<rparr>) (read_command C parse (runtime w)))"

section \<open>The panic hook\<close>

text \<open>The exit code with which a panicking task ends the process.\<close>

definition panic_hook :: "('a, 'e) res \<Rightarrow> nat option" where
  "panic_hook r = (case r of Panic \<Rightarrow> Some 1 | _ \<Rightarrow> None)"

section \<open>The client of the test\<close>

text \<open>
  \<open>result\<close> is the variable the loop tests. The body of the loop binds another one of that name. The
  sleep of a second is time only.
\<close>

partial_function (option) fake_loop ::
  "'b bytes_crate \<Rightarrow> ('b, 'n, 's) tcp \<Rightarrow> (packet, smo_error) res \<Rightarrow> (unit, smo_error, ('b, 's) connection) async" where
  "fake_loop K T result c = (case result of
       Err e \<Rightarrow> abind (atry (read_packet K T)) (\<lambda>_ c. fake_loop K T result c) c
     | _ \<Rightarrow> aret () c)"

definition fake_client ::
  "'b bytes_crate \<Rightarrow> ('b, 'n, 's) tcp \<Rightarrow> (socket_addr \<Rightarrow> ('n, unit) res) \<Rightarrow> socket_addr \<Rightarrow> (unit, smo_error) res option" where
  "fake_client K T dial addr = (case dial addr of
       Err e \<Rightarrow> Some (Err Io)
     | Panic \<Rightarrow> Some Panic
     | Ok stream \<Rightarrow> (case connection_new K T stream of
           Err e \<Rightarrow> Some (Err e)
         | Panic \<Rightarrow> Some Panic
         | Ok c \<Rightarrow> map_option fst (fake_loop K T (Err (Encoding CustomError)) c)))"

section \<open>What the parser is given\<close>

lemma trim_prompt:
  "trim (prompt @ text) = (if list_all is_whitespace text then [0x3E] else prompt @ trim_end text)"
proof -
  have "trim_start (prompt @ text) = prompt @ text"
    by (simp add: trim_start_def prompt_def is_whitespace_def)
  moreover have "trim_end (prompt @ text) = (if list_all is_whitespace text then [0x3E] else prompt @ trim_end text)"
    by (auto simp: trim_end_def prompt_def is_whitespace_def[of 62] is_whitespace_def[of 32] dropWhile_append
        list_all_iff)
  ultimately show ?thesis by (simp add: trim_def)
qed

text \<open>
  The prompt stands before the line, and what clap takes for the name of the program is the prompt;
  the arguments are what the line has between single spaces, empty ones where there are two.
\<close>

lemma read_command_words:
  assumes "print_out C prompt x = (Ok (), x1)" and "flush_out C x1 = (Ok (), x2)" and "read_in_line C x2 = (Ok text, x3)"
  shows "read_command C parse x = (case parse ([0x3E] # (if list_all is_whitespace text then [] else split_char 0x20 (trim_end text))) of
      None \<Rightarrow> (Err Clap, x3) | Some cmd \<Rightarrow> (Ok cmd, x3))"
proof -
  have "split_char 0x20 (trim (prompt @ text)) =
      [0x3E] # (if list_all is_whitespace text then [] else split_char 0x20 (trim_end text))"
    unfolding trim_prompt by (simp add: prompt_def)
  with assms show ?thesis
    by (simp add: read_command_def with_err_def bindp_def split: option.splits)
qed

lemma split_char_join:
  "split_char c s \<noteq> [] \<and> concat (map (\<lambda>w. w @ [c]) (split_char c s)) = s @ [c] \<and> (\<forall>w \<in> set (split_char c s). c \<notin> set w)"
  by (induction s) (auto split: list.splits)

section \<open>Loops without an end\<close>

lemma atry_turn:
  assumes "abind (atry m) f s = Some y" and "\<And>a s1. f a s1 = Some y \<Longrightarrow> fst y = Panic"
  shows "fst y = Panic"
proof -
  from assms(1) have "abind (atry m) f s = Some (fst y, snd y)" by simp
  then show ?thesis by (cases rule: abind_cases) (auto simp: atry_eq dest: assms(2))
qed

text \<open>The loop of the console ends by a panic or not at all.\<close>

lemma parse_commands_forever:
  fixes rt :: "('b, 's, 'u, 'x) tokio"
  assumes "parse_commands rd rt ch w = Some (r, w')"
  shows "r = Panic"
proof -
  have "fst y = Panic" if "parse_commands rd rt ch w = Some y" for rd :: "(cli_command, smo_error, 'x shared) async"
      and rt :: "('b, 's, 'u, 'x) tokio" and ch w y
    by (rule parse_commands.raw_induct[where P = "\<lambda>rd rt ch w y. fst y = Panic", OF _ that]) (blast intro: atry_turn)
  from this[OF assms] show ?thesis by simp
qed

text \<open>
  The client of the test goes on reading for ever: the variable its loop tests is never assigned. So
  the test, which waits for it before it shuts the server down, does not end.
\<close>

lemma fake_loop_forever:
  fixes K :: "'b bytes_crate" and T :: "('b, 'n, 's) tcp"
  assumes "fake_loop K T (Err e) c = Some (r, c')"
  shows "r = Panic"
proof -
  have "result = Err e \<longrightarrow> fst y = Panic" if "fake_loop K T result c = Some y"
    for K :: "'b bytes_crate" and T :: "('b, 'n, 's) tcp" and result c y
  proof (rule fake_loop.raw_induct[where P = "\<lambda>K T result c y. result = Err e \<longrightarrow> fst y = Panic", OF _ that], intro impI)
    fix F :: "'b bytes_crate \<Rightarrow> ('b, 'n, 's) tcp \<Rightarrow> (packet, smo_error) res \<Rightarrow> (unit, smo_error, ('b, 's) connection) async"
      and K T result c y
    assume step: "\<And>K T result c y. F K T result c = Some y \<Longrightarrow> result = Err e \<longrightarrow> fst y = Panic"
      and body: "(case result of Err e \<Rightarrow> abind (atry (read_packet K T)) (\<lambda>_ c. F K T result c) c | _ \<Rightarrow> aret () c) = Some y"
      and "result = Err e"
    then have "abind (atry (read_packet K T)) (\<lambda>_ c. F K T (Err e) c) c = Some y" by simp
    then show "fst y = Panic" by (rule atry_turn) (use step in blast)
  qed
  from this[OF assms] show ?thesis by simp
qed

lemma fake_client_never_done: "fake_client K T dial addr \<noteq> Some (Ok ())"
  using fake_loop_forever[of K T]
  by (auto simp: fake_client_def split: res.splits)

text \<open>
  The coordinator has no code for a command of the console, and the panic hook ends the process: which
  is why \<open>main\<close> does not start the console.
\<close>

lemma console_command_ends_process:
  assumes "coord_handle_command T rt (CliCmd c) s = Some (r, s')"
  shows "panic_hook r = Some 1"
  using assms by (simp add: coord_handle_command_def panic_hook_def)

end
