(* ===== verification/Proxy.thy ===== *)
theory Proxy
  imports Client_Facts
begin

text \<open>
  The proxy, \<open>examples/proxy/src/main.rs\<close>: a program that stands between a game without UDP and a
  server, or, the other way round, between a game and a server without UDP. For each game it opens
  a connection to the server and hands packets from one side to the other, positions over UDP on
  the side that has it.
\<close>

datatype proxy_origin = OClient | OServer

fun origin_not :: "proxy_origin \<Rightarrow> proxy_origin" where
  "origin_not OClient = OServer"
| "origin_not OServer = OClient"

type_synonym local_addrs = "socket_addr \<times> socket_addr"
type_synonym remote_addrs = "socket_addr \<times> socket_addr \<times> proxy_origin"

section \<open>The arguments\<close>

text \<open>
  \<open>parse\<close> is \<open>SocketAddr::from_str\<close>, \<open>resolve\<close> asks the DNS for the addresses of a server; \<open>None\<close> is
  a panic: a missing argument or one that is no address.
\<close>

definition the_or :: "'a option \<Rightarrow> ('a \<Rightarrow> 'b option) \<Rightarrow> 'b option" where
  "the_or x f = Option.bind x f"

definition arg :: "string list \<Rightarrow> nat \<Rightarrow> string option" where
  "arg args n = (if n < length args then Some (args ! n) else None)"

definition proxy_config ::
  "(string \<Rightarrow> socket_addr option) \<Rightarrow> (string \<Rightarrow> socket_addr list option) \<Rightarrow> string list \<Rightarrow>
   (local_addrs \<times> remote_addrs) option" where
  "proxy_config parse resolve args =
     the_or (arg args 1) (\<lambda>proxy_type.
     if proxy_type = ''client'' then
       the_or (parse ''0.0.0.0:1027'') (\<lambda>tcp. the_or (parse ''0.0.0.0:55446'') (\<lambda>udp.
       the_or (parse ''192.168.1.39:1028'') (\<lambda>rtcp. the_or (parse ''192.168.1.39:55445'') (\<lambda>rudp.
       Some ((tcp, udp), (rtcp, rudp, OServer))))))
     else if proxy_type = ''server'' then
       the_or (parse ''0.0.0.0:61885'') (\<lambda>tcp. the_or (parse ''0.0.0.0:55445'') (\<lambda>udp.
       the_or (parse ''64.201.219.20:1027'') (\<lambda>rtcp. the_or (parse ''192.168.1.39:55446'') (\<lambda>rudp.
       Some ((tcp, udp), (rtcp, rudp, OClient))))))
     else if proxy_type = ''proxy'' then
       the_or (arg args 2) (\<lambda>serv_ip. the_or (arg args 3) (\<lambda>local_tcp_ip. the_or (arg args 4) (\<lambda>local_udp_ip.
       the_or (parse local_tcp_ip) (\<lambda>tcp. the_or (parse local_udp_ip) (\<lambda>udp.
       the_or (resolve serv_ip) (\<lambda>server_addrs.
       the_or (case server_addrs of addr # _ \<Rightarrow> Some addr | [] \<Rightarrow> parse serv_ip) (\<lambda>server_addr.
       the_or (parse ''127.0.0.1:55445'') (\<lambda>junk.
       Some ((tcp, udp), (server_addr, junk, OServer))))))))))
     else None)"

section \<open>One game\<close>

record ('b, 's, 'u) proxy =
  px_cli :: "('b, 's) connection"
  px_serv :: "('b, 's) connection"
  px_udp :: "('b, 'u) udp_connection"
  px_use_udp :: bool
  px_last_tag :: nat

definition on_cli :: "('a, 'e, ('b, 's) connection) async \<Rightarrow> ('a, 'e, ('b, 's, 'u) proxy) async" where
  "on_cli = zoom px_cli (\<lambda>k x. x\<lparr>px_cli := k\<rparr>)"

definition on_serv :: "('a, 'e, ('b, 's) connection) async \<Rightarrow> ('a, 'e, ('b, 's, 'u) proxy) async" where
  "on_serv = zoom px_serv (\<lambda>k x. x\<lparr>px_serv := k\<rparr>)"

definition on_pudp :: "('a, 'e, ('b, 'u) udp_connection) async \<Rightarrow> ('a, 'e, ('b, 's, 'u) proxy) async" where
  "on_pudp = zoom px_udp (\<lambda>k x. x\<lparr>px_udp := k\<rparr>)"

text \<open>The branch of \<open>select!\<close> that wins.\<close>

datatype px_source = PxUdp | PxCli | PxServ

definition px_read ::
  "'b bytes_crate \<Rightarrow> ('b, 'n, 's) tcp \<Rightarrow> 'u udp \<Rightarrow> proxy_origin \<Rightarrow> px_source \<Rightarrow>
   (proxy_origin \<times> packet, smo_error, ('b, 's, 'u) proxy) async" where
  "px_read K T U plex src = (case src of
       PxUdp \<Rightarrow> abind (on_pudp (udp_read_packet K U)) (\<lambda>p. aret (plex, p))
     | PxCli \<Rightarrow> abind (on_cli (read_packet K T)) (\<lambda>p. aret (OClient, p))
     | PxServ \<Rightarrow> abind (on_serv (read_packet K T)) (\<lambda>p. aret (OServer, p)))"

text \<open>\<open>await.unwrap()\<close>.\<close>

definition await_unwrap :: "('a, 'e, 's) async \<Rightarrow> ('a, 'f, 's) async" where
  "await_unwrap m s = map_option (\<lambda>(r, s). (case r of Ok a \<Rightarrow> Ok a | _ \<Rightarrow> Panic, s)) (m s)"

text \<open>Where a packet goes that is handed on.\<close>

definition px_route ::
  "'b bytes_crate \<Rightarrow> ('b, 'n, 's) tcp \<Rightarrow> 'u udp \<Rightarrow> proxy_origin \<Rightarrow> proxy_origin \<Rightarrow> packet \<Rightarrow>
   (unit, smo_error, ('b, 's, 'u) proxy) async" where
  "px_route K T U plex origin p x =
     (let dest = (case origin of OClient \<Rightarrow> on_serv (write_packet K T p) | OServer \<Rightarrow> on_cli (write_packet K T p)) in
      if px_use_udp x \<and> origin \<noteq> plex then
        (case pkt_data p of
           Player pos rot weights act sub_act \<Rightarrow> await_unwrap (on_pudp (udp_write_packet K U p)) x
         | Cap pos rot cap_out cap_anim \<Rightarrow> await_unwrap (on_pudp (udp_write_packet K U p)) x
         | _ \<Rightarrow> dest x)
      else dest x)"

text \<open>What the loop does with a packet; \<open>now\<close> is the time.\<close>

definition px_handle ::
  "'b bytes_crate \<Rightarrow> ('b, 'n, 's) tcp \<Rightarrow> 'u udp \<Rightarrow> proxy_origin \<Rightarrow> u16 \<Rightarrow> nat \<Rightarrow> proxy_origin \<times> packet \<Rightarrow>
   (unit, smo_error, ('b, 's, 'u) proxy) async" where
  "px_handle K T U plex loc_udp_port now = (\<lambda>(origin, p).
     let p = resize p in
     (case pkt_data p of
        Tag update_type is_it seconds minutes \<Rightarrow>
          abind (amodify (\<lambda>x. x\<lparr>px_last_tag := now\<rparr>)) (\<lambda>_. px_route K T U plex origin p)
      | UdpInit udp_port \<Rightarrow>
          abind (amodify (\<lambda>x. x\<lparr>px_udp := set_client_port udp_port (px_udp x)\<rparr>)) (\<lambda>_.
          abind (from_res (packet_new guid_default (UdpInit loc_udp_port))) (\<lambda>q.
          on_serv (write_packet K T q)))
      | _ \<Rightarrow> px_route K T U plex origin p))"

definition px_turn ::
  "'b bytes_crate \<Rightarrow> ('b, 'n, 's) tcp \<Rightarrow> 'u udp \<Rightarrow> proxy_origin \<Rightarrow> u16 \<Rightarrow> (('b, 's, 'u) proxy \<Rightarrow> px_source) \<Rightarrow>
   (('b, 's, 'u) proxy \<Rightarrow> nat) \<Rightarrow> (unit, smo_error, ('b, 's, 'u) proxy) async" where
  "px_turn K T U plex loc_udp_port pick clock x =
     abind (px_read K T U plex (pick x)) (\<lambda>ev x. px_handle K T U plex loc_udp_port (clock x) ev x) x"

partial_function (option) px_loop ::
  "'b bytes_crate \<Rightarrow> ('b, 'n, 's) tcp \<Rightarrow> 'u udp \<Rightarrow> proxy_origin \<Rightarrow> u16 \<Rightarrow> (('b, 's, 'u) proxy \<Rightarrow> px_source) \<Rightarrow>
   (('b, 's, 'u) proxy \<Rightarrow> nat) \<Rightarrow> (unit, smo_error, ('b, 's, 'u) proxy) async" where
  "px_loop K T U plex loc_udp_port pick clock x =
     abind (px_turn K T U plex loc_udp_port pick clock) (\<lambda>_ x. px_loop K T U plex loc_udp_port pick clock x) x"

text \<open>
  \<open>connect\<close> opens the connection to the server (with the socket made by \<open>new_v4\<close>), \<open>bind\<close> the UDP
  socket; the \<open>unwrap\<close>s and \<open>expect\<close>s are panics.
\<close>

definition proxy_client ::
  "'b bytes_crate \<Rightarrow> ('b, 'n, 's) tcp \<Rightarrow> 'u udp \<Rightarrow> (socket_addr \<Rightarrow> ('n, unit, 'w) async) \<Rightarrow>
   (socket_addr \<Rightarrow> ('u, unit, 'w) async) \<Rightarrow> (('b, 's, 'u) proxy \<Rightarrow> px_source) \<Rightarrow> (('b, 's, 'u) proxy \<Rightarrow> nat) \<Rightarrow> nat \<Rightarrow>
   'n \<Rightarrow> socket_addr \<Rightarrow> remote_addrs \<Rightarrow> (unit, smo_error, 'w) async" where
  "proxy_client K T U connect bind pick clock start cli_sock udp_addr_loc = (\<lambda>(addr, udp_addr, plex).
     abind (io (connect addr)) (\<lambda>serv_sock.
     abind (the_or_panic (tcp_peer_addr T serv_sock)) (\<lambda>serv_tcp_addr.
     let serv_udp_addr = socket_addr_new (addr_ip serv_tcp_addr) (addr_port udp_addr) in
     abind (await_unwrap (bind udp_addr_loc)) (\<lambda>udp.
     abind (the_or_panic (udp_local_addr U udp)) (\<lambda>loc_udp_addr.
     abind (from_res (connection_new K T cli_sock)) (\<lambda>cli.
     abind (from_res (connection_new K T serv_sock)) (\<lambda>serv.
     abind (locally (px_loop K T U plex (addr_port loc_udp_addr) pick clock)
              \<lparr>px_cli = cli, px_serv = serv, px_udp = from_connection K udp serv_udp_addr,
               px_use_udp = True, px_last_tag = start\<rparr>) (\<lambda>_.
     aret ()))))))))"

section \<open>Runs on a part\<close>

lemma px_part:
  "on_cli m x = Some (r, x') \<longleftrightarrow> (\<exists>k. m (px_cli x) = Some (r, k) \<and> x' = x\<lparr>px_cli := k\<rparr>)"
  "on_serv m x = Some (r, x') \<longleftrightarrow> (\<exists>k. m (px_serv x) = Some (r, k) \<and> x' = x\<lparr>px_serv := k\<rparr>)"
  "on_pudp m' x = Some (r, x') \<longleftrightarrow> (\<exists>u. m' (px_udp x) = Some (r, u) \<and> x' = x\<lparr>px_udp := u\<rparr>)"
  by (auto simp: on_cli_def on_serv_def on_pudp_def zoom_def)

lemma await_unwrap_Ok [simp]: "await_unwrap m s = Some (Ok a, s') \<longleftrightarrow> m s = Some (Ok a, s')"
  by (cases "m s"; cases "fst (the (m s))"; force simp: await_unwrap_def)

lemma px_route_cases:
  "px_route K T U plex origin p x =
     (if px_use_udp x \<and> origin \<noteq> plex \<and> movement p then await_unwrap (on_pudp (udp_write_packet K U p)) x
      else if origin = OClient then on_serv (write_packet K T p) x
      else on_cli (write_packet K T p) x)"
  by (cases origin) (auto simp: px_route_def movement_def Let_def split: packet_data.splits)


section \<open>The games\<close>

text \<open>
  \<open>main\<close> after the arguments: every accepted connection gets a task of its own, with the same
  addresses. \<open>spawn\<close> starts the task for a socket; its errors are logged.
\<close>

definition proxy_task ::
  "(unit, smo_error, 'w) async \<Rightarrow> (unit, 'e, 'w) async" where
  "proxy_task m = abind (atry m) (\<lambda>result. aret ())"

partial_function (option) proxy_accept ::
  "('l \<Rightarrow> ('n \<times> socket_addr, unit, 'w) async) \<Rightarrow> ('n \<Rightarrow> socket_addr \<Rightarrow> remote_addrs \<Rightarrow> 'w \<Rightarrow> 'w) \<Rightarrow> local_addrs \<Rightarrow>
   remote_addrs \<Rightarrow> 'l \<Rightarrow> (unit, smo_error, 'w) async" where
  "proxy_accept accept spawn local_bind remotes listener s =
     abind (io (accept listener)) (\<lambda>(from_socket, _).
     abind (amodify (spawn from_socket (snd local_bind) remotes)) (\<lambda>_ s.
     proxy_accept accept spawn local_bind remotes listener s)) s"

definition proxy_main ::
  "(string \<Rightarrow> socket_addr option) \<Rightarrow> (string \<Rightarrow> socket_addr list option) \<Rightarrow> (socket_addr \<Rightarrow> ('l, unit, 'w) async) \<Rightarrow>
   ('l \<Rightarrow> ('n \<times> socket_addr, unit, 'w) async) \<Rightarrow> ('n \<Rightarrow> socket_addr \<Rightarrow> remote_addrs \<Rightarrow> 'w \<Rightarrow> 'w) \<Rightarrow> string list \<Rightarrow>
   (unit, smo_error, 'w) async" where
  "proxy_main parse resolve listen accept spawn args =
     abind (the_or_panic (proxy_config parse resolve args)) (\<lambda>(local_bind, remotes).
     abind (io (listen (fst local_bind))) (\<lambda>listener.
     proxy_accept accept spawn local_bind remotes listener))"

section \<open>One turn\<close>

text \<open>The socket on one side.\<close>

definition px_side :: "proxy_origin \<Rightarrow> ('b, 's, 'u) proxy \<Rightarrow> 's" where
  "px_side side x = conn_socket (case side of OClient \<Rightarrow> px_cli x | OServer \<Rightarrow> px_serv x)"

lemma px_read_silent:
  assumes "tcp_impl K T rx tx" and "udp_impl K U got sent"
    and "px_read K T U plex src x = Some (Ok (origin, p), x1)"
  shows "tx (px_side side x1) = tx (px_side side x)"
    and "sent (udp_socket (px_udp x1)) = sent (udp_socket (px_udp x))"
    and "send_addr (px_udp x1) = send_addr (px_udp x)" and "px_use_udp x1 = px_use_udp x"
  using assms(3) tcp_impl.read_packet_keeps(1)[OF assms(1)] udp_impl.udp_read_packet_log[OF assms(2)]
  by (cases side; auto simp: px_read_def px_side_def px_part abind_eq_Ok split: px_source.splits; blast)+

lemma px_route_effect:
  assumes "tcp_impl K T rx tx" and "udp_impl K U got sent"
    and "sized_packet p" and "20 + get_size (pkt_data p) \<le> usize_max"
    and "px_route K T U plex origin p x = Some (Ok (), x')"
  shows "if px_use_udp x \<and> origin \<noteq> plex \<and> movement p
     then (\<exists>a. send_addr (px_udp x) = Connected a
         \<and> sent (udp_socket (px_udp x')) = sent (udp_socket (px_udp x)) @ [(packet_bytes p, a)])
       \<and> (\<forall>side. px_side side x' = px_side side x)
     else written T tx (packet_bytes p) (px_side (origin_not origin) x) (px_side (origin_not origin) x')
       \<and> px_side origin x' = px_side origin x \<and> udp_socket (px_udp x') = udp_socket (px_udp x)"
proof (cases "px_use_udp x \<and> origin \<noteq> plex \<and> movement p")
  case True
  with assms(5) obtain u where u: "udp_write_packet K U p (px_udp x) = Some (Ok (), u)" and x': "x' = x\<lparr>px_udp := u\<rparr>"
    by (auto simp: px_route_cases px_part)
  obtain a s where "send_addr (px_udp x) = Connected a" "u = (px_udp x)\<lparr>udp_socket := s\<rparr>"
    "sent s = sent (udp_socket (px_udp x)) @ [(packet_bytes p, a)]"
    by (rule udp_impl.udp_write_Ok[OF assms(2) u assms(3,4)])
  with x' True show ?thesis by (auto simp: px_side_def split: proxy_origin.splits)
next
  case False
  with assms(5) tcp_impl.write_packet_written(1)[OF assms(1) _ assms(3,4)] show ?thesis
    by (cases origin) (auto simp: px_route_cases px_part px_side_def)
qed

section \<open>Properties\<close>

text \<open>
  C33. What one turn of the proxy does with the packet it reads. Reading sends nothing. The packet is
  then written to the side it does not come from, with its size set right, in one \<open>write_packet\<close>, so
  once and whole if that socket takes it in one piece; or, where it is a position and the other side
  speaks UDP, it is one datagram to the peer there. A \<open>UdpInit\<close> goes no further: the proxy sends to
  the port it names from now on, and writes the server its own port. No other socket is touched.
\<close>
theorem proxy_turn_effect:
  assumes "tcp_impl K T rx tx" and "udp_impl K U got sent"
    and "px_turn K T U plex port0 pick clock x = Some (Ok (), x')"
    and "px_read K T U plex (pick x) x = Some (Ok (origin, p), x1)"
    and "sized_packet p" and "20 + get_size (pkt_data p) \<le> usize_max"
  shows "(\<forall>side. tx (px_side side x1) = tx (px_side side x))
     \<and> sent (udp_socket (px_udp x1)) = sent (udp_socket (px_udp x))
     \<and> (case pkt_data p of
         UdpInit udp_port \<Rightarrow>
           written T tx (packet_bytes (udp_init_packet port0)) (px_side OServer x1) (px_side OServer x')
           \<and> (\<forall>t. tcp_write T (packet_bytes (udp_init_packet port0)) (px_side OServer x1) =
                Some (Ok (length (packet_bytes (udp_init_packet port0))), t) \<longrightarrow>
              tx (px_side OServer x') = tx (px_side OServer x) @ packet_bytes (udp_init_packet port0))
           \<and> px_side OClient x' = px_side OClient x1 \<and> udp_socket (px_udp x') = udp_socket (px_udp x1)
           \<and> (\<exists>a. send_addr (px_udp x') = Connected a \<and> addr_port a = udp_port)
       | _ \<Rightarrow>
           if px_use_udp x \<and> origin \<noteq> plex \<and> movement p
           then (\<exists>a. send_addr (px_udp x) = Connected a \<and> sent (udp_socket (px_udp x')) =
                sent (udp_socket (px_udp x)) @ [(packet_bytes (resize p), a)])
             \<and> (\<forall>side. px_side side x' = px_side side x1)
           else written T tx (packet_bytes (resize p)) (px_side (origin_not origin) x1)
               (px_side (origin_not origin) x')
             \<and> (\<forall>t. tcp_write T (packet_bytes (resize p)) (px_side (origin_not origin) x1) =
                  Some (Ok (length (packet_bytes (resize p))), t) \<longrightarrow>
                tx (px_side (origin_not origin) x') =
                  tx (px_side (origin_not origin) x) @ packet_bytes (resize p))
             \<and> px_side origin x' = px_side origin x1 \<and> udp_socket (px_udp x') = udp_socket (px_udp x1))"
proof -
  note before = px_read_silent[OF assms(1,2,4)]
  have sized: "sized_packet (resize p)" "20 + get_size (pkt_data (resize p)) \<le> usize_max" "pkt_data (resize p) = pkt_data p"
    "movement (resize p) = movement p"
    using assms(5,6) by (simp_all add: sized_packet_def resize_def movement_def)
  have once: "tx s' = tx s @ packet_bytes q"
    if "written T tx (packet_bytes q) s1 s'" "tcp_write T (packet_bytes q) s1 = Some (Ok (length (packet_bytes q)), t)"
      "tx s1 = tx s" for q s s1 s' t
    using written_whole[OF that(1) packet_bytes_not_Nil that(2)] that(3) by simp
  from assms(3,4) have run: "px_handle K T U plex port0 (clock x1) (origin, p) x1 = Some (Ok (), x')"
    by (simp add: px_turn_def abind_eq_Ok)
  show ?thesis
  proof (cases "\<exists>udp_port. pkt_data p = UdpInit udp_port")
    case True
    then obtain udp_port where d: "pkt_data p = UdpInit udp_port" by blast
    with run sized obtain k where k: "write_packet K T (udp_init_packet port0) (px_serv x1) = Some (Ok (), k)"
      and x': "x' = x1\<lparr>px_udp := set_client_port udp_port (px_udp x1), px_serv := k\<rparr>"
      by (auto simp: px_handle_def Let_def abind_eq_Ok packet_new_small px_part)
    have w: "written T tx (packet_bytes (udp_init_packet port0)) (px_side OServer x1) (px_side OServer x')"
      using tcp_impl.write_packet_written(1)[OF assms(1) k handshake_packets(2,4)] x' by (simp add: px_side_def)
    have "px_side OClient x' = px_side OClient x1" "udp_socket (px_udp x') = udp_socket (px_udp x1)"
      "\<exists>a. send_addr (px_udp x') = Connected a \<and> addr_port a = udp_port"
      using x' by (auto simp: px_side_def set_client_port_def split: udp_sender_status.splits)
    with w before(1,2) once[OF w] d show ?thesis by simp
  next
    case False
    define x2 where "x2 = (case pkt_data p of Tag _ _ _ _ \<Rightarrow> x1\<lparr>px_last_tag := clock x1\<rparr> | _ \<Rightarrow> x1)"
    have same: "px_side side x2 = px_side side x1" "px_udp x2 = px_udp x1" "px_use_udp x2 = px_use_udp x1" for side
      by (auto simp: x2_def px_side_def split: packet_data.splits proxy_origin.splits)
    from run False sized have "px_route K T U plex origin (resize p) x2 = Some (Ok (), x')"
      by (auto simp: px_handle_def Let_def abind_eq_Ok x2_def split: packet_data.splits)
    note out = px_route_effect[OF assms(1,2) sized(1,2) this, unfolded same sized(4) before(2-4)]
    show ?thesis
    proof (cases "px_use_udp x \<and> origin \<noteq> plex \<and> movement p")
      case True
      with out before False show ?thesis by (simp split: packet_data.splits)
    next
      case tcp: False
      note w = out[unfolded if_not_P[OF tcp]]
      from w before once[OF w[THEN conjunct1]] False show ?thesis
        unfolding if_not_P[OF tcp] by (simp split: packet_data.splits)
    qed
  qed
qed

text \<open>A game that moves, before and after its position went on to the peer.\<close>

definition moving :: "(u8 list, script, mailbox) proxy" where
  "moving = \<lparr>px_cli = saying other_player [], px_serv = saying hello [],
     px_udp = mb_conn [] True (Connected peer), px_use_udp = True, px_last_tag = 0\<rparr>"

definition moved :: "(u8 list, script, mailbox) proxy" where
  "moved = moving\<lparr>px_cli := heard other_player [],
     px_udp := (mb_conn [] True (Connected peer))\<lparr>udp_socket :=
       \<lparr>mb_in = [], mb_got = [], mb_sent = [(packet_bytes other_player, peer)], mb_up = True\<rparr>\<rparr>\<rparr>"

lemma other_player_wf: "wf_packet other_player" "framed other_player"
  by (simp_all add: other_player_def wf_packet_def wf_guid_def guid_from_def framed_def field_sizes)

lemma moving_read:
  "px_read bytes_list whole_tcp mailbox_udp OServer PxCli moving =
     Some (Ok (OClient, other_player), moving\<lparr>px_cli := heard other_player []\<rparr>)"
  by (simp add: px_read_def on_cli_def abind_def zoom_def moving_def saying_read[OF other_player_wf])

lemma moving_turn:
  "px_turn bytes_list whole_tcp mailbox_udp OServer 7 (\<lambda>_. PxCli) (\<lambda>_. 0) moving = Some (Ok (), moved)"
proof -
  have "resize other_player = other_player" by (simp add: other_player_def resize_def)
  moreover have "0 < length (packet_bytes other_player)"
    using length_packet_bytes[OF other_player_sized(1)] by simp
  then have "udp_write_packet bytes_list mailbox_udp other_player (mb_conn [] True (Connected peer)) =
      Some (Ok (), px_udp moved)"
    by (subst mailbox_socket.udp_write_run[OF other_player_sized, of _ peer])
       (simp_all add: mb_conn_def moved_def count_loop_once unwrapped_def mb_send_def)
  moreover have "pkt_data other_player = Player \<lparr>vec_x = 1, vec_y = 2, vec_z = 3\<rparr>
      \<lparr>quat_w = 1, quat_i = 0, quat_j = 0, quat_k = 0\<rparr> (replicate 6 0) 7 8"
    by (simp add: other_player_def)
  ultimately have "px_handle bytes_list whole_tcp mailbox_udp OServer 7 0 (OClient, other_player)
      (moving\<lparr>px_cli := heard other_player []\<rparr>) = Some (Ok (), moved)"
    by (simp add: px_handle_def Let_def px_route_def await_unwrap_def on_pudp_def zoom_def moved_def moving_def)
  then show ?thesis
    by (simp add: px_turn_def) (subst abind_Ok, rule moving_read, simp)
qed

theorem proxy_turn_effect_witness:
  "(\<exists>a. send_addr (px_udp moving) = Connected a
       \<and> mb_sent (udp_socket (px_udp moved)) =
           mb_sent (udp_socket (px_udp moving)) @ [(packet_bytes (resize other_player), a)])
     \<and> px_side OServer moved = px_side OServer (moving\<lparr>px_cli := heard other_player []\<rparr>)"
proof -
  have udp: "px_use_udp moving \<and> OClient \<noteq> OServer \<and> movement other_player"
    by (simp add: moving_def movement_def other_player_def)
  note all = proxy_turn_effect[OF whole_socket.tcp_impl_axioms mailbox_socket.udp_impl_axioms
      moving_turn moving_read other_player_sized, unfolded if_P[OF udp]]
  have "pkt_data other_player = Player \<lparr>vec_x = 1, vec_y = 2, vec_z = 3\<rparr>
      \<lparr>quat_w = 1, quat_i = 0, quat_j = 0, quat_k = 0\<rparr> (replicate 6 0) 7 8"
    by (simp add: other_player_def)
  with all[THEN conjunct2, THEN conjunct2] show ?thesis by simp
qed

end
