(* ===== verification/System.thy ===== *)
theory System
  imports Coordinator_Rules Server
begin

text \<open>
  The tasks together: the coordinator, the event loops of the players, the delayed syncs and the
  handshakes, as a transition system. A step is one handler of one task. The channels hold the
  messages that have been sent and not yet received; the shared memory is whatever the other tasks
  have made of it when a handler starts, so each step takes an arbitrary one.
\<close>

section \<open>States\<close>

record ('b, 's, 'u) system =
  sy_coord :: "coordinator option"
  sy_players :: "('b, 's, 'u) client list"
  sy_syncs :: "(chan \<times> guid \<times> nat) list"
  sy_mail :: "(chan \<times> ('b, 's, 'u) command) list"

text \<open>The start of the program, with the channel \<open>cch\<close> of the coordinator.\<close>

definition system_start ::
  "(guid list \<Rightarrow> guid \<Rightarrow> nat) \<Rightarrow> (guid list \<Rightarrow> guid \<Rightarrow> nat) \<Rightarrow> chan \<Rightarrow> ('b, 's, 'u) system" where
  "system_start gr hr cch =
     \<lparr>sy_coord = Some \<lparr>clients = hm_new gr, to_clients = hm_new hr, from_clients = cch\<rparr>,
      sy_players = [], sy_syncs = [], sy_mail = []\<rparr>"

text \<open>What becomes of the tasks a handler spawns.\<close>

fun new_players :: "('b, 's, 'u) task list \<Rightarrow> ('b, 's, 'u) client list" where
  "new_players [] = []"
| "new_players (ClientTask c # ts) = c # new_players ts"
| "new_players (DelayedSync ch g a # ts) = new_players ts"

fun new_syncs :: "('b, 's, 'u) task list \<Rightarrow> (chan \<times> guid \<times> nat) list" where
  "new_syncs [] = []"
| "new_syncs (ClientTask c # ts) = new_syncs ts"
| "new_syncs (DelayedSync ch g a # ts) = (ch, g, a) # new_syncs ts"

lemma new_players_set: "set (new_players ts) = {c. ClientTask c \<in> set ts}"
  by (induction ts rule: new_players.induct) auto

text \<open>
  The channels to players that somebody can still send to: the coordinator, a delayed sync, or a
  \<open>NewPlayer\<close> on its way. A channel is closed for its reader when there is nobody and nothing left.
\<close>

definition senders :: "('b, 's, 'u) system \<Rightarrow> chan set" where
  "senders s = (case sy_coord s of None \<Rightarrow> {} | Some co \<Rightarrow> ran (hm_get (to_clients co)))
     \<union> fst ` set (sy_syncs s)
     \<union> {ch. \<exists>c cli p. (c, ServerCmd (NewPlayer cli p ch)) \<in> set (sy_mail s)}"

definition closed_for :: "('b, 's, 'u) system \<Rightarrow> chan \<Rightarrow> bool" where
  "closed_for s ch \<longleftrightarrow> ch \<notin> senders s \<and> ch \<notin> fst ` set (sy_mail s)"

definition in_use :: "chan \<Rightarrow> ('b, 's, 'u) system \<Rightarrow> chan set" where
  "in_use cch s = {cch} \<union> from_server ` set (sy_players s) \<union> senders s \<union> fst ` set (sy_mail s)"

text \<open>
  What a handler receives is the first message of its channel; none only where the channel is closed.
  Receiving neither fails nor panics.
\<close>

definition received ::
  "('b, 's, 'u, 'x) tokio \<Rightarrow> chan \<Rightarrow> bool \<Rightarrow> 'x shared \<Rightarrow> (chan \<times> ('b, 's, 'u) command) list \<Rightarrow>
   (chan \<times> ('b, 's, 'u) command) list \<Rightarrow> bool" where
  "received rt ch closed w mail mail' = (case rt_recv rt ch w of
       Some (Ok (Some m), w1) \<Rightarrow> take_first ch mail = Some (m, mail')
     | Some (Ok None, w1) \<Rightarrow> closed \<and> mail' = mail
     | _ \<Rightarrow> False)"

section \<open>Steps\<close>

text \<open>
  \<open>arrive\<close> is a handshake (its channel is a new one), \<open>serve\<close> a command the coordinator handles, \<open>quit\<close>
  a request to shut down and \<open>stop\<close> the shutdown, \<open>turn\<close> one turn of a player's event loop, \<open>leave\<close> its
  end, \<open>late\<close> a delayed sync. A send fails only when the receiver is gone, so a player's last message
  reaches the channel of a coordinator that runs. A panic ends the process; it has no step.
\<close>

inductive sys_step ::
  "'b bytes_crate \<Rightarrow> ('b, 'n, 's) tcp \<Rightarrow> 'u udp \<Rightarrow> (socket_addr \<Rightarrow> ('u, unit, 'x shared) async) \<Rightarrow> ranks \<Rightarrow>
   ('b, 's, 'u, 'x) tokio \<Rightarrow> ('x shared \<Rightarrow> (chan \<times> ('b, 's, 'u) command) list) \<Rightarrow>
   ('x shared \<Rightarrow> ('b, 's, 'u) task list) \<Rightarrow> chan \<Rightarrow> ('b, 's, 'u) system \<Rightarrow> ('b, 's, 'u) system \<Rightarrow> bool"
  for K T U bind R rt log tasks cch where
  arrive: "initialize_client K T U bind rt R stream cch udp_port w = Some (r, w') \<Longrightarrow> r \<noteq> Panic \<Longrightarrow>
    fst (rt_channel rt 10 w) \<notin> in_use cch s \<Longrightarrow> log w' = log w @ ms \<Longrightarrow>
    sys_step K T U bind R rt log tasks cch s (s\<lparr>sy_mail := sy_mail s @ ms\<rparr>)"
| serve: "sy_coord s = Some co \<Longrightarrow> received rt (from_clients co) False w (sy_mail s) mail \<Longrightarrow>
    coord_turn T rt (co, w) = Some (Ok True, (co', w')) \<Longrightarrow> log w' = log w @ ms \<Longrightarrow> tasks w' = tasks w @ ts \<Longrightarrow>
    sys_step K T U bind R rt log tasks cch s
      (s\<lparr>sy_coord := Some co', sy_players := sy_players s @ new_players ts,
         sy_syncs := sy_syncs s @ new_syncs ts, sy_mail := mail @ ms\<rparr>)"
| quit: "sys_step K T U bind R rt log tasks cch s (s\<lparr>sy_mail := sy_mail s @ [(cch, ServerCmd Shutdown)]\<rparr>)"
| stop: "sy_coord s = Some co \<Longrightarrow> received rt (from_clients co) False w (sy_mail s) mail \<Longrightarrow>
    coord_turn T rt (co, w) = Some (Ok False, s1) \<Longrightarrow> shutdown rt s1 = Some (Ok (), (co', w')) \<Longrightarrow>
    log w' = log w @ ms \<Longrightarrow>
    sys_step K T U bind R rt log tasks cch s (s\<lparr>sy_coord := None, sy_mail := mail @ ms\<rparr>)"
| turn: "sy_players s = before @ c # behind \<Longrightarrow> alive c \<Longrightarrow>
    (if rt_pick rt w = FromServer
     then received rt (from_server c) (closed_for s (from_server c)) w (sy_mail s) mail else mail = sy_mail s) \<Longrightarrow>
    client_turn K T U rt (c, w) = Some (Ok go, (c', w')) \<Longrightarrow> log w' = log w @ ms \<Longrightarrow>
    sys_step K T U bind R rt log tasks cch s (s\<lparr>sy_players := before @ c' # behind, sy_mail := mail @ ms\<rparr>)"
| leave: "sy_players s = before @ c # behind \<Longrightarrow> \<not> alive c \<Longrightarrow>
    client_disconnect T rt (c, w) = Some (r, (c', w')) \<Longrightarrow> r = Err SendChannel \<longrightarrow> sy_coord s = None \<Longrightarrow>
    log w' = log w @ ms \<Longrightarrow>
    sys_step K T U bind R rt log tasks cch s (s\<lparr>sy_players := before @ behind, sy_mail := sy_mail s @ ms\<rparr>)"
| late: "sy_syncs s = before @ (ch, g, a) # behind \<Longrightarrow> delayed_sync rt ch g a w = Some (Ok (), w') \<Longrightarrow>
    log w' = log w @ ms \<Longrightarrow>
    sys_step K T U bind R rt log tasks cch s (s\<lparr>sy_syncs := before @ behind, sy_mail := sy_mail s @ ms\<rparr>)"

inductive reachable ::
  "'b bytes_crate \<Rightarrow> ('b, 'n, 's) tcp \<Rightarrow> 'u udp \<Rightarrow> (socket_addr \<Rightarrow> ('u, unit, 'x shared) async) \<Rightarrow> ranks \<Rightarrow>
   ('b, 's, 'u, 'x) tokio \<Rightarrow> ('x shared \<Rightarrow> (chan \<times> ('b, 's, 'u) command) list) \<Rightarrow>
   ('x shared \<Rightarrow> ('b, 's, 'u) task list) \<Rightarrow> chan \<Rightarrow> ('b, 's, 'u) system \<Rightarrow> bool"
  for K T U bind R rt log tasks cch where
  start: "reachable K T U bind R rt log tasks cch (system_start gr hr cch)"
| step: "reachable K T U bind R rt log tasks cch s \<Longrightarrow> sys_step K T U bind R rt log tasks cch s s' \<Longrightarrow>
    reachable K T U bind R rt log tasks cch s'"

section \<open>The invariant\<close>

text \<open>Only the coordinator is sent anything but packets; a new player comes with its own channel.\<close>

fun message_ok :: "chan \<Rightarrow> chan \<times> ('b, 's, 'u) command \<Rightarrow> bool" where
  "message_ok cch (ch, PacketCmd p) = True"
| "message_ok cch (ch, CliCmd c) = False"
| "message_ok cch (ch, ServerCmd (NewPlayer cli p comm)) \<longleftrightarrow>
     ch = cch \<and> (\<exists>t m n. pkt_data p = Connect t m n) \<and> from_server cli = comm \<and> comm \<noteq> cch \<and> to_coord cli = cch"
| "message_ok cch (ch, ServerCmd sc) \<longleftrightarrow> ch = cch"

text \<open>Somebody reads the channel for this player, or the player's \<open>DisconnectPlayer\<close> is on its way.\<close>

definition attended :: "chan \<Rightarrow> ('b, 's, 'u) client list \<Rightarrow> (chan \<times> ('b, 's, 'u) command) list \<Rightarrow> guid \<Rightarrow> chan \<Rightarrow> bool" where
  "attended cch cs mail g ch \<longleftrightarrow>
     (\<exists>c \<in> set cs. cli_guid c = g \<and> from_server c = ch) \<or> (cch, ServerCmd (DisconnectPlayer g)) \<in> set mail"

definition system_ok :: "chan \<Rightarrow> ('b, 's, 'u) system \<Rightarrow> bool" where
  "system_ok cch s \<longleftrightarrow>
     (\<forall>co. sy_coord s = Some co \<longrightarrow> coord_ok co \<and> from_clients co = cch
        \<and> (\<forall>g ch. hm_get (to_clients co) g = Some ch \<longrightarrow> attended cch (sy_players s) (sy_mail s) g ch))
     \<and> (\<forall>c \<in> set (sy_players s). to_coord c = cch \<and> from_server c \<noteq> cch)
     \<and> list_all (message_ok cch) (sy_mail s)"

lemma take_first_set:
  "take_first ch mail = Some (m, mail') \<Longrightarrow> set mail = insert (ch, m) (set mail')"
  by (induction mail arbitrary: mail') (auto split: if_splits)


lemma packets_ok [simp]: "list_all (message_ok cch) (map (\<lambda>(ch, p). (ch, PacketCmd p)) ms)"
  by (induction ms) auto

lemma log_suffix: "l @ ms = l @ ns \<longleftrightarrow> ms = ns"
  by simp

section \<open>The handshake\<close>

context tokio_impl
begin

text \<open>All a handshake sends is its new player.\<close>

lemma initialize_sends:
  assumes silent: "\<And>a w q w'. bind a w = Some (q, w') \<Longrightarrow> log w' = log w"
    and ch: "rt_channel rt 10 w = (ch, w1)" and "ch \<noteq> coord"
    and run: "initialize_client K T U bind rt R stream coord udp_port w = Some (r, w')"
  shows "\<exists>ms. log w' = log w @ ms \<and> list_all (message_ok coord) ms"
proof -
  have l1: "log w1 = log w" using channel_law[OF ch] by simp
  have same: "log w' = log w \<Longrightarrow> ?thesis" by simp
  show ?thesis
  proof (cases "r = Ok ()")
    case True
    with run obtain la a k0 k1 k2 u2 w2 w3 connect cmd where bnd: "bind (socket_addr_new (V4 0) udp_port) w1 = Some (Ok u2, w2)"
      and adm: "admit K T R coord ch (addr_port la) (udp_connection_new K u2 (addr_ip a)) connect k2 w2 = Some (Ok cmd, w3)"
      and snd: "send rt coord cmd w3 = Some (Ok (), w')"
      by (auto simp: initialize_client_def abind_eq_Ok locally_Ok ch packet_new_small Let_def)
    from adm obtain c_type m name k3 ca where "pkt_data connect = Connect c_type m name"
      and cmd: "cmd = ServerCmd (NewPlayer
            \<lparr>display_name = trim_nul name, cli_data = ca, cli_guid = pkt_id connect, alive = True,
             conn = k3, udp_conn = udp_connection_new K u2 (addr_ip a), to_coord = coord, from_server = ch\<rparr>
            connect ch)"
      by (rule admit_Ok)
    then have "message_ok coord (coord, cmd)" using assms(3) by simp
    moreover have "log w' = log w @ [(coord, cmd)]"
      using snd l1 silent[OF bnd] admit_log[OF adm] by (auto dest: send_ok)
    ultimately show ?thesis by (intro exI[of _ "[(coord, cmd)]"]) simp
  next
    case False
    with run l1 have "log w' = log w"
      by (cases r)
        (auto simp: initialize_client_def ch packet_new_small locally_Ok locally_Panic the_or_panic_Panic Let_def
          dest!: silent admit_log send_err send_no_panic[THEN notE] elim!: abind_cases)
    then show ?thesis by (rule same)
  qed
qed

section \<open>Commands\<close>

text \<open>What a handler of the coordinator starts.\<close>

definition starts :: "('b, 's, 'u) task set \<Rightarrow> 'x shared \<Rightarrow> 'x shared \<Rightarrow> bool" where
  "starts A w w' \<longleftrightarrow> (\<exists>ts. tasks w' = tasks w @ ts \<and> set ts \<subseteq> A)"

lemma closed_starts: "send_closed rt (starts A)"
proof -
  have "starts A w w'" if "send rt ch (PacketCmd p) w = Some (r, w')" for ch p r and w w'
    using send_only_sends[OF that] by (simp add: starts_def only_sends_def)
  moreover have "reflp (starts A)" "transp (starts A)"
    by (auto simp: reflp_def transp_def starts_def)
  ultimately show ?thesis by (simp add: send_closed_def)
qed

lemma starts_memory: "starts A w (update_cell a f w)" "starts A w (w\<lparr>shine_bag := b\<rparr>)"
  "t \<in> A \<Longrightarrow> starts A w (rt_spawn rt t w)"
  by (simp_all add: starts_def log_memory spawn_law)

lemma accepted_starts:
  assumes "accepted_run c_type cli p comm (co, w) = Some (r, (co', w'))"
  shows "tasks w' = tasks w @ [ClientTask (fst (register c_type comm cli co))]"
proof -
  obtain cli1 co1 where reg: "register c_type comm cli co = (cli1, co1)" by fastforce
  let ?m = "abind (atry (setup_player rt comm p)) (\<lambda>result. case result of
          Some e \<Rightarrow> abind (disconnect_player rt (cli_guid cli)) (\<lambda>_. athrow e)
        | None \<Rightarrow> aret ())"
  have "within only_sends ?m"
    by (intro within_abind[OF send_closedD(2)[OF closed_only_sends]] within_atry within_setup[OF closed_only_sends])
      (simp add: within_rules[OF closed_only_sends] within_disconnect[OF closed_only_sends] split: option.splits)
  moreover have "?m (co1, rt_spawn rt (ClientTask cli1) w) = Some (r, (co', w'))"
    using assms reg by (simp add: accepted_run_def)
  ultimately have "only_sends (rt_spawn rt (ClientTask cli1) w) w'" by (auto dest: withinD)
  with reg show ?thesis by (simp add: only_sends_def spawn_law)
qed

end

text \<open>The coordinators that know at most the players of \<open>M\<close>.\<close>

definition knows_at_most :: "chan \<Rightarrow> (guid \<rightharpoonup> chan) \<Rightarrow> coordinator \<Rightarrow> bool" where
  "knows_at_most cch M co \<longleftrightarrow> coord_ok co \<and> from_clients co = cch \<and> hm_get (to_clients co) \<subseteq>\<^sub>m M"

lemma knows_at_most_inv: "coord_inv (knows_at_most cch M)"
  by (auto simp: coord_inv_def knows_at_most_def without_ok map_le_def)

lemma knows_at_mostD:
  assumes "knows_at_most cch M co"
  shows "coord_ok co" "from_clients co = cch" "hm_get (to_clients co) g = Some ch \<Longrightarrow> M g = Some ch"
  using assms unfolding knows_at_most_def map_le_def by (metis domI)+

lemma knows_at_mostI: "coord_ok co \<Longrightarrow> from_clients co = cch \<Longrightarrow> knows_at_most cch (hm_get (to_clients co)) co"
  by (simp add: knows_at_most_def)

context tokio_impl
begin

lemma disconnect_command_maps:
  assumes "knows_at_most cch M co"
    and "coord_handle_command T rt (ServerCmd (DisconnectPlayer g)) (co, w) = Some (r, (co', w'))"
  shows "knows_at_most cch (M(g := None)) co' \<and> r \<noteq> Panic"
proof -
  have "co' = without g co \<and> r \<noteq> Panic"
    using assms(2) by (auto simp: coord_handle_command_def disconnect_row on_world_run row_no_panic elim!: abind_cases)
  moreover have "knows_at_most cch (M(g := None)) (without g co)"
    using assms(1) by (auto simp: knows_at_most_def without_ok map_le_def)
  ultimately show ?thesis by simp
qed

lemma new_player_maps:
  assumes "\<And>s s'. tcp_shutdown T s \<noteq> Some (Panic, s')" and "pkt_data p = Connect c_type m name"
    and "knows_at_most cch M co"
    and "add_client T rt (NewPlayer cli p comm) (co, w) = Some (r, (co', w'))"
  shows "r \<noteq> Panic \<and> (knows_at_most cch M co' \<and> tasks w' = tasks w
     \<or> knows_at_most cch (M(cli_guid cli \<mapsto> comm)) co' \<and> (\<exists>a. tasks w' = tasks w @ [ClientTask (cli\<lparr>cli_data := a\<rparr>)]))"
proof (cases "can_connect (sh_settings w) (hm_len (clients co)) cli")
  case None
  obtain cli1 co1 where reg: "register c_type comm cli co = (cli1, co1)" by fastforce
  have ok: "coord_ok co" using assms(3) by (simp add: knows_at_most_def)
  have "from_clients co1 = from_clients co"
    using reg by (auto simp: register_def Let_def split: connection_type.splits option.splits)
  then have "knows_at_most cch (M(cli_guid cli \<mapsto> comm)) co1"
    using assms(3) register_ok(1,3)[OF ok reg] by (auto simp: knows_at_most_def map_le_def)
  moreover from assms(4) None have run: "accepted_run c_type cli p comm (co, w) = Some (r, (co', w'))"
    by (simp add: add_client_cases[OF assms(2)])
  ultimately have "r \<noteq> Panic \<and> knows_at_most cch (M(cli_guid cli \<mapsto> comm)) co'"
    using accepted_safe[OF knows_at_most_inv _ run] reg by simp
  moreover have "\<exists>a. tasks w' = tasks w @ [ClientTask (cli\<lparr>cli_data := a\<rparr>)]"
    using accepted_starts[OF run] register_ok(7)[OF ok reg] reg by auto
  ultimately show ?thesis by blast
next
  case (Some e)
  let ?m = "abind (on_world (\<lambda>w. map_option (apsnd snd) (client_disconnect T rt (cli, w)))) (\<lambda>_. athrow e)"
  from assms(4) Some have run: "?m (co, w) = Some (r, (co', w'))" by (simp add: add_client_cases[OF assms(2)])
  note run' = safeD[where I = "knows_at_most cch M", OF refused_safe[where cli = cli and e = e, OF assms(1)] assms(3) run]
  then have "r \<noteq> Panic \<and> knows_at_most cch M co'" by simp
  moreover from run obtain q c where "client_disconnect T rt (cli, w) = Some (q, (c, w'))"
    by (auto simp: on_world_run elim!: abind_cases)
  then have "tasks w' = tasks w" using client_disconnect_log[OF _ assms(1)] by blast
  ultimately show ?thesis by blast
qed

lemma packet_command_maps:
  assumes "\<And>s s'. tcp_shutdown T s \<noteq> Some (Panic, s')" and "knows_at_most cch M co"
    and "coord_handle_command T rt (PacketCmd p) (co, w) = Some (r, (co', w'))"
  shows "knows_at_most cch M co' \<and> r \<noteq> Panic"
  by (rule command_safe[OF assms(1) _ knows_at_most_inv assms(2) _ assms(3), THEN conj_commute[THEN iffD1]]) simp_all

lemma other_command_tasks:
  assumes "\<And>cli p comm. cmd \<noteq> ServerCmd (NewPlayer cli p comm)" and "from_tasks cmd"
    and "coord_handle_command T rt cmd (co, w) = Some (r, (co', w'))"
  shows "\<exists>ts. tasks w' = tasks w @ ts \<and> (\<forall>c. ClientTask c \<notin> set ts)"
proof -
  let ?Q = "starts {t. \<forall>c. t \<noteq> ClientTask c}"
  have "?Q w w'"
  proof (cases cmd)
    case (PacketCmd p)
    have "within ?Q (coord_handle_command T rt (PacketCmd p))"
      by (intro within_command_packet closed_starts starts_memory) simp
    with assms(3) PacketCmd show ?thesis by (auto dest: withinD)
  next
    case (CliCmd c)
    with assms(2) show ?thesis by simp
  next
    case (ServerCmd sc)
    show ?thesis
    proof (cases sc)
      case (NewPlayer cli p comm)
      with ServerCmd assms(1) show ?thesis by simp
    next
      case (DisconnectPlayer g)
      with withinD[OF within_command_disconnect[OF closed_starts] assms(3)[unfolded ServerCmd DisconnectPlayer]]
      show ?thesis by simp
    next
      case Shutdown
      with ServerCmd assms(3) show ?thesis by (simp add: coord_handle_command_def starts_def)
    qed
  qed
  then show ?thesis by (auto simp: starts_def)
qed

end

section \<open>What a step keeps\<close>

lemma attended_more: "attended cch cs mail g ch \<Longrightarrow> attended cch cs (mail @ ms) g ch"
  unfolding attended_def by auto

lemma from_tasks_ok: "message_ok cch (ch, cmd) \<Longrightarrow> from_tasks cmd"
  by (cases cmd rule: from_tasks.cases) auto

text \<open>A turn of the coordinator: a command it handled, from its channel.\<close>

lemma coord_turn_cases:
  assumes "coord_turn T rt (co, w) = Some (q, (co', w'))" and "received rt (from_clients co) False w mail mail'"
  obtains cmd r w1 where "take_first (from_clients co) mail = Some (cmd, mail')"
    and "rt_recv rt (from_clients co) w = Some (Ok (Some cmd), w1)"
    and "coord_handle_command T rt cmd (co, w1) = Some (r, (co', w'))"
    and "q = (case r of Ok go \<Rightarrow> Ok go | Err e \<Rightarrow> Ok True | Panic \<Rightarrow> Panic)"
proof -
  from assms(2) obtain cmd w1 where recv: "rt_recv rt (from_clients co) w = Some (Ok (Some cmd), w1)"
    and mail: "take_first (from_clients co) mail = Some (cmd, mail')"
    by (auto simp: received_def split: option.splits res.splits)
  have "on_world (\<lambda>w. map_option (apfst (map_err (\<lambda>_. RecvChannel))) (rt_recv rt (from_clients co) w)) (co, w) =
      Some (Ok (Some cmd), (co, w1))"
    by (simp add: on_world_def zoom_def recv)
  with assms(1) have "(case coord_handle_command T rt cmd (co, w1) of
              None \<Rightarrow> None
            | Some (Ok go, s) \<Rightarrow> aret go s
            | Some (Err e, s) \<Rightarrow> aret True s
            | Some (Panic, s) \<Rightarrow> apanic s) = Some (q, (co', w'))"
    by (simp add: coord_turn_def abind_def)
  then obtain r where "coord_handle_command T rt cmd (co, w1) = Some (r, (co', w'))"
    and "q = (case r of Ok go \<Rightarrow> Ok go | Err e \<Rightarrow> Ok True | Panic \<Rightarrow> Panic)"
    by (cases "coord_handle_command T rt cmd (co, w1)") (auto split: res.splits)
  with that mail recv show thesis by blast
qed

text \<open>What a command does to the map of channels \<open>M\<close>, with the players \<open>cs\<close> it starts.\<close>

definition serve_effect ::
  "chan \<Rightarrow> (guid \<rightharpoonup> chan) \<Rightarrow> ('b, 's, 'u) command \<Rightarrow> coordinator \<Rightarrow> ('b, 's, 'u) client list \<Rightarrow> bool" where
  "serve_effect cch M cmd co' cs \<longleftrightarrow>
     (knows_at_most cch M co' \<and> cs = [] \<and> (\<forall>g. cmd \<noteq> ServerCmd (DisconnectPlayer g)))
     \<or> (\<exists>g. cmd = ServerCmd (DisconnectPlayer g) \<and> knows_at_most cch (M(g := None)) co' \<and> cs = [])
     \<or> (\<exists>cli a. knows_at_most cch (M(cli_guid cli \<mapsto> from_server cli)) co' \<and> cs = [cli\<lparr>cli_data := a\<rparr>]
         \<and> to_coord cli = cch \<and> from_server cli \<noteq> cch \<and> (\<forall>g. cmd \<noteq> ServerCmd (DisconnectPlayer g)))"

context tokio_impl
begin

lemma new_player_tasks:
  assumes "\<And>s s'. tcp_shutdown T s \<noteq> Some (Panic, s')" and "pkt_data p = Connect c_type m name"
    and "add_client T rt (NewPlayer cli p comm) (co, w) = Some (r, (co', w'))"
  shows "\<exists>ts. tasks w' = tasks w @ ts"
  using assms(3)
  by (auto simp: add_client_cases[OF assms(2)] on_world_run accepted_starts
      dest!: client_disconnect_log[OF _ assms(1)] elim!: abind_cases split: option.splits)

lemma command_logs:
  assumes "\<And>s s'. tcp_shutdown T s \<noteq> Some (Panic, s')" and "from_tasks cmd"
    and "coord_handle_command T rt cmd (co, w) = Some (r, (co', w'))"
  shows "\<exists>ms ts. log w' = log w @ ms \<and> tasks w' = tasks w @ ts"
proof -
  have "\<exists>ms. log w' = log w @ ms"
    using command_sends[OF assms] by (auto simp: sends_packets_def)
  moreover have "\<exists>ts. tasks w' = tasks w @ ts"
  proof (cases "\<exists>cli p comm. cmd = ServerCmd (NewPlayer cli p comm)")
    case True
    then obtain cli p comm where cmd: "cmd = ServerCmd (NewPlayer cli p comm)" by blast
    with assms(2) obtain t m n where p: "pkt_data p = Connect t m n" by auto
    from assms(3)[unfolded cmd] obtain q where "add_client T rt (NewPlayer cli p comm) (co, w) = Some (q, (co', w'))"
      by (rule new_player_run)
    from new_player_tasks[OF assms(1) p this] show ?thesis .
  qed (use other_command_tasks[OF _ assms(2,3)] in blast)
  ultimately show ?thesis by blast
qed

lemma sends_packets_ok: "sends_packets w w' \<Longrightarrow> log w' = log w @ ms \<Longrightarrow> list_all (message_ok cch) ms"
  by (auto simp: sends_packets_def)

text \<open>What the coordinator does with a message that is in order.\<close>

lemma serve_outcome:
  assumes quiet: "\<And>s s'. tcp_shutdown T s \<noteq> Some (Panic, s')" and ok: "message_ok cch (from_clients co, cmd)"
    and start: "knows_at_most cch M co"
    and run: "coord_handle_command T rt cmd (co, w) = Some (r, (co', w'))"
    and ts: "tasks w' = tasks w @ ts"
  shows "r \<noteq> Panic \<and> serve_effect cch M cmd co' (new_players ts)"
proof (cases "\<exists>cli p comm. cmd = ServerCmd (NewPlayer cli p comm)")
  case True
  then obtain cli p comm where cmd: "cmd = ServerCmd (NewPlayer cli p comm)" by blast
  with ok obtain t m n where p: "pkt_data p = Connect t m n" and cli: "from_server cli = comm" "comm \<noteq> cch" "to_coord cli = cch"
    by auto
  from run[unfolded cmd] obtain q where add: "add_client T rt (NewPlayer cli p comm) (co, w) = Some (q, (co', w'))"
    and q: "r = Panic \<longrightarrow> q = Panic"
    by (auto simp: coord_handle_command_def elim!: abind_cases)
  note maps = new_player_maps[OF quiet p start add]
  with q ts have "r \<noteq> Panic" by blast
  moreover from maps ts cli have "knows_at_most cch M co' \<and> new_players ts = []
      \<or> (\<exists>a. knows_at_most cch (M(cli_guid cli \<mapsto> from_server cli)) co' \<and> new_players ts = [cli\<lparr>cli_data := a\<rparr>])"
    by auto
  ultimately show ?thesis unfolding serve_effect_def using cmd cli by blast
next
  case False
  have none: "new_players ts = []"
    using other_command_tasks[OF _ from_tasks_ok[OF ok] run] False ts new_players_set[of ts] by fastforce
  show ?thesis
  proof (cases cmd)
    case (PacketCmd p)
    with packet_command_maps[OF quiet start run[unfolded PacketCmd]] none show ?thesis by (simp add: serve_effect_def)
  next
    case (CliCmd c)
    with ok show ?thesis by simp
  next
    case (ServerCmd sc)
    show ?thesis
    proof (cases sc)
      case (NewPlayer cli p comm)
      with ServerCmd False show ?thesis by simp
    next
      case (DisconnectPlayer g)
      with disconnect_command_maps[OF start run[unfolded ServerCmd DisconnectPlayer]] none ServerCmd show ?thesis by (simp add: serve_effect_def)
    next
      case Shutdown
      with run none start ServerCmd show ?thesis by (auto simp: coord_handle_command_def serve_effect_def)
    qed
  qed
qed

lemma serve_facts:
  assumes quiet: "\<And>s s'. tcp_shutdown T s \<noteq> Some (Panic, s')" and ok: "message_ok cch (from_clients co, cmd)"
    and co: "coord_ok co" "from_clients co = cch"
    and run: "coord_handle_command T rt cmd (co, w) = Some (r, (co', w'))"
    and ms: "log w' = log w @ ms" and ts: "tasks w' = tasks w @ ts"
  shows "r \<noteq> Panic" and "coord_ok co'" and "from_clients co' = cch" and "list_all (message_ok cch) ms"
    and "c \<in> set (new_players ts) \<Longrightarrow> to_coord c = cch \<and> from_server c \<noteq> cch"
    and "hm_get (to_clients co') g = Some ch \<Longrightarrow>
      (\<exists>c \<in> set (new_players ts). cli_guid c = g \<and> from_server c = ch)
      \<or> hm_get (to_clients co) g = Some ch \<and> cmd \<noteq> ServerCmd (DisconnectPlayer g)"
proof -
  let ?M = "hm_get (to_clients co)"
  have tasks_cmd: "from_tasks cmd" using ok by (rule from_tasks_ok)
  have sends: "list_all (message_ok cch) ms"
    using command_sends[OF quiet tasks_cmd run] ok ms
    by (auto dest: sends_packets_ok[OF _ ms])
  note served = serve_outcome[OF quiet ok knows_at_mostI[OF co] run ts]
  from served have outcome: "serve_effect cch ?M cmd co' (new_players ts)" ..
  show "list_all (message_ok cch) ms" by (rule sends)
  from served show "r \<noteq> Panic" ..
  from outcome[unfolded serve_effect_def] show "coord_ok co'" "from_clients co' = cch" by (auto dest: knows_at_mostD(1,2))
  from outcome[unfolded serve_effect_def] show "c \<in> set (new_players ts) \<Longrightarrow> to_coord c = cch \<and> from_server c \<noteq> cch" by auto
  assume entry: "hm_get (to_clients co') g = Some ch"
  from outcome[unfolded serve_effect_def] show "(\<exists>c \<in> set (new_players ts). cli_guid c = g \<and> from_server c = ch)
      \<or> hm_get (to_clients co) g = Some ch \<and> cmd \<noteq> ServerCmd (DisconnectPlayer g)"
  proof (elim disjE exE conjE)
    fix h assume "cmd = ServerCmd (DisconnectPlayer h)" and "knows_at_most cch (?M(h := None)) co'"
    with knows_at_mostD(3)[OF this(2) entry] show ?thesis by (auto split: if_splits)
  next
    fix cli a assume new: "new_players ts = [cli\<lparr>cli_data := a\<rparr>]" and "\<forall>g. cmd \<noteq> ServerCmd (DisconnectPlayer g)"
      and "knows_at_most cch (?M(cli_guid cli \<mapsto> from_server cli)) co'"
    with knows_at_mostD(3)[OF this(3) entry] show ?thesis by (auto split: if_splits)
  qed (use knows_at_mostD(3)[OF _ entry] in blast)
qed

end

text \<open>The environment the tasks rely on: both sockets, the runtime, and a UDP \<open>bind\<close> that sends nothing.\<close>

locale running = client_task K T rx tx U got sent rt log tasks
  for K :: "'b bytes_crate" and T :: "('b, 'n, 's) tcp" and rx tx :: "'s \<Rightarrow> u8 list"
    and U :: "'u udp" and got sent :: "'u \<Rightarrow> datagram list"
    and rt :: "('b, 's, 'u, 'x) tokio"
    and log :: "'x shared \<Rightarrow> (chan \<times> ('b, 's, 'u) command) list"
    and tasks :: "'x shared \<Rightarrow> ('b, 's, 'u) task list" +
  fixes bind :: "socket_addr \<Rightarrow> ('u, unit, 'x shared) async"
  assumes bind_silent: "bind a w = Some (q, w') \<Longrightarrow> log w' = log w"
    and shutdown_quiet: "tcp_shutdown T x \<noteq> Some (Panic, x')"

context running
begin

lemma arrive_ok:
  assumes "initialize_client K T U bind rt R stream cch udp_port w = Some (r, w')"
    and "fst (rt_channel rt 10 w) \<noteq> cch" and "log w' = log w @ ms"
  shows "list_all (message_ok cch) ms"
proof -
  obtain ch w1 where ch: "rt_channel rt 10 w = (ch, w1)" by fastforce
  with assms(2) have "ch \<noteq> cch" by simp
  from rtm.initialize_sends[OF _ ch this assms(1)] bind_silent assms(3) show ?thesis by fastforce
qed

lemma relays_ok:
  assumes "client_turn K T U rt (c, w) = Some (r, (c', w'))" and "log w' = log w @ ms"
  shows "cli_guid c' = cli_guid c" "to_coord c' = to_coord c" "from_server c' = from_server c"
    and "list_all (message_ok cch) ms"
  using client_turn_relays[OF assms(1)] assms(2) by (auto simp: relays_def list_all_iff)

lemma late_ok:
  assumes "delayed_sync rt ch g a w = Some (Ok (), w')" and "log w' = log w @ ms"
  shows "list_all (message_ok cch) ms"
proof -
  from assms(1) obtain q where q: "client_sync_shines rt ch g a w = Some (q, w')"
    by (auto simp: delayed_sync_def atry_eq elim!: abind_cases)
  have "on_world (client_sync_shines rt ch g a) (co, w) = Some (q, (co, w'))" for co
    using q by (simp add: on_world_def zoom_def)
  with withinD[OF within_sync[OF rtm.closed_sends_packets]] have "rtm.sends_packets w w'" by fastforce
  from rtm.sends_packets_ok[OF this assms(2)] show ?thesis .
qed

lemma leave_ok:
  assumes "client_disconnect T rt (c, w) = Some (r, (c', w'))" and "log w' = log w @ ms"
  shows "ms = (if r = Err SendChannel then [] else [(to_coord c, ServerCmd (DisconnectPlayer (cli_guid c)))])"
  using rtm.client_disconnect_log[OF assms(1) shutdown_quiet] assms(2) by (auto split: if_splits)

lemma shutdown_ok:
  assumes "shutdown rt (co, w) = Some (r, (co', w'))"
  shows "rtm.sends_packets w w'"
proof -
  note closed = rtm.closed_sends_packets
  have "within rtm.sends_packets (for_each (\<lambda>g. abind (atry (disconnect_player rt g)) (\<lambda>_. aret ())) gs)" for gs
    by (intro within_rules[OF closed] within_atry within_disconnect[OF closed])
  from withinD[OF this] assms show ?thesis unfolding shutdown_def by fastforce
qed

lemma serve_ok:
  assumes ok: "system_ok cch s" and co: "sy_coord s = Some co"
    and recv: "received rt (from_clients co) False w (sy_mail s) mail"
    and turn: "coord_turn T rt (co, w) = Some (q, (co', w'))"
    and ms: "log w' = log w @ ms" and ts: "tasks w' = tasks w @ ts"
  shows "q \<noteq> Panic" and "list_all (message_ok cch) (mail @ ms)"
    and "system_ok cch (s\<lparr>sy_coord := Some co', sy_players := sy_players s @ new_players ts,
         sy_syncs := sy_syncs s @ new_syncs ts, sy_mail := mail @ ms\<rparr>)"
proof -
  from turn recv obtain cmd r w1 where first: "take_first (from_clients co) (sy_mail s) = Some (cmd, mail)"
    and r: "rt_recv rt (from_clients co) w = Some (Ok (Some cmd), w1)"
    and run: "coord_handle_command T rt cmd (co, w1) = Some (r, (co', w'))"
    and q: "q = (case r of Ok go \<Rightarrow> Ok go | Err e \<Rightarrow> Ok True | Panic \<Rightarrow> Panic)"
    by (rule coord_turn_cases)
  from ok co have ok': "coord_ok co" "from_clients co = cch" "list_all (message_ok cch) (sy_mail s)"
    by (simp_all add: system_ok_def)
  note mem = take_first_set[OF first]
  from ok'(3) mem have msg: "message_ok cch (from_clients co, cmd)" and rest: "list_all (message_ok cch) mail"
    by (auto simp: list_all_iff)
  have logs: "log w' = log w1 @ ms" "tasks w' = tasks w1 @ ts"
    using rtm.recv_law[OF r] ms ts by simp_all
  note F = rtm.serve_facts[OF shutdown_quiet msg ok'(1,2) run logs]
  from F(1) q show "q \<noteq> Panic" by (auto split: res.splits)
  from F(4) rest show mail': "list_all (message_ok cch) (mail @ ms)" by simp
  have "attended cch (sy_players s @ new_players ts) (mail @ ms) g ch" if "hm_get (to_clients co') g = Some ch" for g ch
    using F(6)[OF that]
  proof (elim disjE conjE)
    assume "hm_get (to_clients co) g = Some ch" and other: "cmd \<noteq> ServerCmd (DisconnectPlayer g)"
    with ok co have "attended cch (sy_players s) (sy_mail s) g ch" by (simp add: system_ok_def)
    with other mem show ?thesis by (auto simp: attended_def)
  qed (auto simp: attended_def)
  with F(2,3,5) mail' ok show "system_ok cch (s\<lparr>sy_coord := Some co', sy_players := sy_players s @ new_players ts,
         sy_syncs := sy_syncs s @ new_syncs ts, sy_mail := mail @ ms\<rparr>)"
    by (auto simp: system_ok_def)
qed

end

inductive_cases sys_stepE [consumes 1, case_names arrive serve quit stop turn leave late]:
  "sys_step K T U bind R rt log tasks cch s s'"

lemma attended_change:
  assumes "attended cch (before @ c # behind) mail g ch" and "cli_guid c' = cli_guid c" and "from_server c' = from_server c"
    and "set mail \<inter> {(cch, ServerCmd (DisconnectPlayer g))} \<subseteq> set mail'"
  shows "attended cch (before @ c' # behind) mail' g ch"
  using assms unfolding attended_def by auto

context running
begin

text \<open>What a turn of the coordinator has logged.\<close>

lemma turn_logs:
  assumes ok: "system_ok cch s" and co: "sy_coord s = Some co"
    and recv: "received rt (from_clients co) False w (sy_mail s) mail"
    and turn: "coord_turn T rt (co, w) = Some (q, (co', w'))"
  shows "\<exists>ms ts. log w' = log w @ ms \<and> tasks w' = tasks w @ ts"
proof -
  from turn recv obtain cmd r w1 where first: "take_first (from_clients co) (sy_mail s) = Some (cmd, mail)"
    and r: "rt_recv rt (from_clients co) w = Some (Ok (Some cmd), w1)"
    and run: "coord_handle_command T rt cmd (co, w1) = Some (r, (co', w'))"
    by (rule coord_turn_cases)
  from ok co take_first_set[OF first] have "message_ok cch (from_clients co, cmd)"
    by (auto simp: system_ok_def list_all_iff)
  from rtm.command_logs[OF shutdown_quiet from_tasks_ok[OF this] run] rtm.recv_law[OF r]
  show ?thesis by simp
qed

lemma step_ok:
  assumes "sys_step K T U bind R rt log tasks cch s s'" and ok: "system_ok cch s"
  shows "system_ok cch s'"
  using assms(1)
proof (cases rule: sys_stepE)
  case (arrive stream udp_port w r w' ms)
  from arrive(4) have "fst (rt_channel rt 10 w) \<noteq> cch" by (simp add: in_use_def)
  from arrive_ok[OF arrive(2) this arrive(5)] ok arrive(1) show ?thesis
    by (auto simp: system_ok_def intro: attended_more)
next
  case (serve co w mail co' w' ms ts)
  from serve_ok(3)[OF ok serve(2-6)] serve(1) show ?thesis by simp
next
  case quit
  with ok show ?thesis by (auto simp: system_ok_def intro: attended_more)
next
  case (stop co w mail s1 co' w' ms)
  obtain co1 w1 where s1: "s1 = (co1, w1)" by fastforce
  obtain ms1 ts1 where logs: "log w1 = log w @ ms1" "tasks w1 = tasks w @ ts1"
    using turn_logs[OF ok stop(2-4)[unfolded s1]] by blast
  from shutdown_ok[OF stop(5)[unfolded s1]] obtain ms2 where "log w' = log w1 @ ms2" "list_all (message_ok cch) ms2"
    using rtm.sends_packets_ok by (auto simp: rtm.sends_packets_def)
  with serve_ok(2)[OF ok stop(2-4)[unfolded s1] logs] stop(6) logs have "list_all (message_ok cch) (mail @ ms)"
    by (auto simp: list_all_iff)
  with ok stop(1) show ?thesis by (simp add: system_ok_def)
next
  case (turn before c behind w mail go c' w' ms)
  note keep = relays_ok(1-3)[OF turn(5,6)] relays_ok(4)[OF turn(5,6), of cch]
  from ok turn(2) have "from_server c \<noteq> cch" by (simp add: system_ok_def)
  with turn(4) have mail: "set mail \<subseteq> set (sy_mail s) \<and> (\<forall>cmd. (cch, cmd) \<in> set (sy_mail s) \<longrightarrow> (cch, cmd) \<in> set mail)"
    by (auto simp: received_def dest!: take_first_set split: if_splits option.splits res.splits)
  then have "list_all (message_ok cch) (mail @ ms)"
    using ok keep(4) by (auto simp: system_ok_def list_all_iff)
  moreover have "attended cch (before @ c' # behind) (mail @ ms) g ch"
    if "attended cch (sy_players s) (sy_mail s) g ch" for g ch
    using that mail unfolding turn(2) by (intro attended_change[OF _ keep(1,3)]) auto
  ultimately show ?thesis using ok keep(2,3) turn(1,2) by (auto simp: system_ok_def)
next
  case (leave before c behind w r c' w' ms)
  note out = leave_ok[OF leave(4,6)]
  from ok leave(2) have c: "to_coord c = cch" by (simp add: system_ok_def)
  with out ok have "list_all (message_ok cch) (sy_mail s @ ms)" by (simp add: system_ok_def)
  moreover have "attended cch (before @ behind) (sy_mail s @ ms) g ch"
    if "attended cch (sy_players s) (sy_mail s) g ch" "sy_coord s \<noteq> None" for g ch
    using that out leave(5) c unfolding leave(2) by (auto simp: attended_def)
  ultimately show ?thesis using ok leave(1,2) by (auto simp: system_ok_def)
next
  case (late before ch g a behind w w' ms)
  from late_ok[OF late(3,4)] ok late(1) show ?thesis
    by (auto simp: system_ok_def intro: attended_more)
qed

lemma reachable_ok: "reachable K T U bind R rt log tasks cch s \<Longrightarrow> system_ok cch s"
proof (induction rule: reachable.induct)
  case (start gr hr)
  show ?case by (simp add: system_ok_def system_start_def coord_ok_def)
next
  case (step s s')
  then show ?case by (blast intro: step_ok)
qed

end

section \<open>A run\<close>

interpretation whole_run: running bytes_list whole_tcp scr_rx scr_tx mailbox_udp mb_got mb_sent
    post_tokio "\<lambda>w. po_log (runtime w)" "\<lambda>w. po_tasks (runtime w)" any_bind
proof (intro running.intro client_task.intro running_axioms.intro whole_socket.tcp_impl_axioms
    mailbox_socket.udp_impl_axioms post_runtime.tokio_impl_axioms)
  show "any_bind a w = Some (q, w') \<Longrightarrow> po_log (runtime w') = po_log (runtime w)" for a w q w'
    by (simp add: any_bind_def)
  show "tcp_shutdown whole_tcp x \<noteq> Some (Panic, x')" for x x'
    by (simp add: whole_tcp_def)
qed

type_synonym test_system = "(u8 list, script, mailbox) system"

abbreviation sample_reachable :: "test_system \<Rightarrow> bool" where
  "sample_reachable \<equiv> reachable bytes_list whole_tcp mailbox_udp any_bind sample_ranks post_tokio
     (\<lambda>w. po_log (runtime w)) (\<lambda>w. po_tasks (runtime w)) 0"

definition empty_coord :: coordinator where
  "empty_coord = \<lparr>clients = hm_new (\<lambda>_ _. 0), to_clients = hm_new (\<lambda>_ _. 0), from_clients = 0\<rparr>"

text \<open>A player has introduced itself.\<close>

definition greeted :: test_system where
  "greeted = \<lparr>sy_coord = Some empty_coord, sy_players = [], sy_syncs = [],
     sy_mail = [(0, ServerCmd (NewPlayer hello_client hello 2))]\<rparr>"

lemma greeted_reachable: "sample_reachable greeted"
proof -
  let ?start = "system_start (\<lambda>_ _. 0) (\<lambda>_ _. 0) 0 :: test_system"
  let ?ms = "[(0, ServerCmd (NewPlayer hello_client hello 2))]"
  have fresh_chan: "fst (rt_channel post_tokio 10 sample_world) \<notin> in_use 0 ?start"
    by (simp add: in_use_def senders_def system_start_def sample_world_def hm_get_def hm_new_def)
  have log: "po_log (runtime hello_world) = po_log (runtime sample_world) @ ?ms"
    by (simp add: hello_world_def new_cell_def)
  have "sys_step bytes_list whole_tcp mailbox_udp any_bind sample_ranks post_tokio (\<lambda>w. po_log (runtime w))
      (\<lambda>w. po_tasks (runtime w)) 0 ?start (?start\<lparr>sy_mail := sy_mail ?start @ ?ms\<rparr>)"
    by (rule sys_step.arrive[OF hello_run _ fresh_chan log]) simp
  moreover have "?start\<lparr>sy_mail := sy_mail ?start @ ?ms\<rparr> = greeted"
    by (simp add: system_start_def greeted_def empty_coord_def)
  ultimately show ?thesis by (auto intro: reachable.intros)
qed

text \<open>The coordinator lets it in.\<close>

definition waiting_world :: "test_post shared" where
  "waiting_world = on_runtime (\<lambda>x. x\<lparr>po_queue := [(0, ServerCmd (NewPlayer hello_client hello 2))]\<rparr>) sample_world"

definition first_coord :: coordinator where
  "first_coord = snd (register FirstConnection 2 hello_client empty_coord)"

definition first_world :: "test_post shared" where
  "first_world = rt_spawn post_tokio (ClientTask hello_client) sample_world"

abbreviation first_row :: test_row where
  "first_row \<equiv> setup_row first_coord first_world 2 hello"

definition first_told :: "test_post shared" where
  "first_told = sent_all first_row first_world"

definition hosting :: test_system where
  "hosting = \<lparr>sy_coord = Some first_coord, sy_players = [hello_client], sy_syncs = [], sy_mail = first_row\<rparr>"

lemma first_coord_maps:
  "hm_get (to_clients first_coord) = [cli_guid hello_client \<mapsto> 2]" "length (hm_entries (clients first_coord)) = 1"
  "length (hm_values (to_clients first_coord)) = 1"
  by (simp_all add: first_coord_def register_def empty_coord_def Let_def hm_get_def hm_insert_def hm_new_def
      hm_values_def hm_iter_def)

lemma first_row_length: "length first_row \<le> 100"
proof -
  have "length (intro_row first_world 2 m x :: test_row) \<le> 3" for m x
    by (cases x) (simp add: intro_row_def to_all_of_def split: option.splits)
  from concat_length[of "intro_row first_world 2 m :: _ \<Rightarrow> test_row" 3 "hm_iter (clients first_coord)" for m, OF this]
  have "length (concat (map (intro_row first_world 2 (max_players (server (sh_settings first_world))))
      (hm_iter (clients first_coord))) :: test_row) \<le> 3"
    using first_coord_maps by simp
  then show ?thesis using first_coord_maps by (simp add: setup_row_def to_all_def)
qed

lemma welcome_turn:
  "coord_turn whole_tcp post_tokio (empty_coord, waiting_world) = Some (Ok True, (first_coord, first_told))"
proof -
  have recv: "post_recv 0 waiting_world = Some (Ok (Some (ServerCmd (NewPlayer hello_client hello 2))), sample_world)"
    by (simp add: post_recv_def waiting_world_def on_runtime_def sample_world_def)
  have free: "can_connect (sh_settings sample_world) (hm_len (clients empty_coord)) hello_client = None"
    by (simp add: can_connect_def sample_world_def settings_default_def server_settings_default_def
        ban_list_settings_default_def hs_contains_def empty_coord_def hm_len_def hm_new_def hm_get_def)
  have data: "pkt_data hello = Connect FirstConnection 8 []" by (simp add: hello_def)
  have reg: "register FirstConnection 2 hello_client empty_coord = (hello_client, first_coord)"
    by (simp add: first_coord_def register_def Let_def)
  have "send_each post_tokio first_row first_world = Some (Ok (), first_told)"
    unfolding first_told_def using first_row_length
    by (intro post_send_each) (simp_all add: first_world_def sample_world_def on_runtime_def queued_def)
  then have "add_client whole_tcp post_tokio (NewPlayer hello_client hello 2) (empty_coord, sample_world) =
      Some (Ok (), (first_coord, first_told))"
    using free reg
    by (simp add: post_runtime.add_client_cases[OF data] post_runtime.accepted_run_def first_world_def[symmetric]
        post_runtime.setup_player_row on_world_def zoom_def abind_def del: post_tokio_ops)
  then have "coord_handle_command whole_tcp post_tokio (ServerCmd (NewPlayer hello_client hello 2))
      (empty_coord, sample_world) = Some (Ok True, (first_coord, first_told))"
    by (simp add: coord_handle_command_def abind_def)
  moreover have "from_clients empty_coord = 0" by (simp add: empty_coord_def)
  ultimately show ?thesis by (simp add: coord_turn_def abind_def on_world_def zoom_def recv)
qed

lemma welcome_received: "received post_tokio (from_clients empty_coord) False waiting_world (sy_mail greeted) []"
  by (simp add: received_def post_recv_def waiting_world_def on_runtime_def greeted_def empty_coord_def)

lemma hosting_reachable: "sample_reachable hosting"
proof -
  have logs: "po_log (runtime first_told) = po_log (runtime waiting_world) @ first_row"
    "po_tasks (runtime first_told) = po_tasks (runtime waiting_world) @ [ClientTask hello_client]"
    by (simp_all add: first_told_def first_world_def waiting_world_def)
  let ?next = "greeted\<lparr>sy_coord := Some first_coord, sy_players := sy_players greeted @ new_players [ClientTask hello_client],
      sy_syncs := sy_syncs greeted @ new_syncs [ClientTask hello_client], sy_mail := [] @ first_row\<rparr>"
  have coord: "sy_coord greeted = Some empty_coord" by (simp add: greeted_def)
  have "sys_step bytes_list whole_tcp mailbox_udp any_bind sample_ranks post_tokio (\<lambda>w. po_log (runtime w))
      (\<lambda>w. po_tasks (runtime w)) 0 greeted ?next"
    using coord welcome_received welcome_turn logs by (rule sys_step.serve)
  moreover have "?next = hosting" by (simp add: greeted_def hosting_def)
  ultimately have "sys_step bytes_list whole_tcp mailbox_udp any_bind sample_ranks post_tokio (\<lambda>w. po_log (runtime w))
      (\<lambda>w. po_tasks (runtime w)) 0 greeted hosting" by simp
  with greeted_reachable show ?thesis by (rule reachable.step)
qed

section \<open>Properties\<close>

text \<open>
  C2. However the tasks of the server interleave, the coordinator never panics: every message it takes
  from its channel is one it has code for and finds its two maps in agreement.
\<close>
theorem coordinator_never_panics:
  assumes "running K T rx tx U got sent rt log tasks bind"
    and "reachable K T U bind R rt log tasks cch s" and "sy_coord s = Some co"
    and "received rt (from_clients co) False w (sy_mail s) mail"
    and "coord_turn T rt (co, w) = Some (r, (co', w'))"
  shows "coord_ok co \<and> r \<noteq> Panic"
proof -
  note ok = running.reachable_ok[OF assms(1,2)]
  from running.turn_logs[OF assms(1) ok assms(3-5)] obtain ms ts where
    "log w' = log w @ ms" "tasks w' = tasks w @ ts" by blast
  from running.serve_ok(1)[OF assms(1) ok assms(3-5) this] ok assms(3) show ?thesis
    by (simp add: system_ok_def)
qed

theorem coordinator_never_panics_witness:
  "coord_ok empty_coord \<and> (Ok True :: (bool, smo_error) res) \<noteq> Panic"
  by (rule coordinator_never_panics[OF whole_run.running_axioms greeted_reachable _ welcome_received welcome_turn])
    (simp add: greeted_def)

text \<open>
  C4. However the tasks interleave, every message that waits for a player's task is a packet, so the task
  never meets a command it has no code for.
\<close>
theorem players_get_packets:
  assumes "running K T rx tx U got sent rt log tasks bind"
    and "reachable K T U bind R rt log tasks cch s" and "c \<in> set (sy_players s)"
    and "take_first (from_server c) (sy_mail s) = Some (cmd, mail)"
  shows "\<exists>p. cmd = PacketCmd p"
proof -
  note ok = running.reachable_ok[OF assms(1,2)]
  from ok take_first_set[OF assms(4)] have "message_ok cch (from_server c, cmd)"
    by (auto simp: system_ok_def list_all_iff)
  moreover from ok assms(3) have "from_server c \<noteq> cch" by (simp add: system_ok_def)
  ultimately show ?thesis by (cases cmd rule: from_tasks.cases) auto
qed

theorem players_get_packets_witness:
  "\<exists>cmd. take_first (from_server hello_client) first_row = Some (cmd, tl first_row) \<and> (\<exists>p. cmd = PacketCmd p)"
proof -
  have "\<exists>cmd. take_first (from_server hello_client) first_row = Some (cmd, tl first_row)"
    by (simp add: setup_row_def first_coord_def register_def empty_coord_def Let_def hm_insert_def hm_new_def
        hm_iter_def intro_row_unfold hello_client_def)
  then obtain cmd where cmd: "take_first (from_server hello_client) (sy_mail hosting) = Some (cmd, tl first_row)"
    by (auto simp: hosting_def)
  have "hello_client \<in> set (sy_players hosting)" by (simp add: hosting_def)
  from players_get_packets[OF whole_run.running_axioms hosting_reachable this cmd] cmd show ?thesis
    by (auto simp: hosting_def)
qed

text \<open>
  C3. However the tasks interleave, the coordinator keeps no ghosts: for every player in its map some
  task is reading that very channel, or the message that will remove the player is already on its way.
\<close>
theorem no_ghost_players:
  assumes "running K T rx tx U got sent rt log tasks bind"
    and "reachable K T U bind R rt log tasks cch s" and "sy_coord s = Some co"
    and "hm_get (to_clients co) g = Some ch"
  shows "(\<exists>c \<in> set (sy_players s). cli_guid c = g \<and> from_server c = ch)
     \<or> (cch, ServerCmd (DisconnectPlayer g)) \<in> set (sy_mail s)"
  using running.reachable_ok[OF assms(1,2)] assms(3,4) by (auto simp: system_ok_def attended_def)

theorem no_ghost_players_witness:
  "(\<exists>c \<in> set (sy_players hosting). cli_guid c = cli_guid hello_client \<and> from_server c = 2)
     \<or> (0, ServerCmd (DisconnectPlayer (cli_guid hello_client))) \<in> set (sy_mail hosting)"
  by (rule no_ghost_players[OF whole_run.running_axioms hosting_reachable, of first_coord])
    (simp_all add: hosting_def first_coord_maps)

section \<open>A player who comes back\<close>

text \<open>The channels that what has been sent went to; all of it packets.\<close>

definition posts_to :: "chan set \<Rightarrow> (chan \<times> ('b, 's, 'u) command) list \<Rightarrow> bool" where
  "posts_to A ms \<longleftrightarrow> (\<forall>(ch, cmd) \<in> set ms. ch \<in> A \<and> (\<exists>p. cmd = PacketCmd p))"

lemma posts_to_rows [simp]:
  "posts_to A []" "posts_to A (ms @ ns) \<longleftrightarrow> posts_to A ms \<and> posts_to A ns"
  "posts_to A (to_all (PacketCmd p) chs) \<longleftrightarrow> set chs \<subseteq> A"
  "ch \<in> A \<Longrightarrow> posts_to A (to_all_of ch ps)"
  by (simp_all add: posts_to_def ball_Un to_all_def to_all_of_def subset_eq)

lemma posts_to_take: "posts_to A ms \<Longrightarrow> posts_to A (take k ms)"
  by (auto simp: posts_to_def dest: in_set_takeD)

context tokio_impl
begin

lemma row_posts:
  assumes "send_each rt ms w = Some (r, w')" and "posts_to A ms"
  shows "\<exists>ns. log w' = log w @ ns \<and> posts_to A ns"
  using send_each_log[OF assms(1)] assms(2) posts_to_take[OF assms(2)] by auto

lemma introductions_post:
  "for_each (introduce rt comm m) xs (co, w) = Some (r, (co', w')) \<Longrightarrow> comm \<in> A \<Longrightarrow>
   co' = co \<and> (\<exists>ns. log w' = log w @ ns \<and> posts_to A ns)"
proof (induction xs arbitrary: w)
  case (Cons x xs)
  from Cons.prems(1) have "abind (introduce rt comm m x) (\<lambda>_. for_each (introduce rt comm m) xs) (co, w) =
      Some (r, (co', w'))" by simp
  moreover have one: "co1 = co \<and> (\<exists>ns. log w1 = log w @ ns \<and> posts_to A ns)"
    if "introduce rt comm m x (co, w) = Some (q, (co1, w1))" for q co1 w1
  proof -
    have "posts_to A (intro_row w comm m x)"
      using Cons.prems(2) by (cases x) (simp add: intro_row_def)
    with that row_posts[of "intro_row w comm m x" w q w1 A] show ?thesis
      by (auto simp: introduce_row on_world_run)
  qed
  ultimately show ?case
  proof (cases rule: abind_cases)
    case (ok u s1)
    obtain co1 w1 where s1: "s1 = (co1, w1)" by fastforce
    from one[OF ok(1)[unfolded s1]] obtain ns where ns: "co1 = co" "log w1 = log w @ ns" "posts_to A ns" by blast
    from ok(2) s1 ns(1) Cons.IH[of w1] Cons.prems(2) obtain ns' where
      "co' = co" "log w' = log w1 @ ns'" "posts_to A ns'" by blast
    with ns show ?thesis by (intro conjI exI[of _ "ns @ ns'"]) simp_all
  qed (use one in blast)+
qed simp

lemma setup_posts:
  assumes "setup_player rt comm p (co, w) = Some (r, (co', w'))"
    and "comm \<in> A" and "set (hm_values (to_clients co)) \<subseteq> A"
  shows "co' = co \<and> (\<exists>ns. log w' = log w @ ns \<and> posts_to A ns)"
proof -
  let ?m = "max_players (server (sh_settings w))"
  from assms(1) have "abind (\<lambda>s. for_each (introduce rt comm ?m) (hm_iter (clients (fst s))) s)
      (\<lambda>_. broadcast rt p) (co, w) = Some (r, (co', w'))"
    by (simp add: setup_player_def abind_def[of "agets _"])
  then show ?thesis
  proof (cases rule: abind_cases)
    case (ok u s1)
    obtain co1 w1 where s1: "s1 = (co1, w1)" by fastforce
    from introductions_post[of comm ?m "hm_iter (clients co)" co w "Ok u" co1 w1, OF _ assms(2)] ok(1) s1
    obtain ns where ns: "co1 = co" "log w1 = log w @ ns" "posts_to A ns" by auto
    from ok(2) s1 ns(1) have "send_each rt (to_all (PacketCmd (resize p)) (hm_values (to_clients co))) w1 = Some (r, w')"
      and "co' = co"
      by (auto simp: broadcast_row on_world_run)
    with row_posts[of "to_all (PacketCmd (resize p)) (hm_values (to_clients co))" w1 r w' A] assms(3)
    obtain ns' where "log w' = log w1 @ ns'" "posts_to A ns'" by auto
    with ns \<open>co' = co\<close> show ?thesis by (intro conjI exI[of _ "ns @ ns'"]) simp_all
  qed (use introductions_post[of comm ?m "hm_iter (clients co)" co w, OF _ assms(2)] in auto)
qed

text \<open>Letting a player in sends to the channels of the players the coordinator knows then.\<close>

lemma admission_posts:
  assumes "pkt_data p = Connect c_type m name" and "coord_ok co"
    and "add_client T rt (NewPlayer cli p comm) (co, w) = Some (Ok (), (co', w'))"
  shows "\<exists>ns. log w' = log w @ ns \<and> posts_to (ran (hm_get (to_clients co'))) ns"
proof -
  obtain cli1 co1 where reg: "register c_type comm cli co = (cli1, co1)" by fastforce
  note R = register_ok(1,3)[OF assms(2) reg]
  have ran: "comm \<in> ran (hm_get (to_clients co1))"
    by (rule ranI[of _ "cli_guid cli"]) (simp add: R(2))
  have vals: "set (hm_values (to_clients co1)) \<subseteq> ran (hm_get (to_clients co1))"
    using hm_values_mem[of "to_clients co1"] R(1) by (auto simp: coord_ok_def ran_def)
  from assms(3) have "can_connect (sh_settings w) (hm_len (clients co)) cli = None"
    by (auto simp: add_client_cases[OF assms(1)] on_world_run split: option.splits elim!: abind_cases)
  with assms(3) reg have "abind (atry (setup_player rt comm p)) (\<lambda>result. case result of
        Some e \<Rightarrow> abind (disconnect_player rt (cli_guid cli)) (\<lambda>_. athrow e)
      | None \<Rightarrow> aret ()) (co1, rt_spawn rt (ClientTask cli1) w) = Some (Ok (), (co', w'))"
    by (simp add: add_client_cases[OF assms(1)] accepted_run_def)
  then obtain u where "setup_player rt comm p (co1, rt_spawn rt (ClientTask cli1) w) = Some (Ok u, (co', w'))"
    by (auto simp: abind_eq_Ok atry_eq split: option.splits)
  from setup_posts[OF this ran vals] show ?thesis by (simp add: spawn_law)
qed

end

text \<open>A task whose channel is closed ends, and says so.\<close>

lemma closed_channel_ends:
  assumes "tokio_impl rt log tasks" and "\<And>x x'. tcp_shutdown T x \<noteq> Some (Panic, x')"
    and "alive c" and "rt_pick rt w = FromServer" and "rt_recv rt (from_server c) w = Some (Ok None, w1)"
    and "handle_events K T U rt (c, w) = Some (Ok (), (c', w'))"
  shows "log w' = log w @ [(to_coord c, ServerCmd (DisconnectPlayer (cli_guid c)))]"
proof -
  have "recv_command rt (c, w) = Some (Ok None, (c, w1))"
    by (simp add: recv_command_def on_shared_def zoom_def assms(5))
  then have "client_turn K T U rt (c, w) = Some (Ok False, (c\<lparr>alive := False\<rparr>, w1))"
    by (simp add: client_turn_def read_event_def assms(4) abind_def)
  then have "client_loop K T U rt (c, w) = Some (Ok (), (c\<lparr>alive := False\<rparr>, w1))"
    using assms(3) by (subst client_loop.simps) (simp add: abind_def)
  with assms(6) have "client_disconnect T rt (c\<lparr>alive := False\<rparr>, w1) = Some (Ok (), (c', w'))"
    by (auto simp: handle_events_def abind_eq_Ok)
  from tokio_impl.client_disconnect_log[OF assms(1) this assms(2)] tokio_impl.recv_law[OF assms(1,5)]
  show ?thesis by simp
qed

text \<open>
  The state in which a player comes back: the coordinator knows the player's old task by its channel,
  is the only one that can send on it, has nothing waiting there, and finds the new connection next.
\<close>

definition coming_back ::
  "chan \<Rightarrow> ('b, 's, 'u) system \<Rightarrow> coordinator \<Rightarrow> ('b, 's, 'u) client \<Rightarrow> ('b, 's, 'u) client \<Rightarrow> packet \<Rightarrow> chan \<Rightarrow>
   (chan \<times> ('b, 's, 'u) command) list \<Rightarrow> bool" where
  "coming_back cch s co old cli p comm mail \<longleftrightarrow>
     system_ok cch s \<and> sy_coord s = Some co \<and> old \<in> set (sy_players s) \<and> alive old
     \<and> (\<forall>g. hm_get (to_clients co) g = Some (from_server old) \<longleftrightarrow> g = cli_guid old)
     \<and> closed_for (s\<lparr>sy_coord := None\<rparr>) (from_server old)
     \<and> take_first cch (sy_mail s) = Some (ServerCmd (NewPlayer cli p comm), mail)
     \<and> cli_guid cli = cli_guid old"

lemma return_closes:
  assumes "tokio_impl rt log tasks" and begun: "coming_back cch s co old cli p comm mail"
    and run: "add_client T rt (NewPlayer cli p comm) (co, w) = Some (Ok (), (co1, w1))"
    and "log w1 = log w @ ms" and "tasks w1 = tasks w @ ts"
    and s1: "s1 = s\<lparr>sy_coord := Some co1, sy_players := sy_players s @ new_players ts,
      sy_syncs := sy_syncs s @ new_syncs ts, sy_mail := mail @ ms\<rparr>"
  shows "coord_ok co1" and "hm_get (to_clients co1) = (hm_get (to_clients co))(cli_guid old \<mapsto> comm)"
    and "\<exists>a. ts = [ClientTask (cli\<lparr>cli_data := a\<rparr>)]" and "from_server cli = comm"
    and "closed_for s1 (from_server old)"
proof -
  have ok: "coord_ok co" using begun by (simp add: coming_back_def system_ok_def)
  have next_msg: "(cch, ServerCmd (NewPlayer cli p comm)) \<in> set (sy_mail s)" and left: "set mail \<subseteq> set (sy_mail s)"
    using take_first_set[of cch "sy_mail s"] begun by (auto simp: coming_back_def)
  with begun have "message_ok cch (cch, ServerCmd (NewPlayer cli p comm))"
    by (auto simp: coming_back_def system_ok_def list_all_iff)
  then obtain c_type m name where p: "pkt_data p = Connect c_type m name" and comm: "from_server cli = comm" by auto
  show "from_server cli = comm" using comm .
  obtain cli1 where reg: "register c_type comm cli co = (cli1, co1)"
    and ts: "ts = [ClientTask cli1]"
    using admission_outcome[OF assms(1) p run] assms(5)
    by (cases "can_connect (sh_settings w) (hm_len (clients co)) cli"; cases "register c_type comm cli co") auto
  note R = register_ok[OF ok reg]
  show "coord_ok co1" by (rule R(1))
  show maps: "hm_get (to_clients co1) = (hm_get (to_clients co))(cli_guid old \<mapsto> comm)"
    using R(3) begun by (simp add: coming_back_def)
  show "\<exists>a. ts = [ClientTask (cli\<lparr>cli_data := a\<rparr>)]" using ts R(7) by metis
  have other: "comm \<noteq> from_server old"
    using begun next_msg by (auto simp: coming_back_def closed_for_def senders_def)
  then have gone: "from_server old \<notin> ran (hm_get (to_clients co1))"
    using begun unfolding maps by (auto simp: ran_def coming_back_def split: if_splits)
  from tokio_impl.admission_posts[OF assms(1) p ok run] assms(4)
  have sent: "posts_to (ran (hm_get (to_clients co1))) ms" by auto
  have "from_server old \<notin> fst ` set (mail @ ms)"
    using sent gone left begun by (force simp: posts_to_def coming_back_def closed_for_def)
  moreover have "from_server old \<notin> senders s1"
    using sent gone left begun ts
    by (fastforce simp: s1 senders_def posts_to_def coming_back_def closed_for_def)
  ultimately show "closed_for s1 (from_server old)" by (simp add: closed_for_def s1)
qed

text \<open>
  C13. What becomes of a player who comes back while the server still runs the task of the old
  connection, and no other message comes between: the coordinator lets the new connection in and
  starts its task; by that the old task's channel is closed, for nobody holds it any more; the old
  task, when it next looks there, ends and asks the coordinator to disconnect the guid; the
  coordinator does so, forgets the new connection, and sends its task the \<open>Disconnect\<close> packet; with
  that the new task ends. So the
  player is connected no more. (The state of the start can be any that the system's invariant
  allows, with nothing waiting in the old task's channel; what the other tasks do to the shared
  memory in between is left open.)
\<close>
theorem return_ends_new_connection:
  assumes "running K T rx tx U got sent rt log tasks bind"
    and "coming_back cch s co old cli p comm mail"
    and "coord_handle_command T rt (ServerCmd (NewPlayer cli p comm)) (co, w) = Some (Ok True, (co1, w1))"
    and "log w1 = log w @ ms" and "tasks w1 = tasks w @ ts"
    and "s1 = s\<lparr>sy_coord := Some co1, sy_players := sy_players s @ new_players ts,
      sy_syncs := sy_syncs s @ new_syncs ts, sy_mail := mail @ ms\<rparr>"
    and "rt_pick rt v = FromServer"
    and "received rt (from_server old) (closed_for s1 (from_server old)) v (sy_mail s1) mail1"
    and "handle_events K T U rt (old, v) = Some (Ok (), (old', v'))"
    and "log v' = log v @ ks" and "(cch, cmd) \<in> set ks"
    and "coord_handle_command T rt cmd (co1, x) = Some (Ok b, (co2, x'))"
    and "log x' = log x @ ns"
  shows "\<exists>new q. ts = [ClientTask new] \<and> cli_guid new = cli_guid old \<and> from_server new = comm
     \<and> hm_get (to_clients co1) (cli_guid old) = Some comm
     \<and> closed_for s1 (from_server old)
     \<and> ks = [(cch, cmd)] \<and> cmd = ServerCmd (DisconnectPlayer (cli_guid old))
     \<and> hm_get (clients co2) (cli_guid old) = None \<and> hm_get (to_clients co2) (cli_guid old) = None
     \<and> ns \<noteq> [] \<and> last ns = (from_server new, PacketCmd q)
     \<and> handle_command K T U (PacketCmd q) (new, u) = Some (Ok (), (new\<lparr>alive := False\<rparr>, u))"
proof -
  have Q: "tokio_impl rt log tasks" using assms(1) by (simp add: running_def client_task_def)
  from assms(3) have run: "add_client T rt (NewPlayer cli p comm) (co, w) = Some (Ok (), (co1, w1))"
    by (auto simp: coord_handle_command_def abind_eq_Ok)
  note C = return_closes[OF Q assms(2) run assms(4-6)]
  obtain a where ts: "ts = [ClientTask (cli\<lparr>cli_data := a\<rparr>)]" using C(3) by blast
  from assms(2) have old: "alive old" "to_coord old = cch" "cli_guid cli = cli_guid old"
    by (auto simp: coming_back_def system_ok_def)
  from C(5) have "\<nexists>m q. take_first (from_server old) (sy_mail s1) = Some (m, q)"
    using take_first_set[of "from_server old" "sy_mail s1"] by (force simp: closed_for_def)
  with assms(8) obtain v1 where "rt_recv rt (from_server old) v = Some (Ok None, v1)"
    by (auto simp: received_def split: option.splits res.splits)
  from closed_channel_ends[OF Q running.shutdown_quiet[OF assms(1)] old(1) assms(7) this assms(9)] assms(10,11) old(2)
  have cmd: "cmd = ServerCmd (DisconnectPlayer (cli_guid old))" and ks: "ks = [(cch, cmd)]" by simp_all
  let ?q = "gone_packet (cli_guid old)"
  from assms(12) have "co2 = without (cli_guid old) co1" and "send_each rt (gone_row (cli_guid old) co1) x = Some (Ok (), x')"
    by (auto simp: cmd coord_handle_command_def disconnect_row on_world_run abind_eq_Ok)
  with without_ok(2,3)[OF C(1)] tokio_impl.send_each_log[OF Q this(2)] assms(13) C(2)
  have "hm_get (clients co2) (cli_guid old) = None" "hm_get (to_clients co2) (cli_guid old) = None"
    "ns \<noteq> [] \<and> last ns = (comm, PacketCmd ?q)"
    by (auto simp: gone_row_def to_all_def)
  moreover have "handle_command K T U (PacketCmd ?q) (cli\<lparr>cli_data := a\<rparr>, u) =
      Some (Ok (), (cli\<lparr>cli_data := a, alive := False\<rparr>, u))"
    using old(3) by (simp add: handle_command_def gone_packet_def)
  ultimately show ?thesis
    using ts old(3) C(2,4,5) cmd ks by (intro exI[of _ "cli\<lparr>cli_data := a\<rparr>"] exI[of _ ?q]) simp
qed

text \<open>The first of two players comes back: its old task on channel 20, its new connection on 22.\<close>

definition old_task :: "(u8 list, script, mailbox) client" where
  "old_task = namesake\<lparr>from_server := 20\<rparr>"

definition new_task :: "(u8 list, script, mailbox) client" where
  "new_task = namesake\<lparr>from_server := 22, cli_data := 12\<rparr>"

definition returning :: test_system where
  "returning = \<lparr>sy_coord = Some two_clients, sy_players = [old_task, namesake\<lparr>cli_guid := g2, from_server := 21\<rparr>],
     sy_syncs = [], sy_mail = [(0, ServerCmd (NewPlayer new_task back_packet 22))]\<rparr>"

lemma old_task_parts: "from_server old_task = 20" "alive old_task" "to_coord old_task = 0" "cli_guid old_task = g1"
  "from_server new_task = 22" "to_coord new_task = 0" "cli_guid new_task = g1"
  by (simp_all add: old_task_def new_task_def namesake_def fresh_def sample_client_def)

lemma two_clients_channels: "hm_get (to_clients two_clients) = [g1 \<mapsto> 20, g2 \<mapsto> 21]"
  by (simp add: two_clients_def hm_get_def fun_eq_iff)

lemma returning_back: "coming_back 0 returning two_clients old_task new_task back_packet 22 []"
proof -
  have guids: "cli_guid (namesake\<lparr>cli_guid := g2, from_server := 21\<rparr>) = g2"
    "from_server (namesake\<lparr>cli_guid := g2, from_server := 21\<rparr>) = 21"
    "to_coord (namesake\<lparr>cli_guid := g2, from_server := 21\<rparr>) = 0"
    by (simp_all add: namesake_def fresh_def sample_client_def)
  have "attended 0 (sy_players returning) (sy_mail returning) g ch"
    if "hm_get (to_clients two_clients) g = Some ch" for g ch
    using that by (auto simp: attended_def returning_def two_clients_channels old_task_parts guids split: if_splits)
  moreover have "from_clients two_clients = 0" by (simp add: two_clients_def)
  ultimately have "system_ok 0 returning"
    by (simp add: system_ok_def two_clients_ok returning_def old_task_parts guids back_packet_def)
  moreover have "hm_get (to_clients two_clients) g = Some 20 \<longleftrightarrow> g = g1" for g
    by (simp add: two_clients_channels)
  ultimately show ?thesis
    by (auto simp: coming_back_def old_task_parts closed_for_def senders_def) (auto simp: returning_def)
qed

definition back_coord :: coordinator where
  "back_coord = snd (register Reconnecting 22 new_task two_clients)"

definition back_spawned :: "test_post shared" where
  "back_spawned = rt_spawn post_tokio (ClientTask (new_task\<lparr>cli_data := 10\<rparr>)) sample_world"

definition back_row :: test_row where
  "back_row = setup_row back_coord back_spawned 22 back_packet"

lemma back_register: "register Reconnecting 22 new_task two_clients = (new_task\<lparr>cli_data := 10\<rparr>, back_coord)"
  by (simp add: back_coord_def register_def two_clients_def old_task_parts Let_def hm_get_def)

lemma back_coord_size: "length (hm_entries (clients back_coord)) = 2" "length (hm_values (to_clients back_coord)) = 2"
  by (simp_all add: back_coord_def register_def two_clients_def old_task_parts Let_def hm_get_def hm_insert_def
      hm_len_def)

lemma back_row_length: "length back_row \<le> 100"
proof -
  have "length (intro_row back_spawned 22 m x :: test_row) \<le> 3" for m x
    by (cases x) (simp add: intro_row_def to_all_of_def split: option.splits)
  from concat_length[of "intro_row back_spawned 22 m :: _ \<Rightarrow> test_row" 3 "hm_iter (clients back_coord)" for m, OF this]
  have "length (concat (map (intro_row back_spawned 22 (max_players (server (sh_settings back_spawned))))
      (hm_iter (clients back_coord))) :: test_row) \<le> 6"
    using back_coord_size by simp
  then show ?thesis using back_coord_size by (simp add: back_row_def setup_row_def to_all_def)
qed

lemma back_run:
  "coord_handle_command whole_tcp post_tokio (ServerCmd (NewPlayer new_task back_packet 22)) (two_clients, sample_world) =
     Some (Ok True, (back_coord, sent_all back_row back_spawned))"
proof -
  have free: "can_connect (sh_settings sample_world) (hm_len (clients two_clients)) new_task = None"
    by (simp add: can_connect_def sample_world_def settings_default_def server_settings_default_def
        ban_list_settings_default_def hs_contains_def two_clients_def hm_len_def hm_new_def hm_get_def)
  have data: "pkt_data back_packet = Connect Reconnecting 8 (str_lit ''bob'')" by (simp add: back_packet_def)
  have "send_each post_tokio back_row back_spawned = Some (Ok (), sent_all back_row back_spawned)"
    using back_row_length
    by (intro post_send_each) (simp_all add: back_spawned_def sample_world_def on_runtime_def queued_def)
  then have "add_client whole_tcp post_tokio (NewPlayer new_task back_packet 22) (two_clients, sample_world) =
      Some (Ok (), (back_coord, sent_all back_row back_spawned))"
    using free
    by (simp add: post_runtime.add_client_cases[OF data] post_runtime.accepted_run_def back_register
        back_spawned_def[symmetric] back_row_def post_runtime.setup_player_row on_world_def zoom_def abind_def
        del: post_tokio_ops)
  then show ?thesis by (simp add: coord_handle_command_def abind_def)
qed

text \<open>The old task finds its channel closed.\<close>

definition closed_world :: "test_post shared" where
  "closed_world = on_runtime (\<lambda>x. x\<lparr>po_closed := [20], po_pick := FromServer\<rparr>) sample_world"

lemma old_task_run:
  "handle_events bytes_list whole_tcp mailbox_udp post_tokio (old_task, closed_world) =
     Some (Ok (), (old_task\<lparr>alive := False\<rparr>, sent_on 0 (ServerCmd (DisconnectPlayer g1)) closed_world))"
proof -
  have pick: "rt_pick post_tokio closed_world = FromServer" by (simp add: closed_world_def)
  have recv: "post_recv 20 closed_world = Some (Ok None, closed_world)"
    by (simp add: post_recv_def closed_world_def sample_world_def)
  have "recv_command post_tokio (old_task, closed_world) = Some (Ok None, (old_task, closed_world))"
    by (simp add: recv_command_def on_shared_def zoom_def old_task_parts recv)
  then have "client_turn bytes_list whole_tcp mailbox_udp post_tokio (old_task, closed_world) =
      Some (Ok False, (old_task\<lparr>alive := False\<rparr>, closed_world))"
    using pick by (simp add: client_turn_def read_event_def abind_def)
  with old_task_parts(2) have "client_loop bytes_list whole_tcp mailbox_udp post_tokio (old_task, closed_world) =
      Some (Ok (), (old_task\<lparr>alive := False\<rparr>, closed_world))"
    by (subst client_loop.simps) (simp add: abind_def)
  moreover have "tcp_shutdown whole_tcp = aret ()" by (simp add: whole_tcp_def)
  moreover have "rt_send post_tokio 0 cmd closed_world = Some (Ok (), sent_on 0 cmd closed_world)" for cmd
    by (simp add: post_send_def closed_world_def sample_world_def queued_def sent_all_def on_runtime_def)
  ultimately show ?thesis
    by (simp add: handle_events_def client_disconnect_def on_shared_def on_conn_def zoom_def send_def
        abind_def io_def old_task_parts del: post_tokio_ops)
qed

lemma evict_run:
  "coord_handle_command whole_tcp post_tokio (ServerCmd (DisconnectPlayer g1)) (back_coord, sample_world) =
     Some (Ok True, (without g1 back_coord, sent_all (gone_row g1 back_coord) sample_world))"
proof -
  have "length (hm_values (to_clients (without g1 back_coord))) \<le> 2"
    using back_coord_size length_delete_le[of g1 "hm_entries (to_clients back_coord)"]
    by (simp add: without_def hm_remove_def hm_len_def hm_values_def)
  then have "length (gone_row g1 back_coord :: test_row) \<le> 100"
    by (simp add: gone_row_def to_all_def split: option.splits)
  then have "send_each post_tokio (gone_row g1 back_coord) sample_world =
      Some (Ok (), sent_all (gone_row g1 back_coord) sample_world)"
    by (rule sample_row)
  then show ?thesis by (simp add: coord_handle_command_def disconnect_row on_world_def zoom_def abind_def)
qed

theorem return_ends_new_connection_witness:
  "\<exists>new q. [ClientTask (new_task\<lparr>cli_data := 10\<rparr>)] = [ClientTask new] \<and> cli_guid new = g1 \<and> from_server new = 22
     \<and> hm_get (to_clients back_coord) g1 = Some 22
     \<and> hm_get (to_clients (without g1 back_coord)) g1 = None
     \<and> (gone_row g1 back_coord :: test_row) \<noteq> [] \<and> last (gone_row g1 back_coord :: test_row) = (from_server new, PacketCmd q)
     \<and> handle_command bytes_list whole_tcp mailbox_udp (PacketCmd q) (new, sample_world) =
         Some (Ok (), (new\<lparr>alive := False\<rparr>, sample_world))"
proof -
  let ?w1 = "sent_all back_row back_spawned"
  let ?s1 = "returning\<lparr>sy_coord := Some back_coord,
      sy_players := sy_players returning @ new_players [ClientTask (new_task\<lparr>cli_data := 10\<rparr>)],
      sy_syncs := sy_syncs returning @ new_syncs [ClientTask (new_task\<lparr>cli_data := 10\<rparr>)], sy_mail := [] @ back_row\<rparr>"
  have logs: "plog ?w1 = plog sample_world @ back_row"
    "po_tasks (runtime ?w1) = po_tasks (runtime sample_world) @ [ClientTask (new_task\<lparr>cli_data := 10\<rparr>)]"
    by (simp_all add: back_spawned_def)
  from back_run have run: "add_client whole_tcp post_tokio (NewPlayer new_task back_packet 22) (two_clients, sample_world) =
      Some (Ok (), (back_coord, ?w1))"
    by (auto simp: coord_handle_command_def abind_eq_Ok)
  have "closed_for ?s1 (from_server old_task)"
    by (rule return_closes(5)[OF post_runtime.tokio_impl_axioms returning_back run logs refl])
  then have recv: "received post_tokio (from_server old_task) (closed_for ?s1 (from_server old_task)) closed_world
      (sy_mail ?s1) (sy_mail ?s1)"
    by (simp add: received_def old_task_parts) (simp add: post_recv_def closed_world_def sample_world_def)
  have pick: "rt_pick post_tokio closed_world = FromServer" by (simp add: closed_world_def)
  have told: "plog (sent_on 0 (ServerCmd (DisconnectPlayer g1)) closed_world) =
      plog closed_world @ [(0, ServerCmd (DisconnectPlayer g1))]"
    "plog (sent_all (gone_row g1 back_coord) sample_world) = plog sample_world @ gone_row g1 back_coord"
    by simp_all
  from return_ends_new_connection[OF whole_run.running_axioms returning_back back_run logs refl pick recv
      old_task_run told(1) list.set_intros(1) evict_run told(2), of sample_world]
  show ?thesis
    unfolding old_task_parts by (elim exE conjE) ((rule exI)+, intro conjI, assumption+)
qed

end
