(* ===== verification/Lobby.thy ===== *)
theory Lobby
  imports Coordinator_Rules
begin

text \<open>
  What the coordinator promises, without its maps, channels and locks: a lobby, one registry of the
  players with the shines collected so far. Each handler of \<open>src/coordinator.rs\<close>, as it is modelled in
  \<open>Coordinator\<close>, does to the lobby what \<open>lobby_command\<close> says, and so does every run of them.
\<close>

section \<open>The abstract server\<close>

text \<open>A member is known with the data it works on and the channel of its task.\<close>

record lobby =
  lb_rules :: settings
  lb_members :: "guid \<Rightarrow> (nat \<times> chan) option"
  lb_shines :: "i32 set"

definition lobby_admits :: "lobby \<Rightarrow> ('b, 's, 'u) client \<Rightarrow> bool" where
  "lobby_admits L cli \<longleftrightarrow> card (dom (lb_members L)) \<le> unat (max_players (server (lb_rules L)))
     \<and> cli_guid cli \<notin> hs_set (ban_players (ban_list (lb_rules L)))
     \<and> addr_ip (conn_addr (conn cli)) \<notin> hs_set (ban_ips (ban_list (lb_rules L)))"

definition lobby_leave :: "guid \<Rightarrow> lobby \<Rightarrow> lobby" where
  "lobby_leave g L = L\<lparr>lb_members := (lb_members L)(g := None)\<rparr>"

text \<open>A player who comes back goes on with the data it had.\<close>

definition lobby_join :: "connection_type \<Rightarrow> chan \<Rightarrow> ('b, 's, 'u) client \<Rightarrow> lobby \<Rightarrow> lobby" where
  "lobby_join c_type comm cli L = L\<lparr>lb_members := (lb_members L)(cli_guid cli \<mapsto>
     (case lb_members L (cli_guid cli) of
        Some (a, ch) \<Rightarrow> if c_type = Reconnecting then a else cli_data cli
      | None \<Rightarrow> cli_data cli, comm))\<rparr>"

text \<open>One command, given whether the coordinator could tell everybody about it.\<close>

fun lobby_command :: "('b, 's, 'u) command \<times> bool \<Rightarrow> lobby \<Rightarrow> lobby" where
  "lobby_command (ServerCmd (NewPlayer cli p comm), told) L = (case pkt_data p of
       Connect c_type m name \<Rightarrow>
         if \<not> lobby_admits L cli then L
         else if told then lobby_join c_type comm cli L
         else lobby_leave (cli_guid cli) L
     | _ \<Rightarrow> L)"
| "lobby_command (ServerCmd (DisconnectPlayer g), told) L = lobby_leave g L"
| "lobby_command (PacketCmd p, told) L = (case pkt_data p of
       Shine i is_grand \<Rightarrow> L\<lparr>lb_shines := insert i (lb_shines L)\<rparr>
     | Game flat n stage \<Rightarrow>
         if stage = cap_stage \<and> n = 0 \<and> lb_members L (pkt_id p) \<noteq> None then L\<lparr>lb_shines := {}\<rparr> else L
     | _ \<Rightarrow> L)"
| "lobby_command (ServerCmd Shutdown, told) L = L"
| "lobby_command (CliCmd c, told) L = L"

section \<open>The lobby of a coordinator\<close>

definition members_of :: "coordinator \<Rightarrow> guid \<Rightarrow> (nat \<times> chan) option" where
  "members_of co g = (case (hm_get (clients co) g, hm_get (to_clients co) g) of
       (Some a, Some ch) \<Rightarrow> Some (a, ch)
     | _ \<Rightarrow> None)"

definition lobby_of :: "'x costate \<Rightarrow> lobby" where
  "lobby_of s = \<lparr>lb_rules = sh_settings (snd s), lb_members = members_of (fst s),
     lb_shines = hs_set (shine_bag (snd s))\<rparr>"

lemma members_of_None: "coord_ok co \<Longrightarrow> members_of co g = None \<longleftrightarrow> hm_get (clients co) g = None"
  by (auto simp: members_of_def coord_ok_def split: option.splits)

lemma members_len: "coord_ok co \<Longrightarrow> hm_len (clients co) = card (dom (members_of co))"
  using hm.len_card[of "clients co"] members_of_None[of co]
  by (simp add: coord_ok_def dom_def)

lemma members_without: "coord_ok co \<Longrightarrow> members_of (without g co) = (members_of co)(g := None)"
  by (auto simp: members_of_def without_ok fun_eq_iff)

lemma members_register:
  assumes "coord_ok co"
  shows "members_of (snd (register c_type comm cli co)) = (members_of co)(cli_guid cli \<mapsto>
     (case members_of co (cli_guid cli) of
        Some (a, ch) \<Rightarrow> if c_type = Reconnecting then a else cli_data cli
      | None \<Rightarrow> cli_data cli, comm))"
proof -
  obtain cli1 co1 where reg: "register c_type comm cli co = (cli1, co1)" by fastforce
  note R = register_ok[OF assms reg]
  from assms have known: "hm_get (clients co) g = None \<longleftrightarrow> hm_get (to_clients co) g = None" for g
    by (simp add: coord_ok_def)
  have "cli_data cli1 = (case members_of co (cli_guid cli) of
      Some (a, ch) \<Rightarrow> if c_type = Reconnecting then a else cli_data cli | None \<Rightarrow> cli_data cli)"
    using R(5) known[of "cli_guid cli"] by (cases "hm_get (clients co) (cli_guid cli)"; cases "hm_get (to_clients co) (cli_guid cli)")
      (auto simp: members_of_def)
  then show ?thesis
    using R(3,4) reg by (auto simp: members_of_def fun_eq_iff)
qed

lemma can_connect_lobby:
  "coord_ok co \<Longrightarrow> can_connect (sh_settings w) (hm_len (clients co)) cli = None \<longleftrightarrow> lobby_admits (lobby_of (co, w)) cli"
  by (simp add: admission_rule lobby_admits_def lobby_of_def members_len)

section \<open>Every handler does what the lobby does\<close>

fun is_ok :: "('a, 'e) res \<Rightarrow> bool" where
  "is_ok (Ok a) = True"
| "is_ok r = False"

lemma lobby_of_eq:
  "lobby_of s = L \<longleftrightarrow> sh_settings (snd s) = lb_rules L \<and> members_of (fst s) = lb_members L
     \<and> hs_set (shine_bag (snd s)) = lb_shines L"
  by (cases L) (simp add: lobby_of_def)

lemma lobby_rules [simp]: "lb_rules (lobby_command ct L) = lb_rules L"
  by (induction ct L rule: lobby_command.induct)
    (auto simp: lobby_join_def lobby_leave_def split: packet_data.splits)

lemma lobby_shines_kept: "lb_shines (lobby_command (ServerCmd sc, told) L) = lb_shines L"
  by (cases sc) (auto simp: lobby_join_def lobby_leave_def split: packet_data.splits)

lemma join_lobby:
  assumes "tokio_impl rt log tasks" and "coord_ok co" and "pkt_data p = Connect c_type m name"
    and "add_client T rt (NewPlayer cli p comm) (co, w) = Some (r, (co', w'))" and "r \<noteq> Panic"
  shows "members_of co' = lb_members (lobby_command (ServerCmd (NewPlayer cli p comm), is_ok r) (lobby_of (co, w)))"
proof (cases "lobby_admits (lobby_of (co, w)) cli")
  case True
  with can_connect_lobby[OF assms(2)] have admitted:
    "can_connect (sh_settings w) (hm_len (clients co)) cli = None" by blast
  have "coord_ok (snd (register c_type comm cli co))"
    using register_ok(1)[OF assms(2)] by (metis prod.collapse)
  with admission_outcome[OF assms(1,3,4)] admitted True assms(2,3,5) show ?thesis
    by (cases r) (simp_all add: members_without members_register lobby_join_def lobby_leave_def, simp_all add: lobby_of_def)
next
  case False
  with can_connect_lobby[OF assms(2)] obtain e where
    "can_connect (sh_settings w) (hm_len (clients co)) cli = Some e" by fastforce
  with admission_outcome[OF assms(1,3,4)] False assms(3) show ?thesis by (simp add: lobby_of_def)
qed

lemma command_members:
  fixes cmd :: "('b, 's, 'u) command"
  assumes "tokio_impl rt log tasks" and "\<And>s s'. tcp_shutdown T s \<noteq> Some (Panic, s')"
    and "from_tasks cmd" and "coord_ok co"
    and "coord_handle_command T rt cmd (co, w) = Some (r, (co', w'))"
  shows "members_of co' = lb_members (lobby_command (cmd, is_ok r) (lobby_of (co, w)))"
proof (cases cmd)
  case (PacketCmd p)
  have "safe (\<lambda>c. c = co) (coord_handle_command T rt cmd)"
    unfolding PacketCmd using assms(4) by (intro tokio_impl.packet_safe[OF assms(1)]) simp
  from safeD[OF this refl assms(5)] have "co' = co" by simp
  then show ?thesis by (simp add: PacketCmd lobby_of_def split: packet_data.splits)
next
  case (CliCmd c)
  with assms(3) show ?thesis by simp
next
  case (ServerCmd sc)
  show ?thesis
  proof (cases sc)
    case (NewPlayer cli p comm)
    with ServerCmd assms(3) obtain t m n where p: "pkt_data p = Connect t m n" by auto
    from assms(5) obtain q where run: "add_client T rt (NewPlayer cli p comm) (co, w) = Some (q, (co', w'))"
      and q: "is_ok r = is_ok q" "q = Panic \<longleftrightarrow> r = Panic"
      by (auto simp: coord_handle_command_def ServerCmd NewPlayer elim!: abind_cases)
    have "r \<noteq> Panic"
      using tokio_impl.command_safe[OF assms(1-3) tokio_impl.coord_inv_ok[OF assms(1)] assms(4) _ assms(5)]
        register_ok(1)[OF assms(4)] by (metis prod.collapse)
    with join_lobby[OF assms(1,4) p run] q show ?thesis by (simp add: ServerCmd NewPlayer)
  next
    case (DisconnectPlayer g)
    with assms(5) have "co' = without g co"
      by (auto simp: coord_handle_command_def ServerCmd disconnect_row on_world_run elim!: abind_cases)
    with members_without[OF assms(4)] show ?thesis
      by (simp add: ServerCmd DisconnectPlayer lobby_leave_def lobby_of_def)
  next
    case Shutdown
    with assms(5) show ?thesis by (auto simp: coord_handle_command_def ServerCmd lobby_of_def)
  qed
qed

lemma command_shines:
  fixes cmd :: "('b, 's, 'u) command"
  assumes "tokio_quiet rt log tasks" and "from_tasks cmd" and "coord_ok co"
    and "coord_handle_command T rt cmd (co, w) = Some (r, (co', w'))"
  shows "hs_set (shine_bag w') = lb_shines (lobby_command (cmd, told) (lobby_of (co, w)))"
proof -
  have known: "hm_get (clients co) g = None \<longleftrightarrow> lb_members (lobby_of (co, w)) g = None" for g
    by (simp add: lobby_of_def members_of_None[OF assms(3)])
  have bag: "lb_shines (lobby_of (co, w)) = hs_set (shine_bag w)" by (simp add: lobby_of_def)
  note after = command_bag[OF assms(1,2,4)]
  show ?thesis
  proof (cases cmd)
    case (PacketCmd p)
    then show ?thesis unfolding after by (cases "pkt_data p") (auto simp: known bag)
  next
    case (ServerCmd sc)
    then show ?thesis by (simp add: after lobby_shines_kept bag)
  next
    case (CliCmd c)
    with assms(2) show ?thesis by simp
  qed
qed

lemma command_simulates:
  fixes cmd :: "('b, 's, 'u) command"
  assumes "tokio_quiet rt log tasks" and "\<And>s s'. tcp_shutdown T s \<noteq> Some (Panic, s')"
    and "from_tasks cmd" and "coord_ok co"
    and "coord_handle_command T rt cmd (co, w) = Some (r, (co', w'))"
  shows "coord_ok co' \<and> lobby_of (co', w') = lobby_command (cmd, is_ok r) (lobby_of (co, w))"
proof -
  note impl = tokio_quiet.axioms(1)[OF assms(1)]
  have "coord_ok co'"
    using tokio_impl.command_safe[OF impl assms(2,3) tokio_impl.coord_inv_ok[OF impl] assms(4) _ assms(5)]
      register_ok(1)[OF assms(4)] by (metis prod.collapse)
  moreover have "sh_settings w' = lb_rules (lobby_of (co, w))"
    using tokio_quiet.command_settings[OF assms(1,3,5)] by (simp add: same_settings_def lobby_of_def)
  ultimately show ?thesis
    using command_members[OF impl assms(2-5)] command_shines[OF assms(1,3,4,5)]
    by (simp add: lobby_of_eq)
qed

section \<open>Runs of the coordinator\<close>

text \<open>
  The commands a coordinator handled one after the other, each with whether it went through. Between
  two of them the other tasks may do what they like to their players' data and to the channels; the
  bag and the settings are the coordinator's to write.
\<close>

definition elsewhere :: "'x shared \<Rightarrow> 'x shared \<Rightarrow> bool" where
  "elsewhere w w' \<longleftrightarrow> shine_bag w' = shine_bag w \<and> sh_settings w' = sh_settings w"

inductive coord_run ::
  "('b, 'n, 's) tcp \<Rightarrow> ('b, 's, 'u, 'x) tokio \<Rightarrow> 'x costate \<Rightarrow> (('b, 's, 'u) command \<times> bool) list \<Rightarrow>
   'x costate \<Rightarrow> bool" for T rt s where
  run_start: "coord_run T rt s [] s"
| run_next: "coord_run T rt s tr (co, w) \<Longrightarrow> elsewhere w w1 \<Longrightarrow> from_tasks cmd \<Longrightarrow>
    coord_handle_command T rt cmd (co, w1) = Some (r, s') \<Longrightarrow> coord_run T rt s (tr @ [(cmd, is_ok r)]) s'"

lemma lobby_elsewhere: "elsewhere w w' \<Longrightarrow> lobby_of (co, w') = lobby_of (co, w)"
  by (simp add: lobby_of_def elsewhere_def)

lemma run_simulates:
  assumes "tokio_quiet rt log tasks" and "\<And>s s'. tcp_shutdown T s \<noteq> Some (Panic, s')"
    and "coord_ok co" and "coord_run T rt (co, w) trace (co', w')"
  shows "coord_ok co' \<and> lobby_of (co', w') = fold lobby_command trace (lobby_of (co, w))"
  using assms(4)
proof (induction trace "(co', w')" arbitrary: co' w' rule: coord_run.induct)
  case run_start
  with assms(3) show ?case by simp
next
  case (run_next tr co1 w1 w2 cmd r)
  from run_next(2) have ok: "coord_ok co1" and IH: "lobby_of (co1, w1) = fold lobby_command tr (lobby_of (co, w))"
    by simp_all
  from command_simulates[OF assms(1,2) run_next(4) ok run_next(5)] IH lobby_elsewhere[OF run_next(3), of co1]
  show ?case by simp
qed

text \<open>
  C5. The coordinator implements the lobby: after any run of commands, whatever became of each, the
  two maps and the shine bag stand for the lobby that the same commands make of the first one; and
  the maps still know the same players.
\<close>
theorem coordinator_refines_lobby:
  assumes "tokio_quiet rt log tasks" and "\<And>s s'. tcp_shutdown T s \<noteq> Some (Panic, s')"
    and "coord_ok co" and "coord_run T rt (co, w) trace (co', w')"
  shows "coord_ok co' \<and> lobby_of (co', w') = fold lobby_command trace (lobby_of (co, w))"
  by (rule run_simulates[OF assms])

lemma leave_trace:
  "coord_run script_tcp post_tokio (two_clients, sample_world)
     [(ServerCmd (DisconnectPlayer g1), True), (ServerCmd (DisconnectPlayer g2), True)] (emptied, closing_world)"
proof -
  have first: "coord_run script_tcp post_tokio (two_clients, sample_world)
      ([] @ [(ServerCmd (DisconnectPlayer g1), is_ok (Ok True :: (bool, smo_error) res))]) (without g1 two_clients, left_world)"
    by (rule run_next[OF run_start _ _ leave_run]) (simp_all add: elsewhere_def)
  have second: "coord_handle_command script_tcp post_tokio (ServerCmd (DisconnectPlayer g2)) (without g1 two_clients, left_world) =
      Some (Ok True, (emptied, closing_world))"
    by (simp add: coord_handle_command_def disconnect_row close_second on_world_def zoom_def abind_def emptied_def)
  from run_next[OF first _ _ second] show ?thesis by (simp add: elsewhere_def)
qed

theorem coordinator_refines_lobby_witness:
  "coord_ok emptied \<and> lobby_of (emptied, closing_world) =
     fold lobby_command [(ServerCmd (DisconnectPlayer g1) :: (u8 list, script, mailbox) command, True),
       (ServerCmd (DisconnectPlayer g2), True)] (lobby_of (two_clients, sample_world))"
  by (rule coordinator_refines_lobby[OF post_runtime.tokio_quiet_axioms script_shutdown_ok two_clients_ok leave_trace])

section \<open>What is true of the lobby\<close>

text \<open>A property of the abstract server that its coordinator inherits: the limit of players.\<close>

definition within_limit :: "nat \<Rightarrow> lobby \<Rightarrow> bool" where
  "within_limit n L \<longleftrightarrow> finite (dom (lb_members L)) \<and> card (dom (lb_members L)) \<le> n
     \<and> Suc (unat (max_players (server (lb_rules L)))) \<le> n"

lemma leave_limit: "within_limit n L \<Longrightarrow> within_limit n (lobby_leave g L)"
  using card_Diff1_le[of "dom (lb_members L)" g] by (simp add: within_limit_def lobby_leave_def)

lemma join_limit: "within_limit n L \<Longrightarrow> lobby_admits L cli \<Longrightarrow> within_limit n (lobby_join t comm cli L)"
  by (auto simp: within_limit_def lobby_join_def lobby_admits_def card_insert_if)

lemma lobby_limit: "within_limit n L \<Longrightarrow> within_limit n (lobby_command ct L)"
  by (induction ct L rule: lobby_command.induct)
    (auto intro: leave_limit join_limit simp: within_limit_def[of n "_\<lparr>lb_shines := _\<rparr>"] within_limit_def[symmetric]
      split: packet_data.splits)

lemma lobby_limit_run: "within_limit n L \<Longrightarrow> within_limit n (fold lobby_command trace L)"
  by (induction trace arbitrary: L) (simp_all add: lobby_limit)

text \<open>However a run goes, no more than one player above the limit is connected at its end.\<close>

lemma run_limit:
  assumes "tokio_quiet rt log tasks" and "\<And>s s'. tcp_shutdown T s \<noteq> Some (Panic, s')"
    and "coord_ok co" and "coord_run T rt (co, w) trace (co', w')"
  shows "hm_len (clients co') \<le> max (hm_len (clients co)) (Suc (unat (max_players (server (sh_settings w)))))"
proof -
  from run_simulates[OF assms] have ok: "coord_ok co'"
    and sim: "members_of co' = lb_members (fold lobby_command trace (lobby_of (co, w)))"
    by (simp_all add: lobby_of_eq)
  have "dom (members_of co) = dom (hm_get (clients co))"
    using members_of_None[OF assms(3)] by (auto simp: dom_def)
  then have "finite (dom (members_of co))"
    using hm.finite_dom[of "clients co"] assms(3) by (simp add: coord_ok_def)
  then have "within_limit (max (hm_len (clients co)) (Suc (unat (max_players (server (sh_settings w)))))) (lobby_of (co, w))"
    by (simp add: within_limit_def lobby_of_def members_len[OF assms(3)])
  from lobby_limit_run[OF this, of trace] show ?thesis
    by (simp add: within_limit_def members_len[OF ok] sim)
qed

end
