(* ===== verification/Serde.thy ===== *)
theory Serde
  imports Packet_Codec
begin

text \<open>
  A second back end for the wire format, on the crate \<open>serde\<close>: \<open>src/net/header.rs\<close>,
  \<open>src/net/serializer.rs\<close> and \<open>src/net/deserializer.rs\<close>. No module declaration includes these files,
  so the server is built without them. A value is what it asks a serializer for (serde's data model);
  a visitor is what a type does with what the deserializer found.
\<close>

section \<open>The header\<close>

datatype packet_type =
    TUnknown | TInit | TPlayer | TCap | TGame | TTag | TConnect | TDisconnect | TCostume | TShine | TCapture
  | TChangeStage | TCommand

record packet_header =
  hdr_id :: guid
  hdr_type :: packet_type
  hdr_size :: u16

text \<open>The numbers a derived \<open>Serialize\<close> gives the variants: their order.\<close>

fun packet_type_index :: "packet_type \<Rightarrow> u32" where
  "packet_type_index TUnknown = 0"
| "packet_type_index TInit = 1"
| "packet_type_index TPlayer = 2"
| "packet_type_index TCap = 3"
| "packet_type_index TGame = 4"
| "packet_type_index TTag = 5"
| "packet_type_index TConnect = 6"
| "packet_type_index TDisconnect = 7"
| "packet_type_index TCostume = 8"
| "packet_type_index TShine = 9"
| "packet_type_index TCapture = 10"
| "packet_type_index TChangeStage = 11"
| "packet_type_index TCommand = 12"

section \<open>Buffers in network order\<close>

text \<open>
  The operations of \<open>BufMut\<close> and \<open>Buf\<close> without the suffix \<open>_le\<close>, beside those the packet codec uses.
  An \<open>f64\<close>, like an \<open>f32\<close>, is its bit pattern.
\<close>

record 'w ser_out =
  out_base :: "'w bufmut"
  put_i16 :: "16 word \<Rightarrow> 'w \<Rightarrow> 'w option"
  put_i32 :: "i32 \<Rightarrow> 'w \<Rightarrow> 'w option"
  put_i64 :: "64 word \<Rightarrow> 'w \<Rightarrow> 'w option"
  put_u16 :: "u16 \<Rightarrow> 'w \<Rightarrow> 'w option"
  put_u32 :: "u32 \<Rightarrow> 'w \<Rightarrow> 'w option"
  put_u64 :: "u64 \<Rightarrow> 'w \<Rightarrow> 'w option"
  put_f32 :: "f32 \<Rightarrow> 'w \<Rightarrow> 'w option"
  put_f64 :: "64 word \<Rightarrow> 'w \<Rightarrow> 'w option"

record 'r de_in =
  in_base :: "'r buf"
  get_i16 :: "'r \<Rightarrow> (16 word \<times> 'r) option"
  get_i32 :: "'r \<Rightarrow> (i32 \<times> 'r) option"
  get_i64 :: "'r \<Rightarrow> (64 word \<times> 'r) option"
  get_u16 :: "'r \<Rightarrow> (u16 \<times> 'r) option"
  get_u32 :: "'r \<Rightarrow> (u32 \<times> 'r) option"
  get_u64 :: "'r \<Rightarrow> (u64 \<times> 'r) option"
  get_f32 :: "'r \<Rightarrow> (f32 \<times> 'r) option"
  get_f64 :: "'r \<Rightarrow> (64 word \<times> 'r) option"

section \<open>Serializing\<close>

text \<open>A compound is opened, its parts are serialized one after the other, and it is ended.\<close>

datatype compound = CStruct | CSeq | CTuple | CTupleStruct | CTupleVariant | CMap | CStructVariant

type_synonym 'w ser = "(unit, encoding_error, 'w) prog"

definition serialize_bool :: "'w ser_out \<Rightarrow> bool \<Rightarrow> 'w ser" where
  "serialize_bool O' v = primu (put_u8 (out_base O') (if v then 1 else 0))"

definition serialize_i8 :: "'w ser_out \<Rightarrow> i8 \<Rightarrow> 'w ser" where
  "serialize_i8 O' v = primu (put_i8 (out_base O') v)"

definition serialize_i16 :: "'w ser_out \<Rightarrow> 16 word \<Rightarrow> 'w ser" where
  "serialize_i16 O' v = primu (put_i16 O' v)"

definition serialize_i32 :: "'w ser_out \<Rightarrow> i32 \<Rightarrow> 'w ser" where
  "serialize_i32 O' v = primu (put_i32 O' v)"

definition serialize_i64 :: "'w ser_out \<Rightarrow> 64 word \<Rightarrow> 'w ser" where
  "serialize_i64 O' v = primu (put_i64 O' v)"

definition serialize_u8 :: "'w ser_out \<Rightarrow> u8 \<Rightarrow> 'w ser" where
  "serialize_u8 O' v = primu (put_u8 (out_base O') v)"

definition serialize_u16 :: "'w ser_out \<Rightarrow> u16 \<Rightarrow> 'w ser" where
  "serialize_u16 O' v = primu (put_u16 O' v)"

definition serialize_u32 :: "'w ser_out \<Rightarrow> u32 \<Rightarrow> 'w ser" where
  "serialize_u32 O' v = primu (put_u32 O' v)"

definition serialize_u64 :: "'w ser_out \<Rightarrow> u64 \<Rightarrow> 'w ser" where
  "serialize_u64 O' v = primu (put_u64 O' v)"

definition serialize_f32 :: "'w ser_out \<Rightarrow> f32 \<Rightarrow> 'w ser" where
  "serialize_f32 O' v = primu (put_f32 O' v)"

definition serialize_f64 :: "'w ser_out \<Rightarrow> 64 word \<Rightarrow> 'w ser" where
  "serialize_f64 O' v = primu (put_f64 O' v)"

definition serialize_bytes :: "'w ser_out \<Rightarrow> u8 list \<Rightarrow> 'w ser" where
  "serialize_bytes O' v = primu (put_slice (out_base O') v)"

text \<open>\<open>str::as_bytes\<close> is the identity here.\<close>

definition serialize_str :: "'w ser_out \<Rightarrow> rstring \<Rightarrow> 'w ser" where
  "serialize_str O' v = serialize_bytes O' v"

text \<open>\<open>char::to_string\<close>: the UTF-8 form of the character.\<close>

definition utf8_char :: "u32 \<Rightarrow> rstring" where
  "utf8_char c =
     (if c < 0x80 then [ucast c]
      else if c < 0x800 then [0xC0 OR ucast (drop_bit 6 c), 0x80 OR ucast (c AND 0x3F)]
      else if c < 0x10000 then
        [0xE0 OR ucast (drop_bit 12 c), 0x80 OR ucast (drop_bit 6 c AND 0x3F), 0x80 OR ucast (c AND 0x3F)]
      else [0xF0 OR ucast (drop_bit 18 c), 0x80 OR ucast (drop_bit 12 c AND 0x3F),
            0x80 OR ucast (drop_bit 6 c AND 0x3F), 0x80 OR ucast (c AND 0x3F)])"

definition serialize_char :: "'w ser_out \<Rightarrow> u32 \<Rightarrow> 'w ser" where
  "serialize_char O' v = serialize_str O' (utf8_char v)"

definition serialize_none :: "'w ser" where
  "serialize_none = ret ()"

definition serialize_some :: "'w ser \<Rightarrow> 'w ser" where
  "serialize_some value_ser = value_ser"

definition serialize_unit :: "'w ser" where
  "serialize_unit = ret ()"

definition serialize_unit_struct :: "'w ser" where
  "serialize_unit_struct = ret ()"

text \<open>\<open>variant_index.try_into()?\<close>.\<close>

definition variant_u16 :: "u32 \<Rightarrow> (u16, encoding_error, 'w) prog" where
  "variant_u16 n = (if unat n < 2 ^ 16 then ret (ucast n) else throw IntConversion)"

definition serialize_unit_variant :: "'w ser_out \<Rightarrow> u32 \<Rightarrow> 'w ser" where
  "serialize_unit_variant O' n = bindp (variant_u16 n) (\<lambda>index. serialize_u16 O' index)"

definition serialize_newtype_struct :: "'w ser \<Rightarrow> 'w ser" where
  "serialize_newtype_struct value_ser = value_ser"

definition serialize_newtype_variant :: "'w ser_out \<Rightarrow> u32 \<Rightarrow> 'w ser \<Rightarrow> 'w ser" where
  "serialize_newtype_variant O' n value_ser =
     bindp (variant_u16 n) (\<lambda>index. bindp (serialize_u16 O' index) (\<lambda>_. value_ser))"

definition unimplemented :: "('a, 'e, 'w) prog" where
  "unimplemented w = (Panic, w)"

text \<open>\<open>serialize_seq\<close>, \<open>serialize_tuple\<close>, ..., \<open>serialize_struct_variant\<close>.\<close>

definition open_compound :: "'w ser_out \<Rightarrow> compound \<Rightarrow> u32 \<Rightarrow> 'w ser" where
  "open_compound O' k n = (case k of
       CStructVariant \<Rightarrow> bindp (variant_u16 n) (\<lambda>index. bindp (serialize_u16 O' index) (\<lambda>_. ret ()))
     | _ \<Rightarrow> unimplemented)"

text \<open>\<open>serialize_element\<close>, \<open>serialize_field\<close>, \<open>serialize_key\<close>, \<open>serialize_value\<close>; and \<open>end\<close>.\<close>

definition compound_part :: "compound \<Rightarrow> 'w ser \<Rightarrow> 'w ser" where
  "compound_part k value_ser = (case k of CMap \<Rightarrow> unimplemented | _ \<Rightarrow> value_ser)"

definition end_compound :: "compound \<Rightarrow> 'w ser" where
  "end_compound k = (case k of CMap \<Rightarrow> unimplemented | _ \<Rightarrow> ret ())"

text \<open>\<open>SerError::custom\<close> and \<open>DeError::custom\<close>: the message is dropped.\<close>

definition custom_error :: "string \<Rightarrow> encoding_error" where
  "custom_error msg = CustomError"

text \<open>
  What a value asks for. The 128-bit integers have the trait's own methods, which give an error.
\<close>

datatype ser_value =
    SBool bool | SI8 i8 | SI16 "16 word" | SI32 i32 | SI64 "64 word" | SU8 u8 | SU16 u16 | SU32 u32 | SU64 u64
  | SF32 f32 | SF64 "64 word" | SInt128 "128 word" | SChar u32 | SStr rstring | SBytes "u8 list"
  | SNone | SSome ser_value | SUnit | SUnitStruct | SUnitVariant u32
  | SNewtypeStruct ser_value | SNewtypeVariant u32 ser_value
  | SCompound compound u32 "ser_value list"

fun serialize :: "'w ser_out \<Rightarrow> ser_value \<Rightarrow> 'w ser"
  and serialize_parts :: "'w ser_out \<Rightarrow> compound \<Rightarrow> ser_value list \<Rightarrow> 'w ser" where
  "serialize O' (SBool v) = serialize_bool O' v"
| "serialize O' (SI8 v) = serialize_i8 O' v"
| "serialize O' (SI16 v) = serialize_i16 O' v"
| "serialize O' (SI32 v) = serialize_i32 O' v"
| "serialize O' (SI64 v) = serialize_i64 O' v"
| "serialize O' (SU8 v) = serialize_u8 O' v"
| "serialize O' (SU16 v) = serialize_u16 O' v"
| "serialize O' (SU32 v) = serialize_u32 O' v"
| "serialize O' (SU64 v) = serialize_u64 O' v"
| "serialize O' (SF32 v) = serialize_f32 O' v"
| "serialize O' (SF64 v) = serialize_f64 O' v"
| "serialize O' (SInt128 v) = throw (custom_error ''i128 is not supported'')"
| "serialize O' (SChar v) = serialize_char O' v"
| "serialize O' (SStr v) = serialize_str O' v"
| "serialize O' (SBytes v) = serialize_bytes O' v"
| "serialize O' SNone = serialize_none"
| "serialize O' (SSome v) = serialize_some (serialize O' v)"
| "serialize O' SUnit = serialize_unit"
| "serialize O' SUnitStruct = serialize_unit_struct"
| "serialize O' (SUnitVariant n) = serialize_unit_variant O' n"
| "serialize O' (SNewtypeStruct v) = serialize_newtype_struct (serialize O' v)"
| "serialize O' (SNewtypeVariant n v) = serialize_newtype_variant O' n (serialize O' v)"
| "serialize O' (SCompound k n vs) =
     bindp (open_compound O' k n) (\<lambda>_. bindp (serialize_parts O' k vs) (\<lambda>_. end_compound k))"
| "serialize_parts O' k [] = ret ()"
| "serialize_parts O' k (v # vs) = bindp (compound_part k (serialize O' v)) (\<lambda>_. serialize_parts O' k vs)"

section \<open>Deserializing\<close>

datatype visit =
    VBool bool | VI8 i8 | VI16 "16 word" | VI32 i32 | VI64 "64 word" | VU8 u8 | VU16 u16 | VU32 u32 | VU64 u64
  | VF32 f32 | VF64 "64 word" | VChar u32 | VUnit | VNewtype

text \<open>A visitor may read on; for \<open>visit_newtype_struct\<close> it is given the deserializer itself.\<close>

type_synonym ('v, 'r) visitor = "visit \<Rightarrow> ('v, encoding_error, 'r) prog"

definition deserialize_any :: "('v, 'r) visitor \<Rightarrow> ('v, encoding_error, 'r) prog" where
  "deserialize_any vis = throw CustomError"

definition deserialize_bool :: "'r de_in \<Rightarrow> ('v, 'r) visitor \<Rightarrow> ('v, encoding_error, 'r) prog" where
  "deserialize_bool I vis = bindp (prim (get_u8 (in_base I))) (\<lambda>x. vis (VBool (x \<noteq> 0)))"

definition deserialize_i8 :: "'r de_in \<Rightarrow> ('v, 'r) visitor \<Rightarrow> ('v, encoding_error, 'r) prog" where
  "deserialize_i8 I vis = bindp (prim (get_i8 (in_base I))) (\<lambda>x. vis (VI8 x))"

definition deserialize_i16 :: "'r de_in \<Rightarrow> ('v, 'r) visitor \<Rightarrow> ('v, encoding_error, 'r) prog" where
  "deserialize_i16 I vis = bindp (prim (get_i16 I)) (\<lambda>x. vis (VI16 x))"

definition deserialize_i32 :: "'r de_in \<Rightarrow> ('v, 'r) visitor \<Rightarrow> ('v, encoding_error, 'r) prog" where
  "deserialize_i32 I vis = bindp (prim (get_i32 I)) (\<lambda>x. vis (VI32 x))"

definition deserialize_i64 :: "'r de_in \<Rightarrow> ('v, 'r) visitor \<Rightarrow> ('v, encoding_error, 'r) prog" where
  "deserialize_i64 I vis = bindp (prim (get_i64 I)) (\<lambda>x. vis (VI64 x))"

definition deserialize_u8 :: "'r de_in \<Rightarrow> ('v, 'r) visitor \<Rightarrow> ('v, encoding_error, 'r) prog" where
  "deserialize_u8 I vis = bindp (prim (get_u8 (in_base I))) (\<lambda>x. vis (VU8 x))"

definition deserialize_u16 :: "'r de_in \<Rightarrow> ('v, 'r) visitor \<Rightarrow> ('v, encoding_error, 'r) prog" where
  "deserialize_u16 I vis = bindp (prim (get_u16 I)) (\<lambda>x. vis (VU16 x))"

definition deserialize_u32 :: "'r de_in \<Rightarrow> ('v, 'r) visitor \<Rightarrow> ('v, encoding_error, 'r) prog" where
  "deserialize_u32 I vis = bindp (prim (get_u32 I)) (\<lambda>x. vis (VU32 x))"

definition deserialize_u64 :: "'r de_in \<Rightarrow> ('v, 'r) visitor \<Rightarrow> ('v, encoding_error, 'r) prog" where
  "deserialize_u64 I vis = bindp (prim (get_u64 I)) (\<lambda>x. vis (VU64 x))"

definition deserialize_f32 :: "'r de_in \<Rightarrow> ('v, 'r) visitor \<Rightarrow> ('v, encoding_error, 'r) prog" where
  "deserialize_f32 I vis = bindp (prim (get_f32 I)) (\<lambda>x. vis (VF32 x))"

definition deserialize_f64 :: "'r de_in \<Rightarrow> ('v, 'r) visitor \<Rightarrow> ('v, encoding_error, 'r) prog" where
  "deserialize_f64 I vis = bindp (prim (get_f64 I)) (\<lambda>x. vis (VF64 x))"

text \<open>\<open>char::from_u32\<close>: surrogates and what is above U+10FFFF are no characters.\<close>

definition char_from_u32 :: "u32 \<Rightarrow> u32 option" where
  "char_from_u32 n = (if n < 0xD800 \<or> 0xDFFF < n \<and> n \<le> 0x10FFFF then Some n else None)"

definition deserialize_char :: "'r de_in \<Rightarrow> ('v, 'r) visitor \<Rightarrow> ('v, encoding_error, 'r) prog" where
  "deserialize_char I vis = bindp (prim (get_u8 (in_base I))) (\<lambda>x.
     case char_from_u32 (ucast x) of None \<Rightarrow> throw CustomError | Some c \<Rightarrow> vis (VChar c))"

datatype text_kind = KStr | KString | KBytes | KByteBuf | KOption

definition deserialize_text :: "text_kind \<Rightarrow> ('v, 'r) visitor \<Rightarrow> ('v, encoding_error, 'r) prog" where
  "deserialize_text k vis = unimplemented"

definition deserialize_unit :: "('v, 'r) visitor \<Rightarrow> ('v, encoding_error, 'r) prog" where
  "deserialize_unit vis = vis VUnit"

definition deserialize_unit_struct :: "('v, 'r) visitor \<Rightarrow> ('v, encoding_error, 'r) prog" where
  "deserialize_unit_struct vis = vis VUnit"

definition deserialize_newtype_struct :: "('v, 'r) visitor \<Rightarrow> ('v, encoding_error, 'r) prog" where
  "deserialize_newtype_struct vis = vis VNewtype"

datatype compound_kind = KSeq | KTuple | KTupleStruct | KMap | KStruct | KEnum | KIdentifier | KIgnoredAny

definition deserialize_compound :: "compound_kind \<Rightarrow> ('v, 'r) visitor \<Rightarrow> ('v, encoding_error, 'r) prog" where
  "deserialize_compound k vis = unimplemented"

definition deserialize_i128 :: "('v, 'r) visitor \<Rightarrow> ('v, encoding_error, 'r) prog" where
  "deserialize_i128 vis = throw (custom_error ''i128 is not supported'')"

definition deserialize_u128 :: "('v, 'r) visitor \<Rightarrow> ('v, encoding_error, 'r) prog" where
  "deserialize_u128 vis = throw (custom_error ''u128 is not supported'')"

definition is_human_readable :: bool where
  "is_human_readable = False"

section \<open>The contract of the buffers\<close>

definition read_be :: "nat \<Rightarrow> u8 list \<Rightarrow> ('a::len word \<times> u8 list) option" where
  "read_be n bs = map_option (apfst be_word) (split_at n bs)"

lemma read_be_be_bytes [simp]:
  "LENGTH('a) \<le> 8 * n \<Longrightarrow> read_be n (be_bytes n (w::'a::len word) @ ys) = Some (w, ys)"
  by (simp add: read_be_def)

locale ser_impl = bufmut_impl "out_base O'" mview for O' :: "'w ser_out" and mview :: "'w \<Rightarrow> u8 list" +
  assumes put_i16_law: "map_option (page_of (out_base O') mview) (put_i16 O' a w) = page_put (be_bytes 2 a) (page_of (out_base O') mview w)"
    and put_be_i32_law: "map_option (page_of (out_base O') mview) (put_i32 O' b w) = page_put (be_bytes 4 b) (page_of (out_base O') mview w)"
    and put_i64_law: "map_option (page_of (out_base O') mview) (put_i64 O' c w) = page_put (be_bytes 8 c) (page_of (out_base O') mview w)"
    and put_be_u16_law: "map_option (page_of (out_base O') mview) (put_u16 O' a w) = page_put (be_bytes 2 a) (page_of (out_base O') mview w)"
    and put_be_u32_law: "map_option (page_of (out_base O') mview) (put_u32 O' b w) = page_put (be_bytes 4 b) (page_of (out_base O') mview w)"
    and put_u64_law: "map_option (page_of (out_base O') mview) (put_u64 O' c w) = page_put (be_bytes 8 c) (page_of (out_base O') mview w)"
    and put_be_f32_law: "map_option (page_of (out_base O') mview) (put_f32 O' b w) = page_put (be_bytes 4 b) (page_of (out_base O') mview w)"
    and put_f64_law: "map_option (page_of (out_base O') mview) (put_f64 O' c w) = page_put (be_bytes 8 c) (page_of (out_base O') mview w)"

locale de_impl = buf_impl "in_base I" view for I :: "'r de_in" and view :: "'r \<Rightarrow> u8 list" +
  assumes get_i16_law: "map_option (apsnd view) (get_i16 I r) = read_be 2 (view r)"
    and get_i32_law: "map_option (apsnd view) (get_i32 I r) = read_be 4 (view r)"
    and get_i64_law: "map_option (apsnd view) (get_i64 I r) = read_be 8 (view r)"
    and get_u16_law: "map_option (apsnd view) (get_u16 I r) = read_be 2 (view r)"
    and get_u32_law: "map_option (apsnd view) (get_u32 I r) = read_be 4 (view r)"
    and get_u64_law: "map_option (apsnd view) (get_u64 I r) = read_be 8 (view r)"
    and get_f32_law: "map_option (apsnd view) (get_f32 I r) = read_be 4 (view r)"
    and get_f64_law: "map_option (apsnd view) (get_f64 I r) = read_be 8 (view r)"

definition list_out :: "u8 list ser_out" where
  "list_out = \<lparr>
     out_base = bytes_mut,
     put_i16 = (\<lambda>v. bytes_mut_put (be_bytes 2 v)),
     put_i32 = (\<lambda>v. bytes_mut_put (be_bytes 4 v)),
     put_i64 = (\<lambda>v. bytes_mut_put (be_bytes 8 v)),
     put_u16 = (\<lambda>v. bytes_mut_put (be_bytes 2 v)),
     put_u32 = (\<lambda>v. bytes_mut_put (be_bytes 4 v)),
     put_u64 = (\<lambda>v. bytes_mut_put (be_bytes 8 v)),
     put_f32 = (\<lambda>v. bytes_mut_put (be_bytes 4 v)),
     put_f64 = (\<lambda>v. bytes_mut_put (be_bytes 8 v)) \<rparr>"

definition list_in :: "u8 list de_in" where
  "list_in = \<lparr>
     in_base = list_buf,
     get_i16 = read_be 2,
     get_i32 = read_be 4,
     get_i64 = read_be 8,
     get_u16 = read_be 2,
     get_u32 = read_be 4,
     get_u64 = read_be 8,
     get_f32 = read_be 4,
     get_f64 = read_be 8 \<rparr>"

lemma list_bases [simp]: "out_base list_out = bytes_mut" "in_base list_in = list_buf"
  by (simp_all add: list_out_def list_in_def)

interpretation list_serializer: ser_impl list_out "\<lambda>b. b"
  by (intro ser_impl.intro ser_impl_axioms.intro)
    (simp_all add: bytes_mut_writer.bufmut_impl_axioms list_out_def bytes_mut_put_page)

interpretation list_deserializer: de_impl list_in "\<lambda>bs. bs"
  by (intro de_impl.intro de_impl_axioms.intro)
    (simp_all add: list_reader.buf_impl_axioms list_in_def apsnd_ident)

section \<open>What serializing writes\<close>

text \<open>The bytes of a value; none for one that cannot be serialized.\<close>

fun ser_format :: "ser_value \<Rightarrow> u8 list option"
  and ser_formats :: "ser_value list \<Rightarrow> u8 list option" where
  "ser_format (SBool v) = Some [if v then 1 else 0]"
| "ser_format (SI8 v) = Some [v]"
| "ser_format (SI16 v) = Some (be_bytes 2 v)"
| "ser_format (SI32 v) = Some (be_bytes 4 v)"
| "ser_format (SI64 v) = Some (be_bytes 8 v)"
| "ser_format (SU8 v) = Some [v]"
| "ser_format (SU16 v) = Some (be_bytes 2 v)"
| "ser_format (SU32 v) = Some (be_bytes 4 v)"
| "ser_format (SU64 v) = Some (be_bytes 8 v)"
| "ser_format (SF32 v) = Some (be_bytes 4 v)"
| "ser_format (SF64 v) = Some (be_bytes 8 v)"
| "ser_format (SInt128 v) = None"
| "ser_format (SChar v) = Some (utf8_char v)"
| "ser_format (SStr v) = Some v"
| "ser_format (SBytes v) = Some v"
| "ser_format SNone = Some []"
| "ser_format (SSome v) = ser_format v"
| "ser_format SUnit = Some []"
| "ser_format SUnitStruct = Some []"
| "ser_format (SUnitVariant n) = (if unat n < 2 ^ 16 then Some (be_bytes 2 (ucast n :: u16)) else None)"
| "ser_format (SNewtypeStruct v) = ser_format v"
| "ser_format (SNewtypeVariant n v) =
     (if unat n < 2 ^ 16 then map_option ((@) (be_bytes 2 (ucast n :: u16))) (ser_format v) else None)"
| "ser_format (SCompound k n vs) =
     (if k = CStructVariant \<and> unat n < 2 ^ 16
      then map_option ((@) (be_bytes 2 (ucast n :: u16))) (ser_formats vs) else None)"
| "ser_formats [] = Some []"
| "ser_formats (v # vs) = Option.bind (ser_format v) (\<lambda>bs. map_option ((@) bs) (ser_formats vs))"

text \<open>A program that appends \<open>bs\<close>, or panics for lack of room; and one that never succeeds.\<close>

definition appends :: "'w bufmut \<Rightarrow> ('w \<Rightarrow> u8 list) \<Rightarrow> 'w ser \<Rightarrow> u8 list \<Rightarrow> bool" where
  "appends W mview m bs \<longleftrightarrow> (\<forall>w. if length bs \<le> remaining_mut W w
     then \<exists>w'. m w = (Ok (), w') \<and> mview w' = mview w @ bs \<and> remaining_mut W w' = remaining_mut W w - length bs
     else fst (m w) = Panic)"

definition fails :: "'w ser \<Rightarrow> bool" where
  "fails m \<longleftrightarrow> (\<forall>w. fst (m w) \<noteq> Ok ())"

definition behaves :: "'w bufmut \<Rightarrow> ('w \<Rightarrow> u8 list) \<Rightarrow> 'w ser \<Rightarrow> u8 list option \<Rightarrow> bool" where
  "behaves W mview m out = (case out of Some bs \<Rightarrow> appends W mview m bs | None \<Rightarrow> fails m)"

lemma appends_put:
  assumes "\<And>w. map_option (page_of W mview) (g w) = page_put bs (page_of W mview w)"
  shows "appends W mview (primu g) bs"
  unfolding appends_def
proof
  fix w
  show "if length bs \<le> remaining_mut W w
     then \<exists>w'. primu g w = (Ok (), w') \<and> mview w' = mview w @ bs \<and> remaining_mut W w' = remaining_mut W w - length bs
     else fst (primu g w) = Panic"
    using assms[of w] by (cases "g w") (auto simp: page_of_def page_put_def split: if_splits)
qed

lemma appends_ret: "appends W mview (ret ()) []"
  by (simp add: appends_def)

lemma constant_programs: "appends W mview (Pair (Ok ())) []" "fails (Pair (Err e))"
  by (simp_all add: appends_def fails_def)

lemma appends_bind:
  assumes "appends W mview m bs" and "appends W mview n cs"
  shows "appends W mview (bindp m (\<lambda>_. n)) (bs @ cs)"
  unfolding appends_def
proof
  fix w
  have m: "if length bs \<le> remaining_mut W w
     then \<exists>w'. m w = (Ok (), w') \<and> mview w' = mview w @ bs \<and> remaining_mut W w' = remaining_mut W w - length bs
     else fst (m w) = Panic"
    using assms(1) by (simp add: appends_def)
  show "if length (bs @ cs) \<le> remaining_mut W w
     then \<exists>w'. bindp m (\<lambda>_. n) w = (Ok (), w') \<and> mview w' = mview w @ bs @ cs
       \<and> remaining_mut W w' = remaining_mut W w - length (bs @ cs)
     else fst (bindp m (\<lambda>_. n) w) = Panic"
  proof (cases "length bs \<le> remaining_mut W w")
    case True
    with m obtain w1 where w1: "m w = (Ok (), w1)" "mview w1 = mview w @ bs"
      "remaining_mut W w1 = remaining_mut W w - length bs" by auto
    have "if length cs \<le> remaining_mut W w1
       then \<exists>w'. n w1 = (Ok (), w') \<and> mview w' = mview w1 @ cs \<and> remaining_mut W w' = remaining_mut W w1 - length cs
       else fst (n w1) = Panic"
      using assms(2) by (simp add: appends_def)
    with w1 True show ?thesis by (auto split: if_splits)
  next
    case False
    with m show ?thesis by (cases "m w") auto
  qed
qed

lemma fails_first: "fails m \<Longrightarrow> fails (bindp m f)"
  unfolding fails_def
proof
  fix w assume "\<forall>w. fst (m w) \<noteq> Ok ()"
  then have "fst (m w) \<noteq> Ok ()" by blast
  then show "fst (bindp m f w) \<noteq> Ok ()"
    by (cases "m w"; cases "fst (m w)") auto
qed

lemma fails_intros: "fails (throw e)" "fails unimplemented" "fails n \<Longrightarrow> fails (bindp m (\<lambda>_. n))"
  by (auto simp: fails_def unimplemented_def bindp_def split: res.splits prod.splits)

lemma behaves_bind:
  assumes "behaves W mview m o1" and "behaves W mview n o2"
  shows "behaves W mview (bindp m (\<lambda>_. n)) (Option.bind o1 (\<lambda>bs. map_option ((@) bs) o2))"
  using assms by (cases o1; cases o2) (auto simp: behaves_def intro: appends_bind fails_intros fails_first)

lemma variant_bind:
  "bindp (variant_u16 n) f = (if unat n < 2 ^ 16 then f (ucast n) else throw IntConversion)"
  by (auto simp: variant_u16_def bindp_def fun_eq_iff)

lemma bind_ret [simp]: "bindp m ret = m"
  by (auto simp: bindp_def fun_eq_iff split: res.splits prod.splits)

lemma bind_assoc: "bindp (bindp m f) g = bindp m (\<lambda>a. bindp (f a) g)"
  by (auto simp: bindp_def fun_eq_iff split: res.splits prod.splits)

context ser_impl
begin

lemma put_appends:
  "appends (out_base O') mview (primu (put_slice (out_base O') bs)) bs"
  "appends (out_base O') mview (primu (put_u8 (out_base O') x)) [x]"
  "appends (out_base O') mview (primu (put_i8 (out_base O') x)) [x]"
  "appends (out_base O') mview (primu (put_i16 O' a)) (be_bytes 2 a)"
  "appends (out_base O') mview (primu (put_u16 O' a)) (be_bytes 2 a)"
  "appends (out_base O') mview (primu (put_i32 O' b)) (be_bytes 4 b)"
  "appends (out_base O') mview (primu (put_u32 O' b)) (be_bytes 4 b)"
  "appends (out_base O') mview (primu (put_f32 O' b)) (be_bytes 4 b)"
  "appends (out_base O') mview (primu (put_i64 O' c)) (be_bytes 8 c)"
  "appends (out_base O') mview (primu (put_u64 O' c)) (be_bytes 8 c)"
  "appends (out_base O') mview (primu (put_f64 O' c)) (be_bytes 8 c)"
  using put_u8_law[of x] put_i8_law[of x]
  by (auto intro!: appends_put simp: put_slice_law put_i16_law put_be_u16_law put_be_i32_law put_be_u32_law
      put_be_f32_law put_i64_law put_u64_law put_f64_law)

lemma variant_behaves:
  assumes "behaves (out_base O') mview m out"
  shows "behaves (out_base O') mview (bindp (variant_u16 n) (\<lambda>index. bindp (serialize_u16 O' index) (\<lambda>_. m)))
     (if unat n < 2 ^ 16 then map_option ((@) (be_bytes 2 (ucast n :: u16))) out else None)"
  using behaves_bind[of "out_base O'" mview "serialize_u16 O' (ucast n)" "Some (be_bytes 2 (ucast n :: u16))" m out] assms
  by (auto simp: variant_bind behaves_def serialize_u16_def put_appends fails_intros)

lemma parts_behave:
  assumes "\<And>v. v \<in> set vs \<Longrightarrow> behaves (out_base O') mview (serialize O' v) (ser_format v)"
  shows "behaves (out_base O') mview (serialize_parts O' CStructVariant vs) (ser_formats vs)"
  using assms
proof (induction vs)
  case Nil
  show ?case by (simp only: serialize_parts.simps ser_formats.simps behaves_def option.case appends_ret)
next
  case (Cons v vs)
  from behaves_bind[OF Cons.prems Cons.IH, of v] Cons.prems show ?case
    by (simp add: compound_part_def)
qed

lemma serialize_behaves: "behaves (out_base O') mview (serialize O' v) (ser_format v)"
proof (induction v)
  case (SUnitVariant n)
  have "behaves (out_base O') mview (ret ()) (Some [])" by (simp add: behaves_def appends_ret)
  from variant_behaves[OF this, of n] show ?case
    by (simp add: serialize_unit_variant_def cong: if_cong)
next
  case (SNewtypeVariant n v)
  from variant_behaves[OF this, of n] show ?case
    by (simp add: serialize_newtype_variant_def)
next
  case (SCompound k n vs)
  show ?case
  proof (cases "k = CStructVariant")
    case True
    from variant_behaves[where n = n, OF parts_behave[OF SCompound]] show ?thesis
      using True by (simp add: open_compound_def end_compound_def bind_assoc)
  next
    case False
    then have "open_compound O' k n = unimplemented" by (cases k) (simp_all add: open_compound_def)
    with False show ?thesis by (simp add: behaves_def fails_first fails_intros)
  qed
qed (auto simp: behaves_def put_appends constant_programs serialize_bool_def serialize_i8_def serialize_i16_def
    serialize_i32_def serialize_i64_def serialize_u8_def serialize_u16_def serialize_u32_def serialize_u64_def
    serialize_f32_def serialize_f64_def serialize_bytes_def serialize_str_def serialize_char_def serialize_none_def
    serialize_some_def serialize_unit_def serialize_unit_struct_def serialize_newtype_struct_def)

end

section \<open>What comes back\<close>

text \<open>
  The request of the type a value is of, and what its visitor then sees; nothing where the deserializer
  has no code for it. Of the characters only ASCII comes back as it was.
\<close>

fun deserialize_as :: "'r de_in \<Rightarrow> ser_value \<Rightarrow> ('v, 'r) visitor \<Rightarrow> ('v, encoding_error, 'r) prog" where
  "deserialize_as I (SBool v) vis = deserialize_bool I vis"
| "deserialize_as I (SI8 v) vis = deserialize_i8 I vis"
| "deserialize_as I (SI16 v) vis = deserialize_i16 I vis"
| "deserialize_as I (SI32 v) vis = deserialize_i32 I vis"
| "deserialize_as I (SI64 v) vis = deserialize_i64 I vis"
| "deserialize_as I (SU8 v) vis = deserialize_u8 I vis"
| "deserialize_as I (SU16 v) vis = deserialize_u16 I vis"
| "deserialize_as I (SU32 v) vis = deserialize_u32 I vis"
| "deserialize_as I (SU64 v) vis = deserialize_u64 I vis"
| "deserialize_as I (SF32 v) vis = deserialize_f32 I vis"
| "deserialize_as I (SF64 v) vis = deserialize_f64 I vis"
| "deserialize_as I (SInt128 v) vis = deserialize_i128 vis"
| "deserialize_as I (SChar v) vis = deserialize_char I vis"
| "deserialize_as I (SStr v) vis = deserialize_text KStr vis"
| "deserialize_as I (SBytes v) vis = deserialize_text KBytes vis"
| "deserialize_as I SNone vis = deserialize_text KOption vis"
| "deserialize_as I (SSome v) vis = deserialize_text KOption vis"
| "deserialize_as I SUnit vis = deserialize_unit vis"
| "deserialize_as I SUnitStruct vis = deserialize_unit_struct vis"
| "deserialize_as I (SUnitVariant n) vis = deserialize_compound KEnum vis"
| "deserialize_as I (SNewtypeStruct v) vis = deserialize_newtype_struct vis"
| "deserialize_as I (SNewtypeVariant n v) vis = deserialize_compound KEnum vis"
| "deserialize_as I (SCompound k n vs) vis = deserialize_compound (case k of
     CStruct \<Rightarrow> KStruct | CSeq \<Rightarrow> KSeq | CTuple \<Rightarrow> KTuple | CTupleStruct \<Rightarrow> KTupleStruct | CMap \<Rightarrow> KMap
   | _ \<Rightarrow> KEnum) vis"

fun seen :: "ser_value \<Rightarrow> visit option" where
  "seen (SBool v) = Some (VBool v)"
| "seen (SI8 v) = Some (VI8 v)"
| "seen (SI16 v) = Some (VI16 v)"
| "seen (SI32 v) = Some (VI32 v)"
| "seen (SI64 v) = Some (VI64 v)"
| "seen (SU8 v) = Some (VU8 v)"
| "seen (SU16 v) = Some (VU16 v)"
| "seen (SU32 v) = Some (VU32 v)"
| "seen (SU64 v) = Some (VU64 v)"
| "seen (SF32 v) = Some (VF32 v)"
| "seen (SF64 v) = Some (VF64 v)"
| "seen (SChar v) = (if v < 0x80 then Some (VChar v) else None)"
| "seen SUnit = Some VUnit"
| "seen SUnitStruct = Some VUnit"
| "seen v = None"

text \<open>Everything else, a newtype and the other characters aside, the deserializer refuses.\<close>

lemma deserialize_refuses:
  assumes "seen v = None" and "\<And>c. v \<noteq> SChar c" and "\<And>u. v \<noteq> SNewtypeStruct u"
  shows "fst (deserialize_as I v vis r) = Panic \<or> fst (deserialize_as I v vis r) = Err CustomError"
  using assms
  by (cases v) (auto simp: deserialize_text_def deserialize_compound_def unimplemented_def deserialize_i128_def
      custom_error_def)

lemma ascii_back:
  fixes c :: u32
  assumes "c < 0x80"
  shows "char_from_u32 (ucast (ucast c :: u8)) = Some c"
proof -
  have small: "unat c < 128" using assms by (simp add: word_less_nat_alt)
  then have "(ucast (ucast c :: u8) :: u32) = c"
    by (intro word_unat_eq_iff[THEN iffD2]) (simp add: unsigned_ucast_eq take_bit_eq_mod unat_mod_distrib)
  moreover have "c < 0xD800" using small by (simp add: word_less_nat_alt)
  ultimately show ?thesis by (simp add: char_from_u32_def)
qed

context de_impl
begin

text \<open>A read of what is there.\<close>

lemma there_be:
  "view r = be_bytes 2 a @ rest \<Longrightarrow> \<exists>r'. get_i16 I r = Some (a, r') \<and> view r' = rest"
  "view r = be_bytes 2 a @ rest \<Longrightarrow> \<exists>r'. get_u16 I r = Some (a, r') \<and> view r' = rest"
  "view r = be_bytes 4 b @ rest \<Longrightarrow> \<exists>r'. get_i32 I r = Some (b, r') \<and> view r' = rest"
  "view r = be_bytes 4 b @ rest \<Longrightarrow> \<exists>r'. get_u32 I r = Some (b, r') \<and> view r' = rest"
  "view r = be_bytes 4 b @ rest \<Longrightarrow> \<exists>r'. get_f32 I r = Some (b, r') \<and> view r' = rest"
  "view r = be_bytes 8 c @ rest \<Longrightarrow> \<exists>r'. get_i64 I r = Some (c, r') \<and> view r' = rest"
  "view r = be_bytes 8 c @ rest \<Longrightarrow> \<exists>r'. get_u64 I r = Some (c, r') \<and> view r' = rest"
  "view r = be_bytes 8 c @ rest \<Longrightarrow> \<exists>r'. get_f64 I r = Some (c, r') \<and> view r' = rest"
  using get_i16_law[of r] get_u16_law[of r] get_i32_law[of r] get_u32_law[of r] get_f32_law[of r] get_i64_law[of r] get_u64_law[of r] get_f64_law[of r] by auto

lemma there_u8:
  "view r = x # rest \<Longrightarrow> \<exists>r'. get_u8 (in_base I) r = Some (x, r') \<and> view r' = rest"
  "view r = x # rest \<Longrightarrow> \<exists>r'. get_i8 (in_base I) r = Some (x, r') \<and> view r' = rest"
  using u8_law[of r] i8_law[of r] read_le_append[of "[x]" 1 rest] by auto

lemma there_ascii:
  assumes "view r = utf8_char c @ rest" and "c < 0x80"
  shows "\<exists>r'. get_u8 (in_base I) r = Some (ucast c, r') \<and> view r' = rest"
  using there_u8(1)[of r "ucast c" rest] assms by (simp add: utf8_char_def)

lemma reads_back:
  assumes "seen v = Some x" and "ser_format v = Some bs" and "view r = bs @ rest"
  shows "\<exists>r'. view r' = rest \<and> deserialize_as I v vis r = vis x r'"
proof (cases v)
  case (SChar c)
  with assms obtain r' where r': "get_u8 (in_base I) r = Some (ucast c, r')" "view r' = rest"
    using there_ascii[of r c rest] by (auto split: if_splits)
  from SChar assms(1) have c: "c < 0x80" and x: "x = VChar c" by (auto split: if_splits)
  with ascii_back[OF c] r' SChar show ?thesis by (auto simp: deserialize_char_def)
qed (use assms there_be[of r _ rest] there_u8[of r _ rest] in
  \<open>force simp: deserialize_bool_def deserialize_i8_def deserialize_i16_def deserialize_i32_def deserialize_i64_def
    deserialize_u8_def deserialize_u16_def deserialize_u32_def deserialize_u64_def deserialize_f32_def
    deserialize_f64_def deserialize_unit_def deserialize_unit_struct_def\<close>)+

end

text \<open>The two bytes of a 16-bit number, in both orders.\<close>

lemma two_bytes:
  fixes n :: u16
  shows "be_bytes 2 n = [ucast (drop_bit 8 n), ucast n]" "le_bytes 2 n = [ucast n, ucast (drop_bit 8 n)]"
  by (simp_all add: be_bytes_def numeral_2_eq_2)

section \<open>Properties\<close>

text \<open>
  C34. The serializer, as a format: a value whose parts all have one is written as exactly the bytes of
  its format, integers in network order, or the buffer is full and the serializer panics; every other
  value (a structure, a sequence, a tuple, a map, a variant with a number of more than 16 bits, a
  128-bit integer, or anything that holds one) is never written successfully.
\<close>
theorem serialize_writes_format:
  assumes "ser_impl O' mview"
  shows "case ser_format v of
       Some bs \<Rightarrow> if length bs \<le> remaining_mut (out_base O') w
         then \<exists>w'. serialize O' v w = (Ok (), w') \<and> mview w' = mview w @ bs
         else fst (serialize O' v w) = Panic
     | None \<Rightarrow> fst (serialize O' v w) \<noteq> Ok ()"
proof (cases "ser_format v")
  case None
  then show ?thesis using ser_impl.serialize_behaves[OF assms, of v] by (simp add: behaves_def fails_def)
next
  case (Some bs)
  with ser_impl.serialize_behaves[OF assms, of v] have "appends (out_base O') mview (serialize O' v) bs"
    by (simp add: behaves_def)
  from this[unfolded appends_def, rule_format, of w] Some show ?thesis by (auto split: if_splits)
qed

theorem serialize_writes_format_witness:
  "\<exists>w'. serialize list_out (SNewtypeVariant 2 (SSome (SU16 0x0102))) [9] = (Ok (), w') \<and> w' = [9] @ [0, 2, 1, 2]"
proof -
  have "ser_format (SNewtypeVariant 2 (SSome (SU16 0x0102))) = Some [0, 2, 1, 2]"
    by (simp add: two_bytes)
  with serialize_writes_format[OF list_serializer.ser_impl_axioms, of "SNewtypeVariant 2 (SSome (SU16 0x0102))" "[9]"]
  show ?thesis by (simp add: usize_max_def)
qed

text \<open>
  C35. What comes back of a value that was serialized. For a number of up to 64 bits, a truth value, a
  unit or an ASCII character, the visitor of its type sees exactly that value, and the deserializer
  is then behind it. A string, bytes, an option or an enum's variant that was serialized is never read
  back: the deserializer panics or refuses. (Nothing is claimed of other characters and of newtypes.)
\<close>
theorem serde_roundtrip:
  assumes "ser_impl O' mview" and "de_impl I view"
    and "serialize O' v w = (Ok (), w')" and "view r = drop (length (mview w)) (mview w') @ rest"
  shows "(\<forall>x. seen v = Some x \<longrightarrow> (\<exists>r'. view r' = rest \<and> deserialize_as I v vis r = vis x r'))
     \<and> (seen v = None \<longrightarrow> (\<exists>c \<ge> 0x80. v = SChar c) \<or> (\<exists>u. v = SNewtypeStruct u)
          \<or> fst (deserialize_as I v vis r) = Panic \<or> fst (deserialize_as I v vis r) = Err CustomError)"
proof (intro conjI allI impI)
  fix x assume seen: "seen v = Some x"
  then obtain bs where bs: "ser_format v = Some bs" by (cases v) auto
  with ser_impl.serialize_behaves[OF assms(1), of v] assms(3) have "mview w' = mview w @ bs"
    by (auto simp: behaves_def appends_def dest!: spec[of _ w] split: if_splits)
  with assms(4) have "view r = bs @ rest" by simp
  from de_impl.reads_back[OF assms(2) seen bs this]
  show "\<exists>r'. view r' = rest \<and> deserialize_as I v vis r = vis x r'" .
next
  assume "seen v = None"
  with deserialize_refuses[of v I vis r]
  show "(\<exists>c \<ge> 0x80. v = SChar c) \<or> (\<exists>u. v = SNewtypeStruct u)
      \<or> fst (deserialize_as I v vis r) = Panic \<or> fst (deserialize_as I v vis r) = Err CustomError"
    by (cases v) (auto split: if_splits simp: not_less)
qed

theorem serde_roundtrip_witness:
  "\<exists>r'. r' = [7] \<and> deserialize_as list_in (SU16 0x0102) (\<lambda>x. ret x) [1, 2, 7] = (Ok (VU16 0x0102), r')"
proof -
  have run: "serialize list_out (SU16 0x0102) [] = (Ok (), [1, 2])"
    by (simp add: serialize_u16_def list_out_def two_bytes bytes_mut_put_def usize_max_def primu_def)
  from serde_roundtrip[OF list_serializer.ser_impl_axioms list_deserializer.de_impl_axioms run,
      of "[1, 2, 7]" "[7]" "\<lambda>x. ret x"]
  show ?thesis by simp
qed

text \<open>
  The two back ends do not agree: the packet codec writes its numbers in little-endian order, so a
  16-bit number comes out the same only where its two bytes are equal. And the header, a structure,
  can be neither written nor read.
\<close>
lemma serde_order_differs: "ser_format (SU16 n) = Some (le_bytes 2 n) \<longleftrightarrow> (ucast n :: u8) = ucast (drop_bit 8 n)"
  by (auto simp: two_bytes)

definition header_value :: "packet_header \<Rightarrow> ser_value" where
  "header_value h = SCompound CStruct 0
     [SCompound CStruct 0 [SCompound CTuple 0 (map SU8 (guid_id (hdr_id h)))],
      SUnitVariant (packet_type_index (hdr_type h)), SU16 (hdr_size h)]"

lemma header_not_serialized: "fst (serialize O' (header_value h) w) = Panic"
  by (simp add: header_value_def open_compound_def unimplemented_def bindp_def)

text \<open>The variants are numbered as the packet codec numbers the types.\<close>

lemma packet_type_index_tags:
  "map (unat \<circ> packet_type_index) [TUnknown, TInit, TPlayer, TCap, TGame, TTag, TConnect, TDisconnect, TCostume,
     TShine, TCapture, TChangeStage, TCommand] = [0..<13]"
  by (simp add: upt_rec)

end
