(* ===== verification/Wire_Test.thy ===== *)
theory Wire_Test
  imports Packet_Facts
begin

text \<open>
  The test of the packet codec, \<open>tests/serialization.rs\<close>, run on the model: a cap packet captured from a
  game is decoded, encoded and decoded again.
\<close>

definition bad_data :: "u8 list" where
  "bad_data =
    [126, 128, 87, 52, 186, 45, 0, 16, 175, 237, 95, 234, 197, 104, 21, 75, 3, 0, 80, 0, 48, 118, 165,
     69, 0, 0, 240, 66, 161, 82, 159, 69, 0, 0, 0, 0, 0, 0, 0, 0, 0, 0, 0, 0, 0, 0, 0, 0, 1, 70, 108,
     121, 105, 110, 103, 87, 97, 105, 116, 82, 0, 0, 0, 0, 0, 0, 0, 0, 0, 0, 0, 0, 0, 0, 0, 0, 0, 0, 0,
     0, 0, 0, 0, 0, 0, 0, 0, 0, 0, 0, 0, 0, 0, 0, 0, 0, 0, 204, 76, 62]"

text \<open>What an \<open>unwrap\<close> gives; a failed assertion panics as well.\<close>

definition bad_tag_packet :: "'b bytes_crate \<Rightarrow> (unit, encoding_error) res" where
  "bad_tag_packet K = (case put_slice (bc_put K) bad_data (bc_with_capacity K 150) of
       None \<Rightarrow> Panic
     | Some bytes \<Rightarrow> (case fst (decode_packet (bc_get K) bytes) of
           Ok bad_packet \<Rightarrow> (case encode_packet (bc_put K) bad_packet (bc_with_capacity K 300) of
               (Ok _, buff) \<Rightarrow> (case fst (decode_packet (bc_get K) buff) of
                   Ok decode \<Rightarrow> if bad_packet = decode then Ok () else Panic
                 | _ \<Rightarrow> Panic)
             | _ \<Rightarrow> Panic)
         | _ \<Rightarrow> Panic))"

lemma bad_data_decodes:
  "case fst (decode_packet list_buf bad_data) of Ok p \<Rightarrow> get_size (pkt_data p) = 77 \<and> data_size p = 80 | _ \<Rightarrow> False"
  by code_simp

text \<open>
  The test does not pass. The frame announces 80 bytes where a cap has 77, as the decoder accepts; the
  encoder writes 77 under the same announcement, and the second \<open>unwrap\<close> panics.
\<close>

lemma bad_tag_packet_fails:
  assumes "bytes_impl K"
  shows "bad_tag_packet K = Panic"
proof -
  note get = bytes_impl.axioms(2)[OF assms] and put = bytes_impl.axioms(3)[OF assms]
  let ?W = "bc_put K" and ?v = "bc_slice K"
  note empty = bytes_impl.with_capacity_law[OF assms] and room = bytes_impl.room_law[OF assms]
  have "map_option (page_of ?W ?v) (put_slice ?W bad_data (bc_with_capacity K 150)) =
      Some (bad_data, usize_max - length bad_data)"
    by (simp add: bufmut_impl.put_slice_law[OF put] page_of_def empty room page_put_def usize_max_def bad_data_def)
  then obtain bytes where bytes: "put_slice ?W bad_data (bc_with_capacity K 150) = Some bytes" "?v bytes = bad_data"
    by (auto simp: page_of_def)
  from bad_data_decodes obtain p where p: "fst (decode_packet list_buf bad_data) = Ok p"
    and size: "get_size (pkt_data p) = 77" "data_size p = 80"
    by (cases "fst (decode_packet list_buf bad_data)") auto
  then obtain rest where "decode_packet list_buf bad_data = (Ok p, rest)" by (metis prod.collapse)
  then have sized: "sized_packet p"
    using decode_Ok_wf(1) by (simp add: wf_packet_sized bad_data_def)
  then obtain buff where buff: "encode_packet ?W p (bc_with_capacity K 300) = (Ok (), buff)" "?v buff = packet_bytes p"
    using bufmut_impl.encode_packet_view[OF put, of p "bc_with_capacity K 300"] size
    by (auto simp: empty room usize_max_def)
  have "fst (decode_packet (bc_get K) buff) = Err NotEnoughData"
    by (rule stale_size_incomplete[OF get sized _ buff(2)]) (simp add: size)
  then show ?thesis
    using bytes p buff(1) by (simp add: bad_tag_packet_def buf_impl.decode_packet_fst[OF get])
qed

end
