(* ===== verification/Spec2Isabelle.thy ===== *)
theory Spec2Isabelle
  imports Console Proxy System Lobby Serde Wire_Test
begin

text \<open>
  smo-multi-rs, a server for multiplayer Super Mario Odyssey: games connect over TCP, introduce
  themselves, and the server passes their packets on to one another, positions over UDP where that
  is open. One task listens (\<open>src/server.rs\<close>), one per player handles its connections
  (\<open>src/client.rs\<close>), and one, the coordinator (\<open>src/coordinator.rs\<close>), knows all players. The tasks
  talk over bounded channels and share the players' data, the shine bag and the settings behind
  locks.

  How the program is modelled, theory by theory, each on top of those before it:

  \<^item> \<open>SmoPrelude\<close>, \<open>Async\<close>: outcomes of Rust code (\<open>Ok\<close>, \<open>Err\<close>, \<open>Panic\<close>) and programs that thread a
    mutable argument; asynchronous programs may also not return at all (\<open>None\<close>), loops among them
    are \<open>partial_function\<close>s.
  \<^item> \<open>WireBytes\<close>, \<open>BufTraits\<close>, \<open>WireTypes\<close>: byte order, UTF-8, the traits of the crate \<open>bytes\<close> as
    records of operations with their contract as locales (\<open>bytes_impl\<close>), and \<open>src/guid.rs\<close> and
    \<open>src/types/\<close>.
  \<^item> \<open>Packet\<close>, \<open>Packet_Codec\<close>, \<open>Packet_Facts\<close>: \<open>src/net/packet.rs\<close>, whole: types, sizes, check,
    decoder, encoder, test generator; the decoder is analysed by how many bytes each branch reads.
  \<^item> \<open>Wire_Test\<close>: \<open>tests/serialization.rs\<close>, the test of the codec run on the model.
  \<^item> \<open>Connection\<close>, \<open>Stream_Frames\<close>, \<open>Connection_Facts\<close>: \<open>src/net/connection.rs\<close> over any socket
    (locale \<open>tcp_impl\<close>: what it has delivered and accepted; \<open>tcp_peer\<close>: it delivers what the peer has
    sent); the stream as a sequence of frames; the writes of a packet one by one (\<open>pushes\<close>, \<open>written\<close>):
    the loop offers the whole packet at every turn, so claims about what arrives say what one
    \<open>write_packet\<close> does and what follows where the socket takes the packet in one piece.
  \<^item> \<open>HashColl\<close>: Rust's hash maps and sets, with an arbitrary order of iteration (locale
    \<open>map_laws\<close>).
  \<^item> \<open>Udp\<close>: \<open>src/net/udp_conn.rs\<close> (locale \<open>udp_impl\<close>).
  \<^item> \<open>Settings\<close>, \<open>Cmds\<close>: \<open>src/settings.rs\<close>, \<open>src/cmds.rs\<close>, the types of \<open>src/client.rs\<close>, the shared
    memory and the operations of tokio (locales \<open>tokio_impl\<close>: what has been sent and spawned;
    \<open>tokio_quiet\<close>: nobody else writes to the memory meanwhile).
  \<^item> \<open>Client\<close>, \<open>Client_Facts\<close>: the handshake and the task of a player.
  \<^item> \<open>Coordinator\<close>, \<open>Coordinator_Facts\<close>, \<open>Coordinator_Props\<close>, \<open>Coordinator_Rules\<close>: the coordinator;
    its handlers as rows of messages, a framework for invariants of its maps (\<open>safe\<close>) and one for
    relations between the shared memory before and after (\<open>within\<close>).
  \<^item> \<open>Lobby\<close>: the abstract server, one registry of players and a set of shines, and the proof that the
    coordinator's two maps, its bag and its handlers implement it, a run at a time (\<open>coord_run\<close>).
  \<^item> \<open>System\<close>: all tasks as a transition system (\<open>sys_step\<close>), one handler a step, with the messages
    in the channels as its state; its invariant (\<open>system_ok\<close>) holds in every reachable state;
    a player who comes back to a running task, from such a state on.
  \<^item> \<open>Server\<close>: the listener and its two UDP ports (locale \<open>net_impl\<close>: what it has accepted and started).
  \<^item> \<open>Startup\<close>, \<open>Console\<close>: \<open>src/main.rs\<close>, from the settings file to the two tasks; the console that is
    not started, the panic hook and the client of the test.
  \<^item> \<open>Proxy\<close>: \<open>examples/proxy/src/main.rs\<close>, a second program around the same two connections.
  \<^item> \<open>Serde\<close>: \<open>src/net/header.rs\<close>, \<open>src/net/serializer.rs\<close>, \<open>src/net/deserializer.rs\<close>, another back
    end for the packets that no \<open>mod\<close> declaration includes; over the buffer operations in network
    order (locales \<open>ser_impl\<close>, \<open>de_impl\<close>).

  This theory holds what spans these: a packet on its way from one player to the others, and the
  shines after a speedrun.

  Every interface to code outside the repository (sockets, channels, tasks, files, JSON, hash order,
  buffers) is a parameter; each contract has an instance that computes (\<open>script_tcp\<close>,
  \<open>mailbox_udp\<close>, \<open>post_tokio\<close>, \<open>eager_tokio\<close>, \<open>queue_net\<close>, \<open>bytes_list\<close>), with which the witnesses run.

  Bounds: there is no fuel. Integers have their width; the listener's port arithmetic panics or wraps
  with the build profile. \<open>read_packet\<close> returns because no 65,556 bytes are without a complete frame.

  Not modelled: contention of locks (a handler runs as if no other task held the lock it asks for;
  what others do to the memory while it waits for a channel is left open by \<open>tokio_impl\<close>; in \<open>System\<close>
  what a handler sends arrives when it ends, and it finds an arbitrary memory when it starts), the
  losing branches of a \<open>select!\<close> (which branch wins is given by \<open>rt_pick\<close>, and the others leave
  nothing behind), the handles of the settings that clients and listener keep (there is one settings
  value in the shared memory), logging,
  the command line parser of clap, the JSON form of the settings, and the
  harness around the test in \<open>main.rs\<close>.
\<close>


section \<open>A packet on its way\<close>

text \<open>Shines on their way to players, and nothing else.\<close>

definition shines_only :: "(chan \<times> ('b, 's, 'u) command) list \<Rightarrow> bool" where
  "shines_only ms \<longleftrightarrow> (\<forall>(ch, m) \<in> set ms. \<exists>i. m = PacketCmd (shine_packet guid_default i))"

lemma shines_only_rows [simp]:
  "shines_only []" "shines_only (ms @ ns) \<longleftrightarrow> shines_only ms \<and> shines_only ns"
  "shines_only (shine_row w ch guid_default a)"
  by (simp_all add: shines_only_def shine_row_def ball_Un) blast

context tokio_impl
begin

lemma sync_all_shines_only:
  assumes "sync_all_shines rt (co, w) = Some (Ok u, (co', w'))"
  shows "co' = co \<and> (\<exists>ms. log w' = log w @ ms \<and> shines_only ms)"
proof -
  let ?body = "\<lambda>(g, a) s. case hm_get (to_clients (fst s)) g of
         None \<Rightarrow> apanic s
       | Some ch \<Rightarrow> on_world (client_sync_shines rt ch guid_default a) s"
  have "co' = co \<and> (\<exists>ms. log w' = log w @ ms \<and> shines_only ms)"
    if "for_each ?body xs (co, w) = Some (Ok u, (co', w'))" for xs w
    using that
  proof (induction xs arbitrary: w)
    case (Cons x xs)
    obtain g a where x: "x = (g, a)" by fastforce
    from Cons.prems have "abind (?body x) (\<lambda>_. for_each ?body xs) (co, w) = Some (Ok u, (co', w'))" by simp
    then obtain q co1 w1 where one: "?body x (co, w) = Some (Ok q, (co1, w1))"
      and more: "for_each ?body xs (co1, w1) = Some (Ok u, (co', w'))"
      by (auto simp: abind_eq_Ok simp del: case_prod_conv)
    from one obtain ch where "client_sync_shines rt ch guid_default a w = Some (Ok q, w1)" and "co1 = co"
      by (auto simp: x on_world_run split: option.splits)
    then have "log w1 = log w @ shine_row w ch guid_default a"
      using send_each_log[of "shine_row w ch guid_default a" w "Ok q" w1] by (simp add: client_sync_row)
    moreover from Cons.IH[of w1] more \<open>co1 = co\<close> obtain ms where "co' = co" "log w' = log w1 @ ms" "shines_only ms"
      by blast
    ultimately show ?case by (metis append_assoc shines_only_rows(2,3))
  qed auto
  with assms show ?thesis by (simp add: sync_all_shines_def)
qed

lemma game_sends_nothing:
  "coord_game rt p n stage (co, w) = Some (Ok u, (co', w')) \<Longrightarrow> co' = co \<and> log w' = log w"
  by (auto simp: coord_game_def get_client_def get_channel_def abind_eq_Ok on_world_run log_memory spawn_law
      split: if_splits option.splits)

lemma coordinator_relays:
  assumes "\<not> is_Shine (pkt_data p)"
    and "coord_handle_command T rt (PacketCmd p) (co, w) = Some (Ok b, (co', w'))"
  shows "\<exists>pre. log w' = log w @ pre @ to_all (PacketCmd (resize p)) (hm_values (to_clients co))
    \<and> shines_only pre \<and> (pre = [] \<or> (\<exists>x. pkt_data p = Costume x))"
proof -
  obtain m :: "(unit, smo_error, 'x costate) async" where
    m: "coord_handle_command T rt (PacketCmd p) = abind m (\<lambda>_. abind (broadcast rt p) (\<lambda>_. aret True))"
    and keeps: "\<And>q co1 w1. m (co, w) = Some (Ok q, (co1, w1)) \<Longrightarrow> co1 = co \<and> (\<exists>pre. log w1 = log w @ pre
      \<and> shines_only pre \<and> (pre = [] \<or> (\<exists>x. pkt_data p = Costume x)))"
  proof (cases "pkt_data p")
    case (Game flat n stage)
    show thesis
    proof (rule that)
      show "coord_handle_command T rt (PacketCmd p) =
          abind (coord_game rt p n stage) (\<lambda>_. abind (broadcast rt p) (\<lambda>_. aret True))"
        by (simp add: coord_handle_command_def Game)
    qed (use game_sends_nothing in fastforce)
  next
    case (Costume x)
    show thesis
    proof (rule that)
      show "coord_handle_command T rt (PacketCmd p) =
          abind (sync_all_shines rt) (\<lambda>_. abind (broadcast rt p) (\<lambda>_. aret True))"
        by (simp add: coord_handle_command_def Costume)
    qed (use sync_all_shines_only Costume in fastforce)
  qed (rule that[of "aret ()"], insert assms(1), simp add: coord_handle_command_def, simp)+
  from assms(2) obtain q co1 w1 where one: "m (co, w) = Some (Ok q, (co1, w1))"
    and "broadcast rt p (co1, w1) = Some (Ok (), (co', w'))"
    unfolding m by (auto simp: abind_eq_Ok)
  with keeps[OF one] have run: "send_each rt (to_all (PacketCmd (resize p)) (hm_values (to_clients co))) w1 = Some (Ok (), w')"
    by (auto simp: broadcast_row on_world_run)
  from keeps[OF one] send_each_log[OF run] show ?thesis by fastforce
qed

end

text \<open>A message with the data of \<open>p\<close> in the channel \<open>ch\<close>.\<close>

definition copy_of :: "packet \<Rightarrow> chan \<Rightarrow> chan \<times> ('b, 's, 'u) command \<Rightarrow> bool" where
  "copy_of p ch = (\<lambda>(c, m). c = ch \<and> (\<exists>q. m = PacketCmd q \<and> pkt_data q = pkt_data p))"

lemma no_copy_in_shines:
  assumes "shines_only ms" and "\<not> is_Shine (pkt_data p)"
  shows "filter (copy_of p ch) ms = []"
proof -
  have "\<not> copy_of p ch (c, m)" if "(c, m) \<in> set ms" for c m
  proof -
    from assms(1) that obtain i where "m = PacketCmd (shine_packet guid_default i)"
      by (auto simp: shines_only_def)
    with assms(2) show ?thesis by (auto simp: copy_of_def shine_packet_def split: packet_data.splits)
  qed
  then show ?thesis by (auto simp: filter_empty_conv)
qed

lemma filter_eq_single: "distinct xs \<Longrightarrow> x \<in> set xs \<Longrightarrow> filter (\<lambda>y. y = x) xs = [x]"
  by (induction xs) (auto simp: filter_empty_conv)

lemma one_copy_each:
  fixes m :: "('a, chan) hmap"
  assumes "hm_ok m" and "hm_get m g = Some ch" and "\<And>h. hm_get m h = Some ch \<Longrightarrow> h = g"
  shows "filter (copy_of p ch) (to_all (PacketCmd (resize p)) (hm_values m)) =
    [(ch, PacketCmd (resize p) :: ('b, 's, 'u) command)]"
proof -
  have unique: "x = (g, ch)" if x: "x \<in> set (hm_iter m)" "snd x = ch" for x
  proof -
    from x have "(fst x, ch) \<in> set (hm_iter m)" by (metis prod.collapse)
    with assms(3)[of "fst x"] hm.iter_mem[OF assms(1), of "fst x" ch] have "fst x = g" by blast
    with x(2) show ?thesis by (metis prod.collapse)
  qed
  have "filter (\<lambda>x. snd x = ch) (hm_iter m) = filter (\<lambda>x. x = (g, ch)) (hm_iter m)"
    using unique by (intro filter_cong refl) force
  also have "\<dots> = [(g, ch)]"
  proof (rule filter_eq_single)
    show "distinct (hm_iter m)" using distinct_hm_iter[OF assms(1)] by (simp add: distinct_map)
    show "(g, ch) \<in> set (hm_iter m)" using hm.iter_mem[OF assms(1), of g ch] assms(2) by blast
  qed
  finally have one: "filter (\<lambda>x. snd x = ch) (hm_iter m) = [(g, ch)]" .
  have row: "to_all (PacketCmd (resize p) :: ('b, 's, 'u) command) (hm_values m) = map (\<lambda>x. (snd x, PacketCmd (resize p))) (hm_iter m)"
    by (simp add: to_all_def hm_values_def)
  have "filter (copy_of p ch) (map (\<lambda>x. (snd x, PacketCmd (resize p) :: ('b, 's, 'u) command)) xs) =
      map (\<lambda>x. (snd x, PacketCmd (resize p))) (filter (\<lambda>x. snd x = ch) xs)" for xs :: "('a \<times> chan) list"
    by (induction xs) (simp_all add: copy_of_def)
  then show ?thesis unfolding row by (simp add: one)
qed

text \<open>What the task of a player does with the packet.\<close>

lemma player_writes:
  fixes c :: "('b, 's, 'u) client" and v :: "'x shared"
  assumes "tcp_impl K T rx tx" and "udp_impl K U got sent" and "sized_packet q" and "20 + get_size (pkt_data q) \<le> usize_max"
    and "cli_guid c \<noteq> pkt_id q" and "handle_command K T U (PacketCmd q) (c, v) = Some (Ok (), (c', v'))"
  shows "if movement q \<and> is_client_udp (udp_conn c)
     then conn c' = conn c \<and> (\<exists>d. send_addr (udp_conn c) = Connected d
       \<and> sent (udp_socket (udp_conn c')) = sent (udp_socket (udp_conn c)) @ [(packet_bytes q, d)])
     else udp_conn c' = udp_conn c \<and> written T tx (packet_bytes q) (conn_socket (conn c)) (conn_socket (conn c'))"
proof -
  from assms(5,6) have sp: "send_packet K T U q (c, v) = Some (Ok (), (c', v'))"
    by (auto simp: handle_command_def)
  show ?thesis
  proof (cases "movement q \<and> is_client_udp (udp_conn c)")
    case True
    with sp assms(5) obtain k where
      k: "udp_write_packet K U q (udp_conn c) = Some (Ok (), k)" and "c' = c\<lparr>udp_conn := k\<rparr>"
      by (auto simp: send_packet_cases on_part)
    with True udp_impl.udp_write_Ok[OF assms(2) k assms(3,4)] show ?thesis by fastforce
  next
    case False
    with sp assms(5) obtain k where
      k: "write_packet K T q (conn c) = Some (Ok (), k)" and "c' = c\<lparr>conn := k\<rparr>"
      by (auto simp: send_packet_cases on_part)
    with False tcp_impl.write_packet_written(1)[OF assms(1) k assms(3,4)] show ?thesis by auto
  qed
qed

text \<open>
  C1. A packet on its way through the server, stage by stage, each stage taking what the one before
  sent. The task of its player tells the coordinator exactly one thing: the packet as it is. When the
  coordinator takes that, it puts the packet, resized to its true length, into the channel of every
  connected player, once each; before it there can only be shines, and these only with a costume. So
  the channel of a player, if it belongs to that player alone, gets exactly one message with the
  packet's data. When that player's task takes this message, it makes one \<open>write_packet\<close> of the packet on
  its TCP connection, and nothing over UDP: the packet arrives once and whole if the socket takes it
  in one piece. If it is a position and UDP is open it sends one datagram with it instead. If the
  packet came from this very player, it writes nothing. (UDP ports are not passed on, and shines
  travel through the bag; both are excluded.)
\<close>
theorem relay_end_to_end:
  fixes rt :: "('b, 's, 'u, 'x) tokio" and T :: "('b, 'n, 's) tcp" and U :: "'u udp"
  assumes "tcp_impl K T rx tx" and "udp_impl K U got sent" and "tokio_impl rt log tasks"
    and "coord_ok co" and "sized_packet p" and "20 + get_size (pkt_data p) \<le> usize_max"
    and "\<not> is_udp_init p" and "\<not> is_Shine (pkt_data p)"
    and "handle_packet rt p (a, w) = Some (Ok (), (a', w1))"
    and "log w1 = log w @ ms1" and "(ch1, cmd) \<in> set ms1"
    and "coord_handle_command T rt cmd (co, w2) = Some (Ok b, (co', w3))" and "log w3 = log w2 @ ms2"
    and "hm_get (to_clients co) (cli_guid c) = Some (from_server c)"
    and "\<And>h. hm_get (to_clients co) h = Some (from_server c) \<Longrightarrow> h = cli_guid c"
  shows "ms1 = [(to_coord a, cmd)] \<and> cmd = PacketCmd p
    \<and> (\<exists>pre. ms2 = pre @ map (\<lambda>ch. (ch, PacketCmd (resize p))) (hm_values (to_clients co))
        \<and> shines_only pre \<and> (pre = [] \<or> (\<exists>x. pkt_data p = Costume x)))
    \<and> filter (copy_of p (from_server c)) ms2 = [(from_server c, PacketCmd (resize p))]
    \<and> (\<forall>(v :: 'x shared) c' v'. handle_command K T U (PacketCmd (resize p)) (c, v) = Some (Ok (), (c', v')) \<longrightarrow>
        (if cli_guid c = pkt_id p then conn c' = conn c \<and> udp_conn c' = udp_conn c
         else if movement p \<and> is_client_udp (udp_conn c)
         then conn c' = conn c \<and> (\<exists>d. send_addr (udp_conn c) = Connected d
           \<and> sent (udp_socket (udp_conn c')) = sent (udp_socket (udp_conn c)) @ [(packet_bytes (resize p), d)])
         else udp_conn c' = udp_conn c
           \<and> written T tx (packet_bytes (resize p)) (conn_socket (conn c)) (conn_socket (conn c'))
           \<and> (\<forall>t. tcp_write T (packet_bytes (resize p)) (conn_socket (conn c)) =
                Some (Ok (length (packet_bytes (resize p))), t) \<longrightarrow>
              tx (conn_socket (conn c')) = tx (conn_socket (conn c)) @ packet_bytes (resize p))))"
proof -
  have "ms1 = [(to_coord a, PacketCmd p)]"
    using tokio_impl.handle_packet_log[OF assms(3,9)] assms(7,10) by simp
  with assms(11) have cmd: "ms1 = [(to_coord a, cmd)]" "cmd = PacketCmd p" by auto
  from tokio_impl.coordinator_relays[OF assms(3,8) assms(12)[unfolded cmd(2)]] assms(13)
  obtain pre where pre: "ms2 = pre @ to_all (PacketCmd (resize p)) (hm_values (to_clients co))"
    "shines_only pre" "pre = [] \<or> (\<exists>x. pkt_data p = Costume x)"
    by auto
  from assms(4) have "hm_ok (to_clients co)" by (simp add: coord_ok_def)
  from one_copy_each[OF this assms(14,15), of p] no_copy_in_shines[OF pre(2) assms(8)]
  have one: "filter (copy_of p (from_server c)) ms2 = [(from_server c, PacketCmd (resize p))]"
    by (simp add: pre(1))
  have sized: "sized_packet (resize p)" "20 + get_size (pkt_data (resize p)) \<le> usize_max"
    and same: "movement (resize p) = movement p" "pkt_id (resize p) = pkt_id p"
    using assms(5,6) by (simp_all add: sized_packet_def movement_def)
  have task: "if cli_guid c = pkt_id p then conn c' = conn c \<and> udp_conn c' = udp_conn c
         else if movement p \<and> is_client_udp (udp_conn c)
         then conn c' = conn c \<and> (\<exists>d. send_addr (udp_conn c) = Connected d
           \<and> sent (udp_socket (udp_conn c')) = sent (udp_socket (udp_conn c)) @ [(packet_bytes (resize p), d)])
         else udp_conn c' = udp_conn c
           \<and> written T tx (packet_bytes (resize p)) (conn_socket (conn c)) (conn_socket (conn c'))
           \<and> (\<forall>t. tcp_write T (packet_bytes (resize p)) (conn_socket (conn c)) =
                Some (Ok (length (packet_bytes (resize p))), t) \<longrightarrow>
              tx (conn_socket (conn c')) = tx (conn_socket (conn c)) @ packet_bytes (resize p))"
    if run: "handle_command K T U (PacketCmd (resize p)) (c, v) = Some (Ok (), (c', v'))" for v v' :: "'x shared" and c'
  proof (cases "cli_guid c = pkt_id p")
    case True
    with run show ?thesis by (auto simp: handle_command_def split: packet_data.splits)
  next
    case False
    with player_writes[OF assms(1,2) sized _ run] same have out: "if movement p \<and> is_client_udp (udp_conn c)
         then conn c' = conn c \<and> (\<exists>d. send_addr (udp_conn c) = Connected d
           \<and> sent (udp_socket (udp_conn c')) = sent (udp_socket (udp_conn c)) @ [(packet_bytes (resize p), d)])
         else udp_conn c' = udp_conn c
           \<and> written T tx (packet_bytes (resize p)) (conn_socket (conn c)) (conn_socket (conn c'))"
      by simp
    show ?thesis
    proof (cases "movement p \<and> is_client_udp (udp_conn c)")
      case True
      with out False show ?thesis by simp
    next
      case tcp: False
      note w = out[unfolded if_not_P[OF tcp], THEN conjunct2]
      from out written_whole[OF w packet_bytes_not_Nil] False show ?thesis unfolding if_not_P[OF tcp] by simp
    qed
  qed
  show ?thesis using cmd pre one task unfolding to_all_def by blast
qed

lemma sample_broadcast:
  "broadcast post_tokio p (two_clients, sample_world) =
     Some (Ok (), (two_clients, sent_all (to_all (PacketCmd (resize p)) [20, 21]) sample_world))"
proof -
  have "send_each post_tokio (to_all (PacketCmd (resize p)) [20, 21]) sample_world =
      Some (Ok (), sent_all (to_all (PacketCmd (resize p)) [20, 21]) sample_world)"
    by (rule sample_row) (simp add: to_all_def)
  then show ?thesis by (simp add: broadcast_row two_clients_values on_world_def zoom_def)
qed

lemma other_player_framed: "framed other_player"
  by (simp add: framed_def other_player_def)

lemma player_handed_on:
  "handle_packet post_tokio other_player (fresh, sample_world) =
     Some (Ok (), (fresh, sent_on 0 (PacketCmd other_player) sample_world))"
  by (simp add: handle_packet_def note_packet_def other_player_def on_shared_def zoom_def send_def
      post_send_def fresh_def sample_client_def sample_world_def sent_all_def on_runtime_def queued_def)

lemma player_broadcast:
  "coord_handle_command whole_tcp post_tokio (PacketCmd other_player) (two_clients, sample_world) =
     Some (Ok True, (two_clients, sent_all (to_all (PacketCmd (resize other_player)) [20, 21]) sample_world))"
  by (simp add: coord_handle_command_def other_player_def abind_def sample_broadcast)

text \<open>The second of two players, with UDP open.\<close>

definition receiver :: "(u8 list, script, mailbox) client" where
  "receiver = udp_open\<lparr>cli_guid := g2, from_server := 21\<rparr>"

lemma receiver_parts: "cli_guid receiver = g2" "from_server receiver = 21" "udp_conn receiver = udp_conn udp_open"
  by (simp_all add: receiver_def)

lemma receiver_run:
  "handle_command bytes_list whole_tcp mailbox_udp (PacketCmd (resize other_player)) (receiver, sample_world) =
     Some (Ok (), (receiver\<lparr>udp_conn := udp_conn udp_sent\<rparr>, sample_world))"
proof -
  have kind: "movement other_player \<and> is_client_udp (udp_conn udp_open)" "pkt_id other_player \<noteq> cli_guid udp_open"
    "pkt_id other_player \<noteq> g2"
    by (simp_all add: other_player_def udp_open_def sample_client_def mb_conn_def is_client_udp_def
        movement_def guid_default_def guid_from_def g2_def)
  with other_player_sent obtain k where k: "udp_write_packet bytes_list mailbox_udp other_player (udp_conn udp_open) =
      Some (Ok (), k)" and sent: "udp_sent = udp_open\<lparr>udp_conn := k\<rparr>"
    by (auto simp: send_packet_cases on_part)
  have "udp_conn udp_sent = k" unfolding sent by simp
  with kind k show ?thesis
    by (simp add: handle_command_def send_packet_cases resize_framed other_player_framed receiver_parts on_udp_def zoom_def)
qed

theorem relay_end_to_end_witness:
  "filter (copy_of other_player 21) (to_all (PacketCmd (resize other_player)) [20, 21] :: test_row) =
       [(21, PacketCmd (resize other_player))]
    \<and> (\<exists>d. send_addr (udp_conn receiver) = Connected d
        \<and> mb_sent (udp_socket (udp_conn udp_sent)) =
            mb_sent (udp_socket (udp_conn receiver)) @ [(packet_bytes (resize other_player), d)])"
proof -
  have kind: "\<not> is_udp_init other_player" "\<not> is_Shine (pkt_data other_player)"
    by (simp_all add: other_player_def is_udp_init_def)
  have logs: "plog (sent_on 0 (PacketCmd other_player) sample_world) = plog sample_world @ [(0, PacketCmd other_player)]"
    "plog (sent_all (to_all (PacketCmd (resize other_player)) [20, 21]) sample_world) =
      plog sample_world @ to_all (PacketCmd (resize other_player)) [20, 21]"
    by simp_all
  have known: "hm_get (to_clients two_clients) (cli_guid receiver) = Some (from_server receiver)"
    by (simp add: receiver_parts two_clients_channels)
  have only: "h = cli_guid receiver" if "hm_get (to_clients two_clients) h = Some (from_server receiver)" for h
    using that by (simp add: receiver_parts two_clients_channels split: if_splits)
  note all = relay_end_to_end[OF whole_socket.tcp_impl_axioms mailbox_socket.udp_impl_axioms
      post_runtime.tokio_impl_axioms two_clients_ok other_player_sized kind player_handed_on logs(1) list.set_intros(1)
      player_broadcast logs(2) known only]
  have udp: "movement other_player \<and> is_client_udp (udp_conn receiver)" "cli_guid receiver \<noteq> pkt_id other_player"
    by (simp_all add: other_player_def udp_open_def sample_client_def mb_conn_def is_client_udp_def
        movement_def guid_from_def g2_def receiver_parts)
  from all receiver_run udp show ?thesis
    by (fastforce simp: receiver_parts(2))
qed

section \<open>The shines after a speedrun\<close>

lemma waterfall_not_cap [simp]: "waterfall_stage \<noteq> cap_stage"
  by (simp add: waterfall_stage_def cap_stage_def str_lit_def)

text \<open>
  C28. After a speedrun the coordinator plans, for 15 seconds later, a task that sends the player the
  shines it missed meanwhile. That task sends them under the player's own guid, and the client's
  task drops every packet under its own guid: nothing it sends is ever written to the player.
\<close>
theorem late_shines_are_dropped:
  fixes rt :: "('b, 's, 'u, 'x) tokio" and T :: "('b, 'n, 's) tcp" and U :: "'u udp"
  assumes "tokio_impl rt log tasks" and "hm_get (clients co) (pkt_id p) = Some a"
    and "hm_get (to_clients co) (pkt_id p) = Some ch" and "speedrun_start (cells w a)"
    and "delayed_sync rt ch (pkt_id p) a v = Some (r, v')" and "cli_guid c = pkt_id p"
  shows "(\<exists>w'. coord_game rt p n waterfall_stage (co, w) = Some (Ok (), (co, w'))
      \<and> tasks w' = tasks w @ [DelayedSync ch (pkt_id p) a])
    \<and> (\<exists>cmds. log v' = log v @ map (\<lambda>cmd. (ch, cmd)) cmds
      \<and> (\<forall>cmd \<in> set cmds. \<forall>u :: 'x shared. handle_command K T U cmd (c, u) = Some (Ok (), (c, u))))"
proof (intro conjI)
  let ?w = "update_cell a (\<lambda>d. d\<lparr>speedrun_start := False\<rparr>) w"
  have "coord_game rt p n waterfall_stage (co, w) =
      Some (Ok (), (co, rt_spawn rt (DelayedSync ch (pkt_id p) a) ?w))"
    using assms(2-4)
    by (simp add: coord_game_def get_client_def get_channel_def abind_def on_world_def zoom_def)
  then show "\<exists>w'. coord_game rt p n waterfall_stage (co, w) = Some (Ok (), (co, w'))
      \<and> tasks w' = tasks w @ [DelayedSync ch (pkt_id p) a]"
    using tokio_impl.spawn_law(2)[OF assms(1)] tokio_impl.log_memory(4)[OF assms(1)] by simp
next
  from assms(5) obtain q where "client_sync_shines rt ch (pkt_id p) a v = Some (q, v')"
    by (auto simp: delayed_sync_def atry_eq elim!: abind_cases)
  then have run: "send_each rt (shine_row v ch (pkt_id p) a) v = Some (q, v')"
    by (simp add: client_sync_row)
  then obtain k where "log v' = log v @ take k (shine_row v ch (pkt_id p) a)"
    using tokio_impl.send_each_log[OF assms(1) run] by (metis order_refl take_all)
  then have "log v' = log v @ map (\<lambda>cmd. (ch, cmd))
      (map (\<lambda>i. PacketCmd (shine_packet (pkt_id p) i)) (take k (lacking v a)))"
    by (simp add: shine_row_def take_map)
  moreover have "\<forall>cmd \<in> set (map (\<lambda>i. PacketCmd (shine_packet (pkt_id p) i)) (take k (lacking v a))).
      \<forall>u :: 'x shared. handle_command K T U cmd (c, u) = Some (Ok (), (c, u))"
    using assms(6) by (simp add: handle_command_def shine_packet_def)
  ultimately show "\<exists>cmds. log v' = log v @ map (\<lambda>cmd. (ch, cmd)) cmds
      \<and> (\<forall>cmd \<in> set cmds. \<forall>u :: 'x shared. handle_command K T U cmd (c, u) = Some (Ok (), (c, u)))"
    by blast
qed

definition running_world :: "test_post shared" where
  "running_world = update_cell 10 (\<lambda>d. d\<lparr>speedrun_start := True\<rparr>) sample_world"

definition waterfall_packet :: packet where
  "waterfall_packet = \<lparr>pkt_id = g1, data_size = 66, pkt_data = Game False 1 waterfall_stage\<rparr>"

lemma late_run:
  "delayed_sync post_tokio 20 (pkt_id waterfall_packet) 10 moon_world =
     Some (Ok (), sent_all (shine_row moon_world 20 g1 10) moon_world)"
proof -
  have "length (shine_row moon_world 20 g1 10 :: test_row) \<le> 1"
    by (simp add: shine_row_def lacking_def moon_world_def sample_world_def hs_difference_def hm_keys_def
        hs_insert_def hm_insert_def hm_new_def hm_iter_def)
  then have "send_each post_tokio (shine_row moon_world 20 g1 10) moon_world =
      Some (Ok (), sent_all (shine_row moon_world 20 g1 10) moon_world)"
    by (intro post_send_each) (simp_all add: moon_world_def sample_world_def queued_def)
  then show ?thesis
    by (simp add: delayed_sync_def client_sync_row waterfall_packet_def atry_def abind_def)
qed

theorem late_shines_are_dropped_witness:
  "(\<exists>w'. coord_game post_tokio waterfall_packet 1 waterfall_stage (two_clients, running_world) =
        Some (Ok (), (two_clients, w'))
      \<and> po_tasks (runtime w') = po_tasks (runtime running_world) @ [DelayedSync 20 (pkt_id waterfall_packet) 10])
    \<and> (\<exists>cmds. plog (sent_all (shine_row moon_world 20 g1 10) moon_world) = plog moon_world @ map (\<lambda>cmd. (20, cmd)) cmds
      \<and> (\<forall>cmd \<in> set cmds. \<forall>u :: test_post shared.
           handle_command bytes_list script_tcp mailbox_udp cmd (namesake, u) = Some (Ok (), (namesake, u))))"
  by (rule late_shines_are_dropped[OF post_runtime.tokio_impl_axioms _ _ _ late_run])
     (simp_all add: two_clients_def waterfall_packet_def hm_get_def running_world_def namesake_def)

end
